(* ===== verification/Prelude.thy ===== *)
theory Prelude
  imports Main "HOL-Library.Word" "HOL-Library.Multiset" "HOL-Library.Sublist"
begin

section \<open>Shared vocabulary: bytes, C strings, faults and array idioms\<close>

text \<open>
  What every component of the model shares: bytes and little-endian integers, C strings and
  the two formatting routines the server's paths are built with, memory faults as values, and
  the three array idioms of the code (a bounds-checked store, the first index that matches,
  removal of one element with \<open>memmove\<close>). The collections below carry the automation:
  \<^item> \<open>mem_simps\<close>: reading back what was stored in a byte array;
  \<^item> \<open>str_simps\<close>: lengths and terminators of C strings and of formatted numbers;
  \<^item> \<open>idx_simps\<close>: search and removal in arrays.
\<close>

named_theorems mem_simps
named_theorems str_simps
named_theorems idx_simps

subsection \<open>Faults\<close>

text \<open>
  An access outside an array, a dereference of a null pointer and a read of memory nobody wrote
  are values, so that a theorem can say that they do or do not happen.
\<close>

datatype fault = Out_Of_Bounds | Null_Deref | Uninit_Read

type_synonym 'a result = "fault + 'a"

definition rbind :: "'a result \<Rightarrow> ('a \<Rightarrow> 'b result) \<Rightarrow> 'b result" where
  "rbind r f = (case r of Inl e \<Rightarrow> Inl e | Inr x \<Rightarrow> f x)"

definition poke :: "nat \<Rightarrow> 'a \<Rightarrow> 'a list \<Rightarrow> 'a list result" where
  "poke i v a = (if i < length a then Inr (a[i := v]) else Inl Out_Of_Bounds)"

definition peek :: "nat \<Rightarrow> 'a list \<Rightarrow> 'a result" where
  "peek i a = (if i < length a then Inr (a ! i) else Inl Out_Of_Bounds)"

subsection \<open>Bytes and little-endian integers\<close>

type_synonym byte = "8 word"

definition slice_at :: "nat \<Rightarrow> nat \<Rightarrow> 'a list \<Rightarrow> 'a list" where
  "slice_at off n xs = take n (drop off xs)"

fun le_val :: "byte list \<Rightarrow> nat" where
  "le_val [] = 0"
| "le_val (b # bs) = unat b + 256 * le_val bs"

fun le_enc :: "nat \<Rightarrow> nat \<Rightarrow> byte list" where
  "le_enc 0 n = []"
| "le_enc (Suc k) n = of_nat (n mod 256) # le_enc k (n div 256)"

definition get8 :: "nat \<Rightarrow> byte list \<Rightarrow> byte" where
  "get8 off m = of_nat (le_val (slice_at off 1 m))"

definition get16 :: "nat \<Rightarrow> byte list \<Rightarrow> 16 word" where
  "get16 off m = of_nat (le_val (slice_at off 2 m))"

definition get32 :: "nat \<Rightarrow> byte list \<Rightarrow> 32 word" where
  "get32 off m = of_nat (le_val (slice_at off 4 m))"

definition get64 :: "nat \<Rightarrow> byte list \<Rightarrow> 64 word" where
  "get64 off m = of_nat (le_val (slice_at off 8 m))"

definition put8 :: "byte \<Rightarrow> byte list" where
  "put8 w = le_enc 1 (unat w)"

definition put16 :: "16 word \<Rightarrow> byte list" where
  "put16 w = le_enc 2 (unat w)"

definition put32 :: "32 word \<Rightarrow> byte list" where
  "put32 w = le_enc 4 (unat w)"

definition put64 :: "64 word \<Rightarrow> byte list" where
  "put64 w = le_enc 8 (unat w)"

text \<open>\<open>htons\<close> on a little-endian machine: the two bytes change places.\<close>

definition htons :: "16 word \<Rightarrow> 16 word" where
  "htons w = of_nat (le_val (rev (put16 w)))"

subsection \<open>C strings\<close>

text \<open>
  A \<open>char\<close> of HOL is a byte. A C string is the part of a character array before its first
  NUL; an array that holds no NUL is read past its end, which is a fault.
\<close>

definition byte_of_char :: "char \<Rightarrow> byte" where
  "byte_of_char c = of_nat (of_char c)"

definition char_of_byte :: "byte \<Rightarrow> char" where
  "char_of_byte b = char_of (unat b)"

definition bytes_of :: "string \<Rightarrow> byte list" where
  "bytes_of s = map byte_of_char s"

definition string_of :: "byte list \<Rightarrow> string" where
  "string_of bs = map char_of_byte bs"

abbreviation NUL :: char where
  "NUL \<equiv> CHR 0x00"

definition cstr :: "string \<Rightarrow> string" where
  "cstr s = takeWhile (\<lambda>c. c \<noteq> NUL) s"

definition read_cstr :: "nat \<Rightarrow> byte list \<Rightarrow> string result" where
  "read_cstr off m = (let s = string_of (drop off m)
     in if NUL \<in> set s then Inr (cstr s) else Inl Out_Of_Bounds)"

text \<open>
  \<open>snprintf (buf, n, \<dots>)\<close> leaves at most \<open>n - 1\<close> characters and a NUL; so does
  \<open>strncpy (dst, src, n - 1)\<close> (or \<open>n\<close>) followed by \<open>dst[n - 1] = 0\<close>.
\<close>

definition snprintf :: "nat \<Rightarrow> string \<Rightarrow> string" where
  "snprintf n s = take (n - 1) s"

definition strncpy_term :: "nat \<Rightarrow> string \<Rightarrow> string" where
  "strncpy_term n src = take (n - 1) (cstr src)"

subsection \<open>Formatted numbers\<close>

definition hexd :: "nat \<Rightarrow> char" where
  "hexd n = ''0123456789abcdef'' ! n"

fun hexn :: "nat \<Rightarrow> nat \<Rightarrow> string" where
  "hexn 0 n = []"
| "hexn (Suc k) n = hexn k (n div 16) @ [hexd (n mod 16)]"

text \<open>\<open>%02x\<close> of an 8-bit and \<open>%08x\<close> of a 32-bit value: always two and eight digits.\<close>

definition hex2 :: "byte \<Rightarrow> string" where
  "hex2 b = hexn 2 (unat b)"

definition hex8 :: "32 word \<Rightarrow> string" where
  "hex8 w = hexn 8 (unat w)"

definition digit :: "nat \<Rightarrow> char" where
  "digit n = char_of (48 + n)"

fun dec_nat :: "nat \<Rightarrow> string" where
  "dec_nat n = (if n < 10 then [digit n] else dec_nat (n div 10) @ [digit (n mod 10)])"

declare dec_nat.simps [simp del]

definition dec_int :: "int \<Rightarrow> string" where
  "dec_int i = (if i < 0 then ''-'' @ dec_nat (nat (- i)) else dec_nat (nat i))"

subsection \<open>Arrays\<close>

text \<open>The index at which a search loop that breaks at the first match stops.\<close>

fun first_idx :: "('a \<Rightarrow> bool) \<Rightarrow> 'a list \<Rightarrow> nat option" where
  "first_idx P [] = None"
| "first_idx P (x # xs) = (if P x then Some 0 else map_option Suc (first_idx P xs))"

text \<open>\<open>memmove (&a[i], &a[i + 1], \<dots>)\<close> and a decrement of the count.\<close>

definition remove_nth :: "nat \<Rightarrow> 'a list \<Rightarrow> 'a list" where
  "remove_nth i xs = take i xs @ drop (Suc i) xs"

section \<open>Lemmas\<close>

lemma rbind_Inr [simp]: "rbind (Inr x) f = f x"
  by (simp add: rbind_def)

lemma rbind_Inl [simp]: "rbind (Inl e) f = Inl e"
  by (simp add: rbind_def)

lemma rbind_eq_Inr: "rbind r f = Inr y \<longleftrightarrow> (\<exists>x. r = Inr x \<and> f x = Inr y)"
  by (auto simp: rbind_def split: sum.splits)

lemma rbind_eq_Inl: "rbind r f = Inl e \<longleftrightarrow> r = Inl e \<or> (\<exists>x. r = Inr x \<and> f x = Inl e)"
  by (auto simp: rbind_def split: sum.splits)

lemma poke_ok [simp]: "i < length a \<Longrightarrow> poke i v a = Inr (a[i := v])"
  by (simp add: poke_def)

lemma poke_Inr: "poke i v a = Inr b \<longleftrightarrow> i < length a \<and> b = a[i := v]"
  by (auto simp: poke_def)

lemma peek_ok [simp]: "i < length a \<Longrightarrow> peek i a = Inr (a ! i)"
  by (simp add: peek_def)

subsection \<open>Byte arrays\<close>

lemma unat_lt2p: "unat (w :: 'a::len word) < 2 ^ LENGTH('a)"
  by (rule unsigned_less)

lemma slice_0 [mem_simps]: "slice_at 0 n xs = take n xs"
  by (simp add: slice_at_def)

lemma length_slice [mem_simps]: "length (slice_at off n xs) = min n (length xs - off)"
  by (simp add: slice_at_def)

lemma slice_append_skip [mem_simps]:
  "length xs \<le> off \<Longrightarrow> slice_at off n (xs @ ys) = slice_at (off - length xs) n ys"
  by (simp add: slice_at_def)

lemma slice_append_here [mem_simps]:
  "length xs = n \<Longrightarrow> slice_at 0 n (xs @ ys) = xs"
  by (simp add: slice_at_def)

lemma slice_in_left:
  "off + n \<le> length xs \<Longrightarrow> slice_at off n (xs @ ys) = slice_at off n xs"
  by (simp add: slice_at_def)

lemma length_le_enc [simp]: "length (le_enc k n) = k"
  by (induction k arbitrary: n) auto

lemma le_val_enc: "le_val (le_enc k n) = n mod 256 ^ k"
proof (induction k arbitrary: n)
  case 0
  then show ?case by simp
next
  case (Suc k)
  have "unat (of_nat (n mod 256) :: byte) = n mod 256"
    by (simp add: unat_of_nat take_bit_eq_mod)
  moreover have "n mod (256 * 256 ^ k) = n mod 256 + 256 * (n div 256 mod 256 ^ k)"
    by (simp add: mod_mult2_eq)
  ultimately show ?case by (simp add: Suc)
qed

lemma le_val_less: "le_val bs < 256 ^ length bs"
proof (induction bs)
  case Nil
  then show ?case by simp
next
  case (Cons b bs)
  have "unat b < 256" using unat_lt2p [of b] by simp
  with Cons show ?case by simp
qed

lemma le_enc_val: "le_enc (length bs) (le_val bs) = bs"
proof (induction bs)
  case Nil
  then show ?case by simp
next
  case (Cons b bs)
  have b: "unat b < 256" using unat_lt2p [of b] by simp
  then have "(unat b + 256 * le_val bs) mod 256 = unat b"
    and "(unat b + 256 * le_val bs) div 256 = le_val bs"
    by simp_all
  with Cons show ?case by simp
qed

lemma length_put [simp]:
  "length (put8 b) = 1" "length (put16 h) = 2" "length (put32 w) = 4" "length (put64 d) = 8"
  by (simp_all add: put8_def put16_def put32_def put64_def)

lemma get_put:
  "get8 0 (put8 b @ r) = b" "get16 0 (put16 h @ r) = h"
  "get32 0 (put32 w @ r) = w" "get64 0 (put64 d @ r) = d"
  using unat_lt2p [of b] unat_lt2p [of h] unat_lt2p [of w] unat_lt2p [of d]
  by (simp_all add: get8_def get16_def get32_def get64_def slice_append_here
      put8_def put16_def put32_def put64_def le_val_enc del: le_enc.simps One_nat_def)

lemma get_skip:
  "length xs \<le> off \<Longrightarrow> get8 off (xs @ ys) = get8 (off - length xs) ys"
  "length xs \<le> off \<Longrightarrow> get16 off (xs @ ys) = get16 (off - length xs) ys"
  "length xs \<le> off \<Longrightarrow> get32 off (xs @ ys) = get32 (off - length xs) ys"
  "length xs \<le> off \<Longrightarrow> get64 off (xs @ ys) = get64 (off - length xs) ys"
  by (simp_all add: get8_def get16_def get32_def get64_def slice_append_skip)

lemma get_in_left:
  "off + 1 \<le> length xs \<Longrightarrow> get8 off (xs @ ys) = get8 off xs"
  "off + 2 \<le> length xs \<Longrightarrow> get16 off (xs @ ys) = get16 off xs"
  "off + 4 \<le> length xs \<Longrightarrow> get32 off (xs @ ys) = get32 off xs"
  "off + 8 \<le> length xs \<Longrightarrow> get64 off (xs @ ys) = get64 off xs"
  by (simp_all add: get8_def get16_def get32_def get64_def slice_in_left)

lemmas get_simps [mem_simps] = get_put get_put [where r = "[]", simplified] get_skip

lemma htons_htons: "htons (htons w) = w"
proof -
  have eq: "put16 (htons w) = rev (put16 w)"
  proof -
    have "le_val (rev (put16 w)) < 256 ^ 2"
      using le_val_less [of "rev (put16 w)"] by simp
    then have "unat (htons w) = le_val (rev (put16 w))"
      by (simp add: htons_def unat_of_nat take_bit_eq_mod)
    then show ?thesis
      using le_enc_val [of "rev (put16 w)"] by (simp add: put16_def)
  qed
  have "get16 0 (put16 w) = w" by (simp add: mem_simps)
  then show ?thesis
    unfolding htons_def [of "htons w"] eq
    by (simp add: get16_def mem_simps)
qed

subsection \<open>C strings\<close>

lemma char_of_byte_of_char [simp]: "char_of_byte (byte_of_char c) = c"
proof -
  have "of_char c < (256 :: nat)" by (rule nat_of_char_less_256)
  then have "unat (of_nat (of_char c) :: byte) = of_char c"
    by (simp add: unat_of_nat take_bit_eq_mod)
  then show ?thesis by (simp add: char_of_byte_def byte_of_char_def)
qed

lemma byte_of_char_of_byte [simp]: "byte_of_char (char_of_byte b) = b"
proof -
  have "unat b < 256" using unat_lt2p [of b] by simp
  then show ?thesis by (simp add: char_of_byte_def byte_of_char_def)
qed

lemma char_of_byte_0 [simp]: "char_of_byte 0 = NUL"
  by (simp add: char_of_byte_def char_of_def)

lemma string_of_bytes_of [simp]: "string_of (bytes_of s) = s"
  by (simp add: string_of_def bytes_of_def comp_def)

lemma bytes_of_string_of [simp]: "bytes_of (string_of b) = b"
  by (simp add: string_of_def bytes_of_def comp_def)

lemma length_bytes_of [simp]: "length (bytes_of s) = length s"
  by (simp add: bytes_of_def)

lemma length_string_of [simp]: "length (string_of s) = length s"
  by (simp add: string_of_def)

lemma string_of_append [simp]: "string_of (a @ b) = string_of a @ string_of b"
  by (simp add: string_of_def)

lemma NUL_notin_cstr [simp]: "NUL \<notin> set (cstr s)"
  by (auto simp: cstr_def dest: set_takeWhileD)

lemma length_cstr_le: "length (cstr s) \<le> length s"
  by (simp add: cstr_def length_takeWhile_le)

lemma cstr_id [str_simps]: "NUL \<notin> set s \<Longrightarrow> cstr s = s"
  by (induction s) (auto simp: cstr_def)

lemma cstr_append_NUL [str_simps]: "NUL \<notin> set s \<Longrightarrow> cstr (s @ NUL # r) = s"
  by (induction s) (auto simp: cstr_def)

lemma cstr_cstr [simp]: "cstr (cstr s) = cstr s"
  by (rule cstr_id) simp

lemma length_snprintf [str_simps]: "length (snprintf n s) = min (n - 1) (length s)"
  by (simp add: snprintf_def min.commute)

lemma snprintf_fits [str_simps]: "length s < n \<Longrightarrow> snprintf n s = s"
  by (simp add: snprintf_def)

lemma length_strncpy_term [str_simps]: "length (strncpy_term n s) \<le> n - 1"
  by (simp add: strncpy_term_def)

lemma NUL_notin_strncpy_term [simp]: "NUL \<notin> set (strncpy_term n s)"
  by (auto simp: strncpy_term_def dest: in_set_takeD)

lemma strncpy_term_fits [str_simps]:
  "NUL \<notin> set s \<Longrightarrow> length s < n \<Longrightarrow> strncpy_term n s = s"
  by (simp add: strncpy_term_def cstr_id)

subsection \<open>Formatted numbers\<close>

lemma length_hexn [simp]: "length (hexn k n) = k"
  by (induction k arbitrary: n) auto

lemma hexd_cases:
  assumes "n < (16 :: nat)"
  shows "n \<in> {0, 1, 2, 3, 4, 5, 6, 7, 8, 9, 10, 11, 12, 13, 14, 15}"
  using assms by (simp add: numeral_eq_Suc less_Suc_eq)

lemma hexd_inj: "m < 16 \<Longrightarrow> n < 16 \<Longrightarrow> hexd m = hexd n \<Longrightarrow> m = n"
proof -
  have d: "distinct ''0123456789abcdef''" by simp
  assume "m < 16" "n < 16" "hexd m = hexd n"
  then show "m = n" using nth_eq_iff_index_eq [OF d, of m n] by (simp add: hexd_def)
qed

lemma hexn_inj: "m < 16 ^ k \<Longrightarrow> n < 16 ^ k \<Longrightarrow> hexn k m = hexn k n \<Longrightarrow> m = n"
proof (induction k arbitrary: m n)
  case 0
  then show ?case by simp
next
  case (Suc k)
  from Suc.prems(3) have h: "hexn k (m div 16) = hexn k (n div 16)"
    and l: "hexd (m mod 16) = hexd (n mod 16)" by simp_all
  have "m div 16 < 16 ^ k" "n div 16 < 16 ^ k"
    using Suc.prems(1,2) by (simp_all add: less_mult_imp_div_less mult.commute)
  then have "m div 16 = n div 16" using h by (rule Suc.IH)
  moreover have "m mod 16 = n mod 16" using l by (intro hexd_inj) simp_all
  ultimately show ?case by (metis div_mult_mod_eq)
qed

lemma length_hex2 [simp]: "length (hex2 b) = 2"
  by (simp add: hex2_def)

lemma length_hex8 [simp]: "length (hex8 b) = 8"
  by (simp add: hex8_def)

lemma hex2_inj [simp]: "hex2 a = hex2 b \<longleftrightarrow> a = b"
proof
  assume "hex2 a = hex2 b"
  moreover have "unat a < 16 ^ 2" "unat b < 16 ^ 2"
    using unat_lt2p [of a] unat_lt2p [of b] by simp_all
  ultimately have "unat a = unat b" unfolding hex2_def by (intro hexn_inj)
  then show "a = b" by (simp add: word_unat_eq_iff)
qed simp

lemma hex8_inj [simp]: "hex8 a = hex8 b \<longleftrightarrow> a = b"
proof
  assume "hex8 a = hex8 b"
  moreover have "unat a < 16 ^ 8" "unat b < 16 ^ 8"
    using unat_lt2p [of a] unat_lt2p [of b] by simp_all
  ultimately have "unat a = unat b" unfolding hex8_def by (intro hexn_inj)
  then show "a = b" by (simp add: word_unat_eq_iff)
qed simp

lemma hexd_not_special:
  "n < 16 \<Longrightarrow> hexd n \<noteq> NUL" "n < 16 \<Longrightarrow> hexd n \<noteq> CHR ''/''" "n < 16 \<Longrightarrow> hexd n \<noteq> CHR ''_''"
  by (drule hexd_cases; auto simp: hexd_def)+

lemma hexn_not_special:
  "c \<in> {NUL, CHR ''/'', CHR ''_''} \<Longrightarrow> c \<notin> set (hexn k n)"
  by (induction k arbitrary: n) (auto simp: hexd_not_special dest: sym)

lemma dec_nat_nonempty [simp]: "dec_nat n \<noteq> []"
  by (subst dec_nat.simps) simp

lemma digit_val: "n < 10 \<Longrightarrow> of_char (digit n) = (48 + n :: nat)"
  by (simp add: digit_def)

lemma dec_nat_digits: "c \<in> set (dec_nat n) \<Longrightarrow> \<exists>d < 10. c = digit d"
proof (induction n rule: dec_nat.induct)
  case (1 n)
  show ?case
  proof (cases "n < 10")
    case True
    with "1.prems" show ?thesis by (subst (asm) dec_nat.simps) auto
  next
    case False
    with "1.prems" have "c \<in> set (dec_nat (n div 10)) \<or> c = digit (n mod 10)"
      by (subst (asm) dec_nat.simps) auto
    then show ?thesis
    proof
      assume "c \<in> set (dec_nat (n div 10))"
      then show ?thesis by (rule "1.IH" [OF False])
    next
      assume "c = digit (n mod 10)"
      then show ?thesis by (intro exI [of _ "n mod 10"]) simp
    qed
  qed
qed

lemma length_dec_nat_le: "n < 10 ^ k \<Longrightarrow> 0 < k \<Longrightarrow> length (dec_nat n) \<le> k"
proof (induction k arbitrary: n)
  case 0
  then show ?case by simp
next
  case (Suc k)
  show ?case
  proof (cases "n < 10")
    case True
    then show ?thesis by (subst dec_nat.simps) simp
  next
    case False
    with Suc.prems have "0 < k" by (cases k) auto
    moreover have "n div 10 < 10 ^ k" using Suc.prems(1) by (simp add: less_mult_imp_div_less mult.commute)
    ultimately have "length (dec_nat (n div 10)) \<le> k" by (intro Suc.IH)
    with False show ?thesis by (subst dec_nat.simps) simp
  qed
qed

subsection \<open>Search and removal\<close>

lemma first_idx_Some:
  "first_idx P xs = Some i \<Longrightarrow> i < length xs \<and> P (xs ! i) \<and> (\<forall>j<i. \<not> P (xs ! j))"
proof (induction xs arbitrary: i)
  case Nil
  then show ?case by simp
next
  case (Cons x xs)
  show ?case
  proof (cases "P x")
    case True
    with Cons.prems show ?thesis by simp
  next
    case False
    with Cons.prems obtain k where k: "first_idx P xs = Some k" "i = Suc k" by auto
    then have "k < length xs \<and> P (xs ! k) \<and> (\<forall>j<k. \<not> P (xs ! j))" using Cons.IH by blast
    with False k(2) show ?thesis by (auto simp: less_Suc_eq_0_disj)
  qed
qed

lemma first_idx_None [idx_simps]: "first_idx P xs = None \<longleftrightarrow> (\<forall>x \<in> set xs. \<not> P x)"
  by (induction xs) auto

lemma first_idx_less: "first_idx P xs = Some i \<Longrightarrow> i < length xs"
  by (simp add: first_idx_Some)

lemma length_remove_nth [idx_simps]:
  "i < length xs \<Longrightarrow> length (remove_nth i xs) = length xs - 1"
  by (simp add: remove_nth_def)

lemma set_remove_nth: "set (remove_nth i xs) \<subseteq> set xs"
  by (auto simp: remove_nth_def dest: in_set_takeD in_set_dropD)

lemma set_subseq_subset: "subseq xs ys \<Longrightarrow> set xs \<subseteq> set ys"
  by (induction rule: list_emb.induct) auto

lemma subseq_remove_nth: "subseq (remove_nth i xs) xs"
proof -
  have "subseq (drop (Suc i) xs) (drop i xs)"
    by (metis drop_Suc drop_tl subseq_order.refl suffix_drop suffix_imp_subseq suffix_tl)
  then show ?thesis
    unfolding remove_nth_def by (metis append_take_drop_id list_emb_append_mono subseq_order.refl)
qed

lemma mset_remove_nth:
  "i < length xs \<Longrightarrow> mset xs = add_mset (xs ! i) (mset (remove_nth i xs))"
proof -
  assume "i < length xs"
  then have "xs = take i xs @ xs ! i # drop (Suc i) xs" by (rule id_take_nth_drop)
  then have "mset xs = mset (take i xs @ xs ! i # drop (Suc i) xs)" by simp
  then show ?thesis by (simp add: remove_nth_def)
qed

lemma remove_nth_0 [simp]: "remove_nth 0 xs = tl xs"
  by (cases xs) (simp_all add: remove_nth_def)

end
