(* ===== verification/Protocol.thy ===== *)
theory Protocol
  imports Prelude
begin

section \<open>The wire protocol (src/shared/protocol.h)\<close>

text \<open>
  The message types, status codes and message structs of \<^verbatim>\<open>protocol.h\<close>. The server and the
  clients send a struct by copying its memory, so the wire format is the layout the compiler
  gives it: little-endian fields at the offsets of the System V x86-64 ABI, with padding. One
  record per struct; \<open>load\<close> reads the fields out of a buffer as the cast of a buffer pointer
  does; \<open>store\<close> is the memory of a struct variable after its fields were assigned, where
  \<open>mem\<close> is what the variable's memory held before (padding keeps it, and so does a field the
  code never assigns). The locale \<open>wire_struct\<close> is the contract every struct meets.
\<close>

definition SERVER_PORT :: nat where "SERVER_PORT = 5555"
definition HEARTBEAT_INTERVAL :: int where "HEARTBEAT_INTERVAL = 10"
definition HEARTBEAT_TIMEOUT :: int where "HEARTBEAT_TIMEOUT = 30"
definition MAX_FILENAME_LEN :: nat where "MAX_FILENAME_LEN = 256"
definition MAX_CMD_LEN :: nat where "MAX_CMD_LEN = 1024"

lemmas protocol_consts =
  SERVER_PORT_def HEARTBEAT_INTERVAL_def HEARTBEAT_TIMEOUT_def MAX_FILENAME_LEN_def MAX_CMD_LEN_def

datatype message_type =
    CLIENT_ID_REQ | CLIENT_ID_ACK | HEARTBEAT | JOB_REQ | JOB_ACK
  | UPLOAD_REQ | UPLOAD_ACK | JOB_RESULT | DOWNLOAD_REQ | DOWNLOAD_ACK

fun message_code :: "message_type \<Rightarrow> byte" where
  "message_code CLIENT_ID_REQ = 1"
| "message_code CLIENT_ID_ACK = 2"
| "message_code HEARTBEAT = 3"
| "message_code JOB_REQ = 4"
| "message_code JOB_ACK = 5"
| "message_code UPLOAD_REQ = 6"
| "message_code UPLOAD_ACK = 7"
| "message_code JOB_RESULT = 8"
| "message_code DOWNLOAD_REQ = 9"
| "message_code DOWNLOAD_ACK = 10"

datatype status_code =
    STATUS_OK | STATUS_ERROR | STATUS_INVALID_REQUEST | STATUS_JOB_EXISTS
  | STATUS_UPLOAD_LIMIT | STATUS_FILE_NOT_FOUND

fun status_byte :: "status_code \<Rightarrow> byte" where
  "status_byte STATUS_OK = 0"
| "status_byte STATUS_ERROR = 1"
| "status_byte STATUS_INVALID_REQUEST = 2"
| "status_byte STATUS_JOB_EXISTS = 3"
| "status_byte STATUS_UPLOAD_LIMIT = 4"
| "status_byte STATUS_FILE_NOT_FOUND = 5"

subsection \<open>The structs\<close>

record client_id_request =
  cq_type :: byte
  cq_message_id :: "32 word"

record client_id_response =
  cr_type :: byte
  cr_message_id :: "32 word"
  cr_client_id :: "byte list"

record heartbeat =
  hb_type :: byte
  hb_client_id :: "byte list"

record job_request =
  jq_type :: byte
  jq_message_id :: "32 word"
  jq_client_id :: "byte list"
  jq_job_id :: "32 word"
  jq_file_count :: byte
  jq_cmd_len :: "16 word"

record job_response =
  jr_type :: byte
  jr_message_id :: "32 word"
  jr_job_id :: "32 word"
  jr_status :: byte
  jr_msg_len :: "16 word"

record upload_request =
  uq_type :: byte
  uq_message_id :: "32 word"
  uq_client_id :: "byte list"
  uq_job_id :: "32 word"
  uq_file_size :: "64 word"
  uq_name_len :: "16 word"

record upload_response =
  ur_type :: byte
  ur_message_id :: "32 word"
  ur_name_len :: "16 word"
  ur_status :: byte
  ur_ip_address :: "32 word"
  ur_tcp_port :: "16 word"

record job_result =
  jt_type :: byte
  jt_message_id :: "32 word"
  jt_client_id :: "byte list"
  jt_job_id :: "32 word"
  jt_status :: byte
  jt_msg_len :: "16 word"

record download_request =
  dq_type :: byte
  dq_message_id :: "32 word"
  dq_client_id :: "byte list"
  dq_job_id :: "32 word"
  dq_name_len :: "16 word"

record download_response =
  dr_type :: byte
  dr_message_id :: "32 word"
  dr_status :: byte
  dr_file_size :: "64 word"
  dr_name_len :: "16 word"

text \<open>The values of \<open>sizeof\<close>.\<close>

definition sizeof_ClientIdRequest :: nat where "sizeof_ClientIdRequest = 8"
definition sizeof_ClientIdResponse :: nat where "sizeof_ClientIdResponse = 24"
definition sizeof_Heartbeat :: nat where "sizeof_Heartbeat = 17"
definition sizeof_JobRequest :: nat where "sizeof_JobRequest = 32"
definition sizeof_JobResponse :: nat where "sizeof_JobResponse = 16"
definition sizeof_UploadRequest :: nat where "sizeof_UploadRequest = 48"
definition sizeof_UploadResponse :: nat where "sizeof_UploadResponse = 20"
definition sizeof_JobResult :: nat where "sizeof_JobResult = 32"
definition sizeof_DownloadRequest :: nat where "sizeof_DownloadRequest = 32"
definition sizeof_DownloadResponse :: nat where "sizeof_DownloadResponse = 32"

lemmas sizeof_defs =
  sizeof_ClientIdRequest_def sizeof_ClientIdResponse_def sizeof_Heartbeat_def
  sizeof_JobRequest_def sizeof_JobResponse_def sizeof_UploadRequest_def
  sizeof_UploadResponse_def sizeof_JobResult_def sizeof_DownloadRequest_def
  sizeof_DownloadResponse_def

subsection \<open>Reading a struct out of a buffer\<close>

definition load_client_id_request :: "byte list \<Rightarrow> client_id_request" where
  "load_client_id_request b = \<lparr>cq_type = get8 0 b, cq_message_id = get32 4 b\<rparr>"

definition load_client_id_response :: "byte list \<Rightarrow> client_id_response" where
  "load_client_id_response b =
     \<lparr>cr_type = get8 0 b, cr_message_id = get32 4 b, cr_client_id = slice_at 8 16 b\<rparr>"

definition load_heartbeat :: "byte list \<Rightarrow> heartbeat" where
  "load_heartbeat b = \<lparr>hb_type = get8 0 b, hb_client_id = slice_at 1 16 b\<rparr>"

definition load_job_request :: "byte list \<Rightarrow> job_request" where
  "load_job_request b =
     \<lparr>jq_type = get8 0 b, jq_message_id = get32 4 b, jq_client_id = slice_at 8 16 b,
      jq_job_id = get32 24 b, jq_file_count = get8 28 b, jq_cmd_len = get16 30 b\<rparr>"

definition load_job_response :: "byte list \<Rightarrow> job_response" where
  "load_job_response b =
     \<lparr>jr_type = get8 0 b, jr_message_id = get32 4 b, jr_job_id = get32 8 b,
      jr_status = get8 12 b, jr_msg_len = get16 14 b\<rparr>"

definition load_upload_request :: "byte list \<Rightarrow> upload_request" where
  "load_upload_request b =
     \<lparr>uq_type = get8 0 b, uq_message_id = get32 4 b, uq_client_id = slice_at 8 16 b,
      uq_job_id = get32 24 b, uq_file_size = get64 32 b, uq_name_len = get16 40 b\<rparr>"

definition load_upload_response :: "byte list \<Rightarrow> upload_response" where
  "load_upload_response b =
     \<lparr>ur_type = get8 0 b, ur_message_id = get32 4 b, ur_name_len = get16 8 b,
      ur_status = get8 10 b, ur_ip_address = get32 12 b, ur_tcp_port = get16 16 b\<rparr>"

definition load_job_result :: "byte list \<Rightarrow> job_result" where
  "load_job_result b =
     \<lparr>jt_type = get8 0 b, jt_message_id = get32 4 b, jt_client_id = slice_at 8 16 b,
      jt_job_id = get32 24 b, jt_status = get8 28 b, jt_msg_len = get16 30 b\<rparr>"

definition load_download_request :: "byte list \<Rightarrow> download_request" where
  "load_download_request b =
     \<lparr>dq_type = get8 0 b, dq_message_id = get32 4 b, dq_client_id = slice_at 8 16 b,
      dq_job_id = get32 24 b, dq_name_len = get16 28 b\<rparr>"

definition load_download_response :: "byte list \<Rightarrow> download_response" where
  "load_download_response b =
     \<lparr>dr_type = get8 0 b, dr_message_id = get32 4 b, dr_status = get8 8 b,
      dr_file_size = get64 16 b, dr_name_len = get16 24 b\<rparr>"

subsection \<open>The memory of an assigned struct\<close>

definition store_client_id_request :: "byte list \<Rightarrow> client_id_request \<Rightarrow> byte list" where
  "store_client_id_request mem r =
     put8 (cq_type r) @ slice_at 1 3 mem @ put32 (cq_message_id r)"

definition store_client_id_response :: "byte list \<Rightarrow> client_id_response \<Rightarrow> byte list" where
  "store_client_id_response mem r =
     put8 (cr_type r) @ slice_at 1 3 mem @ put32 (cr_message_id r) @ cr_client_id r"

definition store_heartbeat :: "byte list \<Rightarrow> heartbeat \<Rightarrow> byte list" where
  "store_heartbeat mem r = put8 (hb_type r) @ hb_client_id r"

definition store_job_request :: "byte list \<Rightarrow> job_request \<Rightarrow> byte list" where
  "store_job_request mem r =
     put8 (jq_type r) @ slice_at 1 3 mem @ put32 (jq_message_id r) @ jq_client_id r @
     put32 (jq_job_id r) @ put8 (jq_file_count r) @ slice_at 29 1 mem @ put16 (jq_cmd_len r)"

definition store_job_response :: "byte list \<Rightarrow> job_response \<Rightarrow> byte list" where
  "store_job_response mem r =
     put8 (jr_type r) @ slice_at 1 3 mem @ put32 (jr_message_id r) @ put32 (jr_job_id r) @
     put8 (jr_status r) @ slice_at 13 1 mem @ put16 (jr_msg_len r)"

definition store_upload_request :: "byte list \<Rightarrow> upload_request \<Rightarrow> byte list" where
  "store_upload_request mem r =
     put8 (uq_type r) @ slice_at 1 3 mem @ put32 (uq_message_id r) @ uq_client_id r @
     put32 (uq_job_id r) @ slice_at 28 4 mem @ put64 (uq_file_size r) @
     put16 (uq_name_len r) @ slice_at 42 6 mem"

definition store_upload_response :: "byte list \<Rightarrow> upload_response \<Rightarrow> byte list" where
  "store_upload_response mem r =
     put8 (ur_type r) @ slice_at 1 3 mem @ put32 (ur_message_id r) @ put16 (ur_name_len r) @
     put8 (ur_status r) @ slice_at 11 1 mem @ put32 (ur_ip_address r) @
     put16 (ur_tcp_port r) @ slice_at 18 2 mem"

definition store_job_result :: "byte list \<Rightarrow> job_result \<Rightarrow> byte list" where
  "store_job_result mem r =
     put8 (jt_type r) @ slice_at 1 3 mem @ put32 (jt_message_id r) @ jt_client_id r @
     put32 (jt_job_id r) @ put8 (jt_status r) @ slice_at 29 1 mem @ put16 (jt_msg_len r)"

definition store_download_request :: "byte list \<Rightarrow> download_request \<Rightarrow> byte list" where
  "store_download_request mem r =
     put8 (dq_type r) @ slice_at 1 3 mem @ put32 (dq_message_id r) @ dq_client_id r @
     put32 (dq_job_id r) @ put16 (dq_name_len r) @ slice_at 30 2 mem"

definition store_download_response :: "byte list \<Rightarrow> download_response \<Rightarrow> byte list" where
  "store_download_response mem r =
     put8 (dr_type r) @ slice_at 1 3 mem @ put32 (dr_message_id r) @ put8 (dr_status r) @
     slice_at 9 7 mem @ put64 (dr_file_size r) @ put16 (dr_name_len r) @ slice_at 26 6 mem"

lemmas store_defs =
  store_client_id_request_def store_client_id_response_def store_heartbeat_def
  store_job_request_def store_job_response_def store_upload_request_def
  store_upload_response_def store_job_result_def store_download_request_def
  store_download_response_def

lemmas load_defs =
  load_client_id_request_def load_client_id_response_def load_heartbeat_def
  load_job_request_def load_job_response_def load_upload_request_def
  load_upload_response_def load_job_result_def load_download_request_def
  load_download_response_def

text \<open>
  \<open>recvfrom\<close> overwrites the front of the buffer and leaves the rest as it was.
\<close>

definition recv_into :: "byte list \<Rightarrow> byte list \<Rightarrow> byte list" where
  "recv_into buf data = take (length buf) data @ drop (length data) buf"

lemma length_recv_into [mem_simps]: "length (recv_into buf data) = length buf"
  by (simp add: recv_into_def)

section \<open>The contract of a wire struct\<close>

text \<open>
  A struct occupies \<open>size\<close> bytes, and whatever follows it or was in its padding, reading it
  back gives the fields that were stored. \<open>ok\<close> is the width of its byte arrays.
\<close>

locale wire_struct =
  fixes size_of :: nat
    and load :: "byte list \<Rightarrow> 'm"
    and store :: "byte list \<Rightarrow> 'm \<Rightarrow> byte list"
    and ok :: "'m \<Rightarrow> bool"
  assumes length_store: "ok r \<Longrightarrow> length mem = size_of \<Longrightarrow> length (store mem r) = size_of"
    and load_store: "ok r \<Longrightarrow> length mem = size_of \<Longrightarrow> load (store mem r @ tail) = r"
begin

lemma load_exact: "ok r \<Longrightarrow> length mem = size_of \<Longrightarrow> load (store mem r) = r"
  using load_store [of r mem "[]"] by simp

lemma store_inject:
  assumes "ok r" "ok r'" "length mem = size_of" "length mem' = size_of"
    and "store mem r @ p = store mem' r' @ p'"
  shows "r = r' \<and> p = p'"
proof
  show "r = r'"
    using assms load_store by metis
  have "length (store mem r) = length (store mem' r')"
    using assms(1-4) by (simp add: length_store)
  with assms(5) show "p = p'" by simp
qed

lemma received:
  assumes "ok r" "length mem = size_of" "size_of + length p \<le> length buf"
  shows "load (recv_into buf (store mem r @ p)) = r"
    and "slice_at size_of (length p) (recv_into buf (store mem r @ p)) = p"
  using assms by (simp_all add: recv_into_def length_store load_store slice_at_def)

end

text \<open>The client identifiers are arrays of 16 bytes.\<close>

definition id16 :: "byte list \<Rightarrow> bool" where
  "id16 b \<longleftrightarrow> length b = 16"

interpretation client_id_request: wire_struct sizeof_ClientIdRequest
  load_client_id_request store_client_id_request "\<lambda>r. True"
  by unfold_locales (simp_all add: sizeof_defs load_defs store_defs mem_simps)

interpretation client_id_response: wire_struct sizeof_ClientIdResponse
  load_client_id_response store_client_id_response "\<lambda>r. id16 (cr_client_id r)"
  by unfold_locales (simp_all add: sizeof_defs load_defs store_defs mem_simps id16_def)

interpretation heartbeat: wire_struct sizeof_Heartbeat
  load_heartbeat store_heartbeat "\<lambda>r. id16 (hb_client_id r)"
  by unfold_locales (simp_all add: sizeof_defs load_defs store_defs mem_simps id16_def)

interpretation job_request: wire_struct sizeof_JobRequest
  load_job_request store_job_request "\<lambda>r. id16 (jq_client_id r)"
  by unfold_locales (simp_all add: sizeof_defs load_defs store_defs mem_simps id16_def)

interpretation job_response: wire_struct sizeof_JobResponse
  load_job_response store_job_response "\<lambda>r. True"
  by unfold_locales (simp_all add: sizeof_defs load_defs store_defs mem_simps id16_def)

interpretation upload_request: wire_struct sizeof_UploadRequest
  load_upload_request store_upload_request "\<lambda>r. id16 (uq_client_id r)"
  by unfold_locales (simp_all add: sizeof_defs load_defs store_defs mem_simps id16_def)

interpretation upload_response: wire_struct sizeof_UploadResponse
  load_upload_response store_upload_response "\<lambda>r. True"
  by unfold_locales (simp_all add: sizeof_defs load_defs store_defs mem_simps id16_def)

interpretation job_result: wire_struct sizeof_JobResult
  load_job_result store_job_result "\<lambda>r. id16 (jt_client_id r)"
  by unfold_locales (simp_all add: sizeof_defs load_defs store_defs mem_simps id16_def)

interpretation download_request: wire_struct sizeof_DownloadRequest
  load_download_request store_download_request "\<lambda>r. id16 (dq_client_id r)"
  by unfold_locales (simp_all add: sizeof_defs load_defs store_defs mem_simps id16_def)

interpretation download_response: wire_struct sizeof_DownloadResponse
  load_download_response store_download_response "\<lambda>r. True"
  by unfold_locales (simp_all add: sizeof_defs load_defs store_defs mem_simps id16_def)

section \<open>Properties\<close>





end
