(* ===== verification/LogQueue.thy ===== *)
theory LogQueue
  imports Prelude
begin

section \<open>The log queue (src/server/log\_queue.c, log\_append of admin\_handler.c)\<close>

text \<open>
  The server's log is a ring buffer of \<open>LOG_QUEUE_SIZE\<close> lines of at most
  \<open>LOG_ENTRY_MAX - 1\<close> characters: \<open>log_queue_push\<close> overwrites the oldest line when the ring
  is full, \<open>log_queue_pop_timed\<close> removes the oldest one or waits for one. The C ints \<open>head\<close>,
  \<open>tail\<close> and \<open>count\<close> are naturals here: they start at 0, are reduced modulo the ring's size and
  \<open>count\<close> is decremented only where it is positive. A line is the C string its array holds.
  The abstraction \<open>lq_view\<close> is the list of pending lines, oldest first; the locale
  \<open>bounded_log\<close> is what the admin console relies on.
\<close>

definition LOG_QUEUE_SIZE :: nat where "LOG_QUEUE_SIZE = 100"
definition LOG_ENTRY_MAX :: nat where "LOG_ENTRY_MAX = 512"

lemmas log_consts = LOG_QUEUE_SIZE_def LOG_ENTRY_MAX_def

record log_queue =
  lq_entries :: "string list"
  lq_head :: nat
  lq_tail :: nat
  lq_count :: nat

definition log_queue_init :: "log_queue \<Rightarrow> log_queue" where
  "log_queue_init q = q\<lparr>lq_head := 0, lq_tail := 0, lq_count := 0\<rparr>"

text \<open>The global \<open>global_log_queue\<close> before \<open>main\<close> runs: static storage is zeroed.\<close>

definition global_log_queue :: log_queue where
  "global_log_queue =
     \<lparr>lq_entries = replicate LOG_QUEUE_SIZE [], lq_head = 0, lq_tail = 0, lq_count = 0\<rparr>"

definition drop_oldest_if_full :: "log_queue \<Rightarrow> log_queue" where
  "drop_oldest_if_full q =
     (if lq_count q = LOG_QUEUE_SIZE
      then q\<lparr>lq_head := (lq_head q + 1) mod LOG_QUEUE_SIZE, lq_count := lq_count q - 1\<rparr>
      else q)"

definition log_queue_push :: "log_queue \<Rightarrow> string \<Rightarrow> log_queue" where
  "log_queue_push q entry =
     (let q1 = drop_oldest_if_full q
      in q1\<lparr>lq_entries := (lq_entries q1)[lq_tail q1 := strncpy_term LOG_ENTRY_MAX entry],
            lq_tail := (lq_tail q1 + 1) mod LOG_QUEUE_SIZE,
            lq_count := lq_count q1 + 1\<rparr>)"

text \<open>The part of \<open>log_queue_pop_timed\<close> after its wait loop.\<close>

definition log_queue_take :: "log_queue \<Rightarrow> (string \<times> log_queue) option" where
  "log_queue_take q =
     (if lq_count q = 0 then None
      else Some (lq_entries q ! lq_head q,
                 q\<lparr>lq_head := (lq_head q + 1) mod LOG_QUEUE_SIZE, lq_count := lq_count q - 1\<rparr>))"

text \<open>
  The absolute deadline handed to \<open>pthread_cond_timedwait\<close>, from the current time
  \<open>(sec, nsec)\<close> and a timeout that is not negative.
\<close>

fun wait_deadline :: "int \<times> int \<Rightarrow> int \<Rightarrow> int \<times> int" where
  "wait_deadline (sec, nsec) timeout_ms =
     (let sec1 = sec + timeout_ms div 1000;
          nsec1 = nsec + (timeout_ms mod 1000) * 1000000
      in if nsec1 \<ge> 1000000000 then (sec1 + 1, nsec1 - 1000000000) else (sec1, nsec1))"

definition ETIMEDOUT :: int where "ETIMEDOUT = 110"

datatype pop_outcome = Pop_Entry string | Pop_Timeout | Pop_Error

fun pop_return :: "pop_outcome \<Rightarrow> int" where
  "pop_return (Pop_Entry e) = 1"
| "pop_return Pop_Timeout = 0"
| "pop_return Pop_Error = -1"

text \<open>
  Every wait on the condition variable ends with a return code and with the queue as the other
  threads left it; \<open>waits\<close> lists them in order. \<open>None\<close>: the thread is still blocked when the
  list ends.
\<close>

fun log_queue_pop_timed ::
  "int \<Rightarrow> (int \<times> log_queue) list \<Rightarrow> log_queue \<Rightarrow> (pop_outcome \<times> log_queue) option" where
  "log_queue_pop_timed timeout_ms waits q =
     (case log_queue_take q of
        Some (e, q') \<Rightarrow> Some (Pop_Entry e, q')
      | None \<Rightarrow>
          (case waits of
             [] \<Rightarrow> None
           | (ret, q1) # waits' \<Rightarrow>
               if timeout_ms \<ge> 0 \<and> ret = ETIMEDOUT then Some (Pop_Timeout, q1)
               else if ret \<noteq> 0 then Some (Pop_Error, q1)
               else log_queue_pop_timed timeout_ms waits' q1))"

declare log_queue_pop_timed.simps [simp del]

text \<open>
  \<open>log_append\<close>: \<open>prefix_len\<close> is the length the prefix would have, so a prefix longer than the
  buffer makes \<open>buf + prefix_len\<close> point past it while \<open>sizeof (buf) - prefix_len\<close> wraps round.
  \<open>time_str\<close> is what \<open>strftime\<close> made of the local time, \<open>msg\<close> the formatted message.
\<close>

definition log_line :: "string \<Rightarrow> string \<Rightarrow> string \<Rightarrow> string result" where
  "log_line category time_str msg =
     (let prefix = category @ '' '' @ time_str @ '' ''
      in if length prefix \<le> LOG_ENTRY_MAX then Inr (snprintf LOG_ENTRY_MAX (prefix @ msg))
         else Inl Out_Of_Bounds)"

definition log_append :: "string \<Rightarrow> string \<Rightarrow> string \<Rightarrow> log_queue \<Rightarrow> log_queue result" where
  "log_append category time_str msg q =
     rbind (log_line category time_str msg) (\<lambda>line. Inr (log_queue_push q line))"

subsection \<open>Abstraction and invariant\<close>

definition lq_view :: "log_queue \<Rightarrow> string list" where
  "lq_view q =
     map (\<lambda>i. lq_entries q ! ((lq_head q + i) mod LOG_QUEUE_SIZE)) [0..<lq_count q]"

definition lq_inv :: "log_queue \<Rightarrow> bool" where
  "lq_inv q \<longleftrightarrow> length (lq_entries q) = LOG_QUEUE_SIZE \<and> lq_head q < LOG_QUEUE_SIZE \<and>
     lq_count q \<le> LOG_QUEUE_SIZE \<and> lq_tail q = (lq_head q + lq_count q) mod LOG_QUEUE_SIZE \<and>
     (\<forall>e \<in> set (lq_entries q). length e < LOG_ENTRY_MAX \<and> NUL \<notin> set e)"

text \<open>The abstract bounded log: only the newest \<open>n\<close> lines survive.\<close>

definition last_n :: "nat \<Rightarrow> 'a list \<Rightarrow> 'a list" where
  "last_n n xs = drop (length xs - n) xs"

text \<open>
  The console's loop \<^verbatim>\<open>while (log_queue_pop_timed (\<dots>, 0) == 1)\<close> over any log, with fuel for the
  number of lines it may find.
\<close>

fun drain :: "('q \<Rightarrow> ('e \<times> 'q) option) \<Rightarrow> nat \<Rightarrow> 'q \<Rightarrow> 'e list \<times> 'q" where
  "drain pop 0 q = ([], q)"
| "drain pop (Suc n) q =
     (case pop q of None \<Rightarrow> ([], q) | Some (e, q') \<Rightarrow> apfst (Cons e) (drain pop n q'))"

section \<open>The contract of a bounded log\<close>

lemma last_n_small [simp]: "length xs \<le> n \<Longrightarrow> last_n n xs = xs"
  by (simp add: last_n_def)

lemma length_last_n: "length (last_n n xs) = min n (length xs)"
  by (simp add: last_n_def)

lemma last_n_last_n_append: "last_n n (last_n n xs @ ys) = last_n n (xs @ ys)"
  by (cases "length xs \<le> n") (auto simp: last_n_def add.commute)

locale bounded_log =
  fixes cap :: nat
    and push :: "'q \<Rightarrow> 'e \<Rightarrow> 'q"
    and pop :: "'q \<Rightarrow> ('e \<times> 'q) option"
    and view :: "'q \<Rightarrow> 'e list"
    and inv :: "'q \<Rightarrow> bool"
    and trunc :: "'e \<Rightarrow> 'e"
  assumes inv_push: "inv q \<Longrightarrow> inv (push q e)"
    and view_push: "inv q \<Longrightarrow> view (push q e) = last_n cap (view q @ [trunc e])"
    and pop_None: "inv q \<Longrightarrow> pop q = None \<longleftrightarrow> view q = []"
    and pop_Some: "inv q \<Longrightarrow> pop q = Some (e, q') \<Longrightarrow> inv q' \<and> view q = e # view q'"
    and view_bound: "inv q \<Longrightarrow> length (view q) \<le> cap"
begin

lemma inv_pushes: "inv q \<Longrightarrow> inv (foldl push q es)"
  by (induction es arbitrary: q) (simp_all add: inv_push)

lemma view_pushes: "inv q \<Longrightarrow> view (foldl push q es) = last_n cap (view q @ map trunc es)"
proof (induction es arbitrary: q)
  case Nil
  then show ?case by (simp add: view_bound)
next
  case (Cons e es)
  then have "view (foldl push q (e # es)) = last_n cap (view (push q e) @ map trunc es)"
    by (simp add: inv_push)
  also have "\<dots> = last_n cap ((view q @ [trunc e]) @ map trunc es)"
    using Cons.prems by (simp add: view_push last_n_last_n_append del: append_assoc)
  finally show ?case by simp
qed

lemma drain_all:
  assumes "inv q" "length (view q) \<le> n"
  shows "fst (drain pop n q) = view q \<and> view (snd (drain pop n q)) = [] \<and> inv (snd (drain pop n q))"
  using assms
proof (induction n arbitrary: q)
  case 0
  then show ?case by simp
next
  case (Suc n)
  show ?case
  proof (cases "pop q")
    case None
    then have "view q = []" using pop_None [OF Suc.prems(1)] by simp
    with None Suc.prems(1) show ?thesis by simp
  next
    case (Some a)
    then obtain e q' where a: "pop q = Some (e, q')" by (cases a) auto
    then have "inv q'" "view q = e # view q'" using pop_Some Suc.prems(1) by blast+
    with Suc.IH [of q'] Suc.prems(2) a show ?thesis by simp
  qed
qed

end

section \<open>The ring buffer meets the contract\<close>

lemma length_lq_view [simp]: "length (lq_view q) = lq_count q"
  by (simp add: lq_view_def)

lemma lq_inv_init: "lq_inv (log_queue_init global_log_queue)"
  by (simp add: lq_inv_def log_queue_init_def global_log_queue_def log_consts)

lemma lq_view_init: "lq_view (log_queue_init q) = []"
  by (simp add: lq_view_def log_queue_init_def)

lemma log_queue_take_view:
  assumes "lq_inv q" "log_queue_take q = Some (e, q')"
  shows "lq_inv q' \<and> lq_view q = e # lq_view q'"
proof -
  from assms(2) have c: "0 < lq_count q" and e: "e = lq_entries q ! lq_head q"
    and q': "q' = q\<lparr>lq_head := (lq_head q + 1) mod LOG_QUEUE_SIZE, lq_count := lq_count q - 1\<rparr>"
    by (auto simp: log_queue_take_def split: if_splits)
  from c obtain m where m: "lq_count q = Suc m" by (cases "lq_count q") auto
  have "lq_inv q'"
    using assms(1) m q' by (auto simp: lq_inv_def log_consts mod_simps)
  moreover have "lq_view q = e # lq_view q'"
  proof -
    have "[0..<lq_count q] = 0 # map Suc [0..<m]"
      by (simp add: m map_Suc_upt upt_conv_Cons del: upt_Suc)
    moreover have "((lq_head q + 1) mod LOG_QUEUE_SIZE + i) mod LOG_QUEUE_SIZE
        = (lq_head q + Suc i) mod LOG_QUEUE_SIZE" for i
      by (simp add: mod_add_left_eq)
    moreover have "lq_head q mod LOG_QUEUE_SIZE = lq_head q"
      using assms(1) by (simp add: lq_inv_def)
    ultimately show ?thesis by (simp add: lq_view_def e q' m)
  qed
  ultimately show ?thesis by simp
qed

lemma log_queue_take_None: "log_queue_take q = None \<longleftrightarrow> lq_view q = []"
  by (simp add: log_queue_take_def lq_view_def)

lemma drop_oldest_if_full_view:
  assumes "lq_inv q"
  shows "lq_inv (drop_oldest_if_full q) \<and> lq_count (drop_oldest_if_full q) < LOG_QUEUE_SIZE \<and>
    lq_view (drop_oldest_if_full q) = last_n (LOG_QUEUE_SIZE - 1) (lq_view q)"
proof (cases "lq_count q = LOG_QUEUE_SIZE")
  case True
  then obtain e where t: "log_queue_take q = Some (e, drop_oldest_if_full q)"
    by (simp add: log_queue_take_def drop_oldest_if_full_def log_consts)
  with assms have i: "lq_inv (drop_oldest_if_full q)" "lq_view q = e # lq_view (drop_oldest_if_full q)"
    using log_queue_take_view by blast+
  moreover have "lq_count (drop_oldest_if_full q) = LOG_QUEUE_SIZE - 1"
    using True by (simp add: drop_oldest_if_full_def)
  ultimately show ?thesis by (simp add: last_n_def log_consts)
next
  case False
  with assms show ?thesis by (auto simp: drop_oldest_if_full_def lq_inv_def)
qed

lemma strncpy_entry:
  "length (strncpy_term LOG_ENTRY_MAX e) < LOG_ENTRY_MAX"
  using length_strncpy_term [of LOG_ENTRY_MAX e] by (simp add: log_consts)

lemma log_queue_store_view:
  assumes "lq_inv q" "lq_count q < LOG_QUEUE_SIZE" "length e < LOG_ENTRY_MAX" "NUL \<notin> set e"
  defines "q' \<equiv> q\<lparr>lq_entries := (lq_entries q)[lq_tail q := e],
      lq_tail := (lq_tail q + 1) mod LOG_QUEUE_SIZE, lq_count := lq_count q + 1\<rparr>"
  shows "lq_inv q' \<and> lq_view q' = lq_view q @ [e]"
proof
  show "lq_inv q'"
    using assms set_update_subset_insert [of "lq_entries q" "lq_tail q" e]
    by (auto simp: lq_inv_def log_consts mod_simps)
  have tl: "lq_tail q = (lq_head q + lq_count q) mod LOG_QUEUE_SIZE"
    and len: "lq_tail q < length (lq_entries q)"
    using assms(1) by (auto simp: lq_inv_def log_consts)
  have ne: "lq_tail q \<noteq> (lq_head q + i) mod LOG_QUEUE_SIZE" if "i < lq_count q" for i
  proof
    assume "lq_tail q = (lq_head q + i) mod LOG_QUEUE_SIZE"
    then have "LOG_QUEUE_SIZE dvd (lq_head q + lq_count q) - (lq_head q + i)"
      using tl that by (metis add_le_cancel_left less_imp_le_nat mod_eq_dvd_iff_nat)
    then show False
      using that assms(2) by (auto simp: log_consts dest: dvd_imp_le)
  qed
  have "map (\<lambda>i. (lq_entries q)[lq_tail q := e] ! ((lq_head q + i) mod LOG_QUEUE_SIZE))
      [0..<lq_count q] = lq_view q"
    using ne by (auto simp: lq_view_def)
  then show "lq_view q' = lq_view q @ [e]"
    using len by (simp add: q'_def lq_view_def tl [symmetric])
qed

lemma log_queue_push_view:
  assumes "lq_inv q"
  shows "lq_inv (log_queue_push q e) \<and>
    lq_view (log_queue_push q e) = last_n LOG_QUEUE_SIZE (lq_view q @ [strncpy_term LOG_ENTRY_MAX e])"
proof -
  let ?q1 = "drop_oldest_if_full q"
  have d: "lq_inv ?q1" "lq_count ?q1 < LOG_QUEUE_SIZE"
    "lq_view ?q1 = last_n (LOG_QUEUE_SIZE - 1) (lq_view q)"
    using drop_oldest_if_full_view [OF assms] by blast+
  have "lq_inv (log_queue_push q e) \<and>
      lq_view (log_queue_push q e) = lq_view ?q1 @ [strncpy_term LOG_ENTRY_MAX e]"
    using log_queue_store_view [OF d(1,2) strncpy_entry NUL_notin_strncpy_term]
    by (simp add: log_queue_push_def Let_def)
  with d(3) show ?thesis
    by (simp add: last_n_def log_consts)
qed

interpretation ring: bounded_log LOG_QUEUE_SIZE log_queue_push log_queue_take lq_view lq_inv
  "strncpy_term LOG_ENTRY_MAX"
proof
  fix q e q'
  assume i: "lq_inv q"
  show "lq_inv (log_queue_push q e)" using log_queue_push_view [OF i] by blast
  show "lq_view (log_queue_push q e) = last_n LOG_QUEUE_SIZE (lq_view q @ [strncpy_term LOG_ENTRY_MAX e])"
    using log_queue_push_view [OF i] by blast
  show "log_queue_take q = None \<longleftrightarrow> lq_view q = []" by (rule log_queue_take_None)
  show "length (lq_view q) \<le> LOG_QUEUE_SIZE" using i by (simp add: lq_inv_def)
  assume "log_queue_take q = Some (e, q')"
  with i show "lq_inv q' \<and> lq_view q = e # lq_view q'" by (rule log_queue_take_view)
qed

subsection \<open>Waiting\<close>

lemma pop_timed_ready:
  "log_queue_take q = Some (e, q') \<Longrightarrow>
   log_queue_pop_timed t waits q = Some (Pop_Entry e, q')"
  by (simp add: log_queue_pop_timed.simps)

lemma pop_timed_inv:
  assumes "log_queue_pop_timed t waits q = Some (r, q')" "lq_inv q"
    and "\<forall>(ret, q1) \<in> set waits. lq_inv q1"
  shows "lq_inv q'"
  using assms
proof (induction t waits q rule: log_queue_pop_timed.induct)
  case (1 t waits q)
  from "1.prems" show ?case
    by (subst (asm) log_queue_pop_timed.simps)
      (auto split: option.splits list.splits if_splits dest: log_queue_take_view "1.IH")
qed

lemma pop_timed_no_deadline:
  "log_queue_pop_timed t waits q = Some (r, q') \<Longrightarrow> t < 0 \<Longrightarrow> r \<noteq> Pop_Timeout"
proof (induction t waits q rule: log_queue_pop_timed.induct)
  case (1 t waits q)
  from "1.prems" show ?case
    by (subst (asm) log_queue_pop_timed.simps)
      (auto split: option.splits list.splits if_splits dest: "1.IH")
qed

lemma log_append_ok:
  "length category + length time_str \<le> 510 \<Longrightarrow>
   log_append category time_str msg q =
     Inr (log_queue_push q (snprintf LOG_ENTRY_MAX (category @ '' '' @ time_str @ '' '' @ msg)))"
  by (simp add: log_append_def log_line_def log_consts)

lemma log_append_inv: "log_append c t m q = Inr q' \<Longrightarrow> lq_inv q \<Longrightarrow> lq_inv q'"
  by (auto simp: log_append_def rbind_eq_Inr intro: ring.inv_push)

section \<open>Properties\<close>

text \<open>
  C12: The ring buffer is the list of the newest 100 lines: after any sequence of pushes from the
  initial state its invariant holds, and popping until it is empty returns exactly the last 100
  lines, oldest first, each cut to 511 characters.
\<close>

theorem log_keeps_newest_lines:
  "let q = foldl log_queue_push (log_queue_init global_log_queue) entries
   in lq_inv q \<and> fst (drain log_queue_take LOG_QUEUE_SIZE q) =
        last_n LOG_QUEUE_SIZE (map (strncpy_term LOG_ENTRY_MAX) entries) \<and>
      lq_view (snd (drain log_queue_take LOG_QUEUE_SIZE q)) = []"
proof -
  let ?q = "foldl log_queue_push (log_queue_init global_log_queue) entries"
  have i: "lq_inv ?q" by (rule ring.inv_pushes [OF lq_inv_init])
  have v: "lq_view ?q = last_n LOG_QUEUE_SIZE (map (strncpy_term LOG_ENTRY_MAX) entries)"
    using ring.view_pushes [OF lq_inv_init] by (simp add: lq_view_init)
  show ?thesis
    using ring.drain_all [OF i ring.view_bound [OF i]] i v by (simp add: Let_def)
qed

text \<open>
  C38: What \<open>log_queue_pop_timed\<close> returns, whichever way the waits end: it keeps the invariant, an
  entry that is there is returned at once and is the oldest, a queue that stays empty under a
  deadline times out with 0, and a wait without a deadline never does.
\<close>

theorem pop_timed_outcome:
  assumes "lq_inv q" "\<forall>w \<in> set waits. lq_inv (snd w)"
  shows "(\<forall>r q'. log_queue_pop_timed t waits q = Some (r, q') \<longrightarrow> lq_inv q' \<and>
       (t < 0 \<longrightarrow> r \<noteq> Pop_Timeout)) \<and>
    (lq_view q \<noteq> [] \<longrightarrow> (\<exists>q'. log_queue_pop_timed t waits q = Some (Pop_Entry (hd (lq_view q)), q') \<and>
       lq_view q' = tl (lq_view q))) \<and>
    (lq_view q = [] \<longrightarrow> 0 \<le> t \<longrightarrow>
       log_queue_pop_timed t ((ETIMEDOUT, q1) # waits) q = Some (Pop_Timeout, q1))"
proof (intro conjI allI impI)
  fix r q'
  assume p: "log_queue_pop_timed t waits q = Some (r, q')"
  show "lq_inv q'" by (rule pop_timed_inv [OF p assms(1)]) (use assms(2) in auto)
  show "r \<noteq> Pop_Timeout" if "t < 0" using p that by (rule pop_timed_no_deadline)
next
  assume "lq_view q \<noteq> []"
  then obtain e q' where "log_queue_take q = Some (e, q')"
    using log_queue_take_None [of q] by fastforce
  with log_queue_take_view [OF assms(1) this] pop_timed_ready [OF this]
  show "\<exists>q'. log_queue_pop_timed t waits q = Some (Pop_Entry (hd (lq_view q)), q') \<and> lq_view q' = tl (lq_view q)"
    by simp
next
  assume "lq_view q = []" "0 \<le> t"
  with log_queue_take_None [of q]
  show "log_queue_pop_timed t ((ETIMEDOUT, q1) # waits) q = Some (Pop_Timeout, q1)"
    by (subst log_queue_pop_timed.simps) simp
qed

theorem pop_timed_outcome_witness:
  "let q = log_queue_push (log_queue_init global_log_queue) ''a'' in
   \<exists>q'. log_queue_pop_timed 5 [] q = Some (Pop_Entry ''a'', q') \<and> lq_view q' = []"
proof -
  let ?q = "log_queue_push (log_queue_init global_log_queue) ''a''"
  have "lq_inv ?q" by (rule ring.inv_push [OF lq_inv_init])
  moreover have "lq_view ?q = [''a'']"
    using ring.view_push [OF lq_inv_init] by (simp add: lq_view_init log_consts strncpy_term_def cstr_def)
  ultimately show ?thesis using pop_timed_outcome [of ?q "[]" 5] by (simp add: Let_def)
qed

text \<open>
  C39: The deadline of a timed wait is normalised and is exactly the timeout after the current
  time.
\<close>

theorem wait_deadline_exact:
  assumes "0 \<le> nsec" "nsec < 1000000000" "0 \<le> timeout_ms"
  shows "case wait_deadline (sec, nsec) timeout_ms of (s, n) \<Rightarrow> 0 \<le> n \<and> n < 1000000000 \<and>
    s * 1000000000 + n = sec * 1000000000 + nsec + timeout_ms * 1000000"
proof -
  define a b where "a = timeout_ms div 1000" and "b = timeout_ms mod 1000"
  then have ab: "timeout_ms = a * 1000 + b" "0 \<le> b" "b < 1000" by simp_all
  have "wait_deadline (sec, nsec) timeout_ms =
      (if nsec + b * 1000000 \<ge> 1000000000 then (sec + a + 1, nsec + b * 1000000 - 1000000000)
       else (sec + a, nsec + b * 1000000))"
    by (simp add: a_def b_def Let_def)
  with assms ab show ?thesis by (simp add: algebra_simps)
qed

theorem wait_deadline_exact_witness:
  "case wait_deadline (5, 900000000) 1250 of (s, n) \<Rightarrow> 0 \<le> n \<and> n < 1000000000 \<and>
     s * 1000000000 + n = 5 * 1000000000 + 900000000 + 1250 * 1000000"
  by (rule wait_deadline_exact) simp_all

end
