(* ===== verification/System.thy ===== *)
theory System
  imports Protocol LogQueue
begin

section \<open>The operating system as a parameter, addresses and paths\<close>

text \<open>
  The server is a loop of system calls around its tables. The kernel, the file system and the
  network peers are not part of the repository: they are the record \<open>os\<close>, one function per call
  the code makes, over an unspecified type \<open>'w\<close> of worlds. A call returns what the code looks
  at and the next world. Nothing is assumed about these functions except where a theorem names
  the assumption. The paths the server builds from a client identifier, a job number and a file
  name, which several files of the server repeat, are defined here once per format string.
\<close>

record sockaddr_in =
  sin_addr :: "32 word"
  sin_port :: "16 word"

record stat_info =
  st_is_dir :: bool
  st_size :: "64 word"

record 'w os =
  sys_stat :: "string \<Rightarrow> 'w \<Rightarrow> stat_info option"
  sys_mkdir :: "string \<Rightarrow> 'w \<Rightarrow> bool \<times> 'w"
  sys_chmod :: "string \<Rightarrow> 'w \<Rightarrow> 'w"
  sys_getcwd :: "'w \<Rightarrow> string option"
  sys_chdir :: "string \<Rightarrow> 'w \<Rightarrow> bool \<times> 'w"
  sys_system :: "string \<Rightarrow> 'w \<Rightarrow> int \<times> 'w"
  sys_open_read :: "string \<Rightarrow> 'w \<Rightarrow> nat option \<times> 'w"
  sys_open_write :: "string \<Rightarrow> 'w \<Rightarrow> nat option \<times> 'w"
  sys_read :: "nat \<Rightarrow> nat \<Rightarrow> 'w \<Rightarrow> byte list option \<times> 'w"
  sys_write :: "nat \<Rightarrow> byte list \<Rightarrow> 'w \<Rightarrow> int \<times> 'w"
  sys_accept :: "'w \<Rightarrow> (nat \<times> sockaddr_in) option \<times> 'w"
  sys_recv :: "nat \<Rightarrow> nat \<Rightarrow> 'w \<Rightarrow> byte list option \<times> 'w"
  sys_send :: "nat \<Rightarrow> byte list \<Rightarrow> 'w \<Rightarrow> int \<times> 'w"
  sys_close :: "nat \<Rightarrow> 'w \<Rightarrow> 'w"

text \<open>
  What a handler reads besides its arguments: the clock, its formatted local time, whether
  \<open>malloc\<close> and \<open>realloc\<close> succeed, the next values of \<open>rand\<close>, and the bytes its uninitialised
  stack variables happen to hold.
\<close>

record env =
  e_now :: int
  e_time_str :: string
  e_alloc :: bool
  e_rand :: "int list"
  e_mem :: "byte list"

text \<open>
  \<open>strftime\<close> into 32 bytes leaves at most 31 characters; the largest struct on a stack here has
  48 bytes; \<open>generate_client_id\<close> draws 16 numbers.
\<close>

definition env_ok :: "env \<Rightarrow> bool" where
  "env_ok e \<longleftrightarrow> length (e_time_str e) \<le> 31 \<and> e_alloc e \<and> length (e_rand e) = 16 \<and>
     length (e_mem e) = 48"

text \<open>\<open>inet_ntoa\<close>: the address is in network order, so its first byte is the lowest one.\<close>

definition inet_ntoa :: "32 word \<Rightarrow> string" where
  "inet_ntoa a = (let b = put32 a in
     dec_nat (unat (b ! 0)) @ ''.'' @ dec_nat (unat (b ! 1)) @ ''.'' @
     dec_nat (unat (b ! 2)) @ ''.'' @ dec_nat (unat (b ! 3)))"

definition show_addr :: "sockaddr_in \<Rightarrow> string" where
  "show_addr a = inet_ntoa (sin_addr a) @ '':'' @ dec_nat (unat (htons (sin_port a)))"

text \<open>\<open>%02x%02x\<close> of the first two bytes of a client identifier.\<close>

definition short_id :: "byte list \<Rightarrow> string" where
  "short_id cid = hex2 (cid ! 0) @ hex2 (cid ! 1)"

text \<open>\<open>snprintf (dir_path, 256, "processing/%02x%02x_%08x", \<dots>)\<close>.\<close>

definition dir_path :: "byte list \<Rightarrow> 32 word \<Rightarrow> string" where
  "dir_path cid job_id = snprintf 256 (''processing/'' @ short_id cid @ ''_'' @ hex8 job_id)"

text \<open>\<open>snprintf (file_path, 512, "%s/%s", dir_path, filename)\<close> and its one-step variant.\<close>

definition file_path :: "byte list \<Rightarrow> 32 word \<Rightarrow> string \<Rightarrow> string" where
  "file_path cid job_id filename = snprintf 512 (dir_path cid job_id @ ''/'' @ filename)"

subsection \<open>Searching and updating the tables\<close>

definition update_first :: "('a \<Rightarrow> bool) \<Rightarrow> ('a \<Rightarrow> 'a) \<Rightarrow> 'a list \<Rightarrow> 'a list" where
  "update_first P f xs =
     (case first_idx P xs of None \<Rightarrow> xs | Some i \<Rightarrow> xs[i := f (xs ! i)])"

section \<open>Lemmas\<close>

lemma length_short_id [simp]: "length (short_id cid) = 4"
  by (simp add: short_id_def)

lemma dir_path_eq: "dir_path cid job_id = ''processing/'' @ short_id cid @ ''_'' @ hex8 job_id"
  by (simp add: dir_path_def snprintf_def)

lemma length_dir_path [simp]: "length (dir_path cid job_id) = 24"
  by (simp add: dir_path_eq)

lemma short_id_eq: "short_id c = short_id d \<longleftrightarrow> c ! 0 = d ! 0 \<and> c ! 1 = d ! 1"
  by (simp add: short_id_def)

lemma dir_path_eq_iff:
  "dir_path c j = dir_path d k \<longleftrightarrow> c ! 0 = d ! 0 \<and> c ! 1 = d ! 1 \<and> j = k"
  by (auto simp: dir_path_eq short_id_eq)

lemma file_path_fits:
  "length filename \<le> 486 \<Longrightarrow>
   file_path cid job_id filename = dir_path cid job_id @ ''/'' @ filename"
  by (simp add: file_path_def str_simps)

lemma length_update_first [simp]: "length (update_first P f xs) = length xs"
  by (simp add: update_first_def split: option.splits)

lemma update_first_none [idx_simps]: "\<forall>x \<in> set xs. \<not> P x \<Longrightarrow> update_first P f xs = xs"
  by (simp add: update_first_def first_idx_None [THEN iffD2])

lemma update_first_Cons [idx_simps]:
  "update_first P f (x # xs) = (if P x then f x # xs else x # update_first P f xs)"
  by (simp add: update_first_def split: option.splits)

lemma update_first_set:
  "y \<in> set (update_first P f xs) \<Longrightarrow> y \<in> set xs \<or> (\<exists>x \<in> set xs. P x \<and> y = f x)"
  by (induction xs) (auto simp: idx_simps update_first_none split: if_splits)

lemma map_update_first:
  "(\<And>x. P x \<Longrightarrow> g (f x) = g x) \<Longrightarrow> map g (update_first P f xs) = map g xs"
  by (induction xs) (auto simp: idx_simps)

section \<open>A concrete system\<close>

text \<open>
  A system in which every call succeeds, to show that the assumptions theorems make about \<open>os\<close>
  can hold. Its world is what a peer or a file still has to deliver and what has been stored.
\<close>

definition pipe_os :: "(byte list \<times> byte list) os" where
  "pipe_os =
     \<lparr>sys_stat = (\<lambda>path w. Some \<lparr>st_is_dir = True, st_size = 0\<rparr>),
      sys_mkdir = (\<lambda>path w. (True, w)), sys_chmod = (\<lambda>path w. w),
      sys_getcwd = (\<lambda>w. Some ''/''), sys_chdir = (\<lambda>path w. (True, w)),
      sys_system = (\<lambda>cmd w. (0, w)),
      sys_open_read = (\<lambda>path w. (Some 3, w)), sys_open_write = (\<lambda>path w. (Some 4, w)),
      sys_read = (\<lambda>fd n w. (Some (take n (fst w)), (drop n (fst w), snd w))),
      sys_write = (\<lambda>fd data w. (int (length data), (fst w, snd w @ data))),
      sys_accept = (\<lambda>w. (Some (5, \<lparr>sin_addr = 0, sin_port = 0\<rparr>), w)),
      sys_recv = (\<lambda>fd n w. (Some (take n (fst w)), (drop n (fst w), snd w))),
      sys_send = (\<lambda>fd data w. (int (length data), (fst w, snd w @ data))), sys_close = (\<lambda>fd w. w)\<rparr>"

lemma pipe_os_stat [simp]: "sys_stat pipe_os path w = Some \<lparr>st_is_dir = True, st_size = 0\<rparr>"
  by (simp add: pipe_os_def)

definition plain_env :: env where
  "plain_env = \<lparr>e_now = 1000, e_time_str = [], e_alloc = True, e_rand = replicate 16 7,
     e_mem = replicate 48 0\<rparr>"

lemma plain_env_ok: "env_ok plain_env"
  by (simp add: env_ok_def plain_env_def)

end
