(* ===== verification/Jobs.thy ===== *)
theory Jobs
  imports System
begin

section \<open>Pending jobs and their processing (job\_handler.c, processing.c)\<close>

text \<open>
  The array \<open>pending_jobs\<close> with its count: \<open>create_job\<close> makes the job's directory and appends
  the job, the upload threads count received files, and \<open>process_pending_jobs\<close> runs the command
  of every job whose files have arrived, sends \<open>JOB_RESULT\<close> and removes the job. The table is
  only accessed with \<open>jobs_mutex\<close> held.
\<close>

record pending_job =
  pj_client_id :: "byte list"
  pj_addr :: sockaddr_in
  pj_job_id :: "32 word"
  pj_command :: string
  pj_file_count :: int
  pj_files_received :: int
  pj_last_update :: int

text \<open>The job an upload or a result belongs to: \<open>memcmp\<close> of the identifier and the job number.\<close>

definition same_job :: "byte list \<Rightarrow> 32 word \<Rightarrow> pending_job \<Rightarrow> bool" where
  "same_job cid job_id j \<longleftrightarrow> pj_client_id j = cid \<and> pj_job_id j = job_id"

definition new_pending_job ::
  "byte list \<Rightarrow> sockaddr_in \<Rightarrow> 32 word \<Rightarrow> string \<Rightarrow> int \<Rightarrow> int \<Rightarrow> pending_job" where
  "new_pending_job cid addr job_id command file_count now =
     \<lparr>pj_client_id = cid, pj_addr = addr, pj_job_id = job_id,
      pj_command = strncpy_term MAX_CMD_LEN command, pj_file_count = file_count,
      pj_files_received = 0, pj_last_update = now\<rparr>"

text \<open>The directory part of \<open>create_job\<close>: reuse a directory, refuse a file, else create it.\<close>

definition ensure_job_dir :: "'w os \<Rightarrow> string \<Rightarrow> 'w \<Rightarrow> bool \<times> 'w" where
  "ensure_job_dir os dir w =
     (case sys_stat os dir w of
        Some st \<Rightarrow> (st_is_dir st, w)
      | None \<Rightarrow> sys_mkdir os dir w)"

definition create_job ::
  "'w os \<Rightarrow> env \<Rightarrow> byte list \<Rightarrow> sockaddr_in \<Rightarrow> 32 word \<Rightarrow> string \<Rightarrow> int \<Rightarrow>
   pending_job list \<Rightarrow> 'w \<Rightarrow> bool \<times> pending_job list \<times> 'w" where
  "create_job os e cid addr job_id command file_count jobs w =
     (let (ok, w1) = ensure_job_dir os (dir_path cid job_id) w
      in if \<not> ok then (False, jobs, w1)
         else if \<not> e_alloc e then (False, jobs, w1)
         else (True, jobs @ [new_pending_job cid addr job_id command file_count (e_now e)], w1))"

text \<open>The end of \<open>process_upload\<close>: one more file of the job, whatever was received.\<close>

definition count_file :: "byte list \<Rightarrow> 32 word \<Rightarrow> int \<Rightarrow> pending_job list \<Rightarrow> pending_job list" where
  "count_file cid job_id now jobs = update_first (same_job cid job_id)
     (\<lambda>j. j\<lparr>pj_files_received := pj_files_received j + 1, pj_last_update := now\<rparr>) jobs"

subsection \<open>Processing\<close>

definition job_ready :: "pending_job \<Rightarrow> bool" where
  "job_ready j \<longleftrightarrow> pj_files_received j \<ge> pj_file_count j"

definition result_msg :: "status_code \<Rightarrow> string" where
  "result_msg st = (if st = STATUS_OK then ''Job completed successfully'' else ''Job execution failed'')"

text \<open>
  The \<open>JOB_RESULT\<close> datagram: only \<open>type\<close>, \<open>job_id\<close>, \<open>status\<close> and \<open>msg_len\<close> of the stack
  variable are assigned, the other fields keep what the stack held.
\<close>

definition job_result_bytes :: "byte list \<Rightarrow> 32 word \<Rightarrow> status_code \<Rightarrow> byte list" where
  "job_result_bytes mem job_id st =
     (let msg = result_msg st;
          r = (load_job_result mem)
                \<lparr>jt_type := message_code JOB_RESULT, jt_job_id := job_id,
                 jt_status := status_byte st, jt_msg_len := of_nat (length msg)\<rparr>
      in store_job_result mem r @ bytes_of msg)"

definition start_message :: "pending_job \<Rightarrow> string" where
  "start_message j =
     ''Starting job_id='' @ dec_nat (unat (pj_job_id j)) @ '' for client_id=0x'' @
     hex2 (pj_client_id j ! 0) @ ''0x'' @ hex2 (pj_client_id j ! 1) @
     '' (command='' @ [CHR 0x27] @ pj_command j @ [CHR 0x27] @ '')''"

definition done_message :: "pending_job \<Rightarrow> status_code \<Rightarrow> string" where
  "done_message j st =
     ''Job_id='' @ dec_nat (unat (pj_job_id j)) @ '' for client_id=0x'' @
     hex2 (pj_client_id j ! 0) @ ''0x'' @ hex2 (pj_client_id j ! 1) @
     '' completed with status='' @ (if st = STATUS_OK then ''OK'' else ''ERROR'')"

text \<open>What the loop of \<open>process_pending_jobs\<close> changes.\<close>

record 'w processing =
  pr_jobs :: "pending_job list"
  pr_log :: log_queue
  pr_sent :: "(sockaddr_in \<times> byte list) list"
  pr_world :: 'w

text \<open>
  The body of the loop for a job that is ready; the flag says whether the job was removed. A
  failed \<open>chdir\<close> or \<open>malloc\<close> skips the rest (\<open>continue\<close>). The commands run while the whole
  process is in the job's directory.
\<close>

definition process_job ::
  "'w os \<Rightarrow> env \<Rightarrow> string \<Rightarrow> nat \<Rightarrow> 'w processing \<Rightarrow> 'w processing result" where
  "process_job os e original_dir i p =
     (let j = pr_jobs p ! i in
      rbind (log_append ''[PROCESSING]'' (e_time_str e) (start_message j) (pr_log p)) (\<lambda>log1.
      let entered = sys_chdir os (dir_path (pj_client_id j) (pj_job_id j)) (pr_world p) in
      if \<not> fst entered then Inr (p\<lparr>pr_log := log1, pr_world := snd entered\<rparr>)
      else
        let ret = sys_system os (pj_command j) (snd entered);
            st = (if fst ret = 0 then STATUS_OK else STATUS_ERROR) in
        rbind (log_append ''[PROCESSING]'' (e_time_str e) (done_message j st) log1) (\<lambda>log2.
        let w3 = snd (sys_chdir os original_dir (snd ret)) in
        if \<not> e_alloc e then Inr (p\<lparr>pr_log := log2, pr_world := w3\<rparr>)
        else Inr (p\<lparr>pr_log := log2, pr_world := w3,
                    pr_jobs := remove_nth i (pr_jobs p),
                    pr_sent := pr_sent p @ [(pj_addr j, job_result_bytes (take 32 (e_mem e)) (pj_job_id j) st)]\<rparr>))))"

text \<open>
  \<^verbatim>\<open>for (i = 0; i < job_count; i++)\<close>: the index advances after a removal as well. The fuel is the
  number of jobs at the start, which is enough because every turn of the loop brings \<open>i\<close> one
  closer to a count that never grows.
\<close>

fun process_loop ::
  "nat \<Rightarrow> 'w os \<Rightarrow> env \<Rightarrow> string \<Rightarrow> nat \<Rightarrow> 'w processing \<Rightarrow> 'w processing result" where
  "process_loop 0 os e original_dir i p = Inr p"
| "process_loop (Suc fuel) os e original_dir i p =
     (if i < length (pr_jobs p)
      then if job_ready (pr_jobs p ! i)
           then rbind (process_job os e original_dir i p) (process_loop fuel os e original_dir (i + 1))
           else process_loop fuel os e original_dir (i + 1) p
      else Inr p)"

definition process_pending_jobs :: "'w os \<Rightarrow> env \<Rightarrow> 'w processing \<Rightarrow> 'w processing result" where
  "process_pending_jobs os e p =
     (case sys_getcwd os (pr_world p) of
        None \<Rightarrow> Inr p
      | Some original_dir \<Rightarrow> process_loop (length (pr_jobs p)) os e original_dir 0 p)"

definition job_inv :: "pending_job \<Rightarrow> bool" where
  "job_inv j \<longleftrightarrow> id16 (pj_client_id j) \<and> length (pj_command j) < MAX_CMD_LEN \<and>
     NUL \<notin> set (pj_command j) \<and> 0 \<le> pj_file_count j \<and> pj_file_count j < 256 \<and>
     0 \<le> pj_files_received j"

definition jobs_inv :: "pending_job list \<Rightarrow> bool" where
  "jobs_inv js \<longleftrightarrow> (\<forall>j \<in> set js. job_inv j)"

text \<open>The jobs a pass leaves behind when all are ready: every second one.\<close>

fun every_second :: "'a list \<Rightarrow> 'a list" where
  "every_second [] = []"
| "every_second [x] = []"
| "every_second (x # y # xs) = y # every_second xs"

text \<open>The datagram a removed job's owner gets.\<close>

definition result_sent :: "env \<Rightarrow> pending_job \<times> status_code \<Rightarrow> sockaddr_in \<times> byte list" where
  "result_sent e r =
     (pj_addr (fst r), job_result_bytes (take 32 (e_mem e)) (pj_job_id (fst r)) (snd r))"

section \<open>Lemmas\<close>

lemma create_job_cases:
  "create_job os e cid addr job_id command fc jobs w = (ok, jobs', w') \<Longrightarrow>
   (ok \<and> jobs' = jobs @ [new_pending_job cid addr job_id command fc (e_now e)]) \<or>
   (\<not> ok \<and> jobs' = jobs)"
  by (auto simp: create_job_def split: prod.splits if_splits)

lemma job_inv_new:
  "id16 cid \<Longrightarrow> 0 \<le> fc \<Longrightarrow> fc < 256 \<Longrightarrow> job_inv (new_pending_job cid addr job_id command fc now)"
  using length_strncpy_term [of MAX_CMD_LEN command]
  by (simp add: job_inv_def new_pending_job_def protocol_consts)

lemma jobs_inv_create:
  "jobs_inv jobs \<Longrightarrow> id16 cid \<Longrightarrow> 0 \<le> fc \<Longrightarrow> fc < 256 \<Longrightarrow>
   create_job os e cid addr job_id command fc jobs w = (ok, jobs', w') \<Longrightarrow> jobs_inv jobs'"
  by (auto simp: jobs_inv_def dest!: create_job_cases intro: job_inv_new)

lemma jobs_inv_count_file: "jobs_inv jobs \<Longrightarrow> jobs_inv (count_file cid job_id now jobs)"
  by (auto simp: jobs_inv_def count_file_def job_inv_def dest!: update_first_set)

lemma jobs_inv_subseq: "subseq js' js \<Longrightarrow> jobs_inv js \<Longrightarrow> jobs_inv js'"
  using set_subseq_subset [of js' js] by (auto simp: jobs_inv_def)

lemma job_result_bytes_load:
  assumes "length mem = 32"
  shows "load_job_result (job_result_bytes mem job_id st) =
    \<lparr>jt_type = message_code JOB_RESULT, jt_message_id = get32 4 mem,
     jt_client_id = slice_at 8 16 mem, jt_job_id = job_id, jt_status = status_byte st,
     jt_msg_len = of_nat (length (result_msg st))\<rparr>"
    and "drop sizeof_JobResult (job_result_bytes mem job_id st) = bytes_of (result_msg st)"
proof -
  let ?r = "(load_job_result mem)
    \<lparr>jt_type := message_code JOB_RESULT, jt_job_id := job_id, jt_status := status_byte st,
     jt_msg_len := of_nat (length (result_msg st))\<rparr>"
  have ok: "id16 (jt_client_id ?r)" "length mem = sizeof_JobResult"
    using assms by (simp_all add: load_job_result_def id16_def mem_simps sizeof_defs)
  show "drop sizeof_JobResult (job_result_bytes mem job_id st) = bytes_of (result_msg st)"
    using job_result.length_store [OF ok] by (simp add: job_result_bytes_def Let_def)
  have "load_job_result (job_result_bytes mem job_id st) = ?r"
    unfolding job_result_bytes_def Let_def by (rule job_result.load_store [OF ok])
  then show "load_job_result (job_result_bytes mem job_id st) =
    \<lparr>jt_type = message_code JOB_RESULT, jt_message_id = get32 4 mem,
     jt_client_id = slice_at 8 16 mem, jt_job_id = job_id, jt_status = status_byte st,
     jt_msg_len = of_nat (length (result_msg st))\<rparr>"
    by (simp add: load_job_result_def)
qed

text \<open>What one turn of the loop may do to the jobs and to the datagrams sent.\<close>

lemma process_job_effect:
  assumes "process_job os e d i p = Inr p'"
  shows "(pr_jobs p' = pr_jobs p \<and> pr_sent p' = pr_sent p) \<or>
     (\<exists>st. pr_jobs p' = remove_nth i (pr_jobs p) \<and>
        pr_sent p' = pr_sent p @ [result_sent e (pr_jobs p ! i, st)])"
  using assms by (auto simp: process_job_def Let_def rbind_eq_Inr result_sent_def split: if_splits)

lemma process_job_log:
  "process_job os e d i p = Inr p' \<Longrightarrow> lq_inv (pr_log p) \<Longrightarrow> lq_inv (pr_log p')"
  by (auto simp: process_job_def Let_def rbind_eq_Inr split: if_splits dest!: log_append_inv)

lemma process_job_length:
  "process_job os e d i p = Inr p' \<Longrightarrow> length (pr_jobs p') \<le> length (pr_jobs p)"
  by (auto simp: remove_nth_def dest!: process_job_effect)

lemma process_job_total: "length (e_time_str e) \<le> 31 \<Longrightarrow> \<exists>p'. process_job os e d i p = Inr p'"
  by (simp add: process_job_def Let_def log_append_ok)

lemma process_loop_total: "length (e_time_str e) \<le> 31 \<Longrightarrow> \<exists>p'. process_loop n os e d i p = Inr p'"
proof (induction n arbitrary: i p)
  case 0
  then show ?case by simp
next
  case (Suc n)
  then show ?case using process_job_total [of e os d i p] by auto
qed

text \<open>The fuel never ends a loop early: more of it changes nothing.\<close>

lemma process_loop_fuel:
  "length (pr_jobs p) \<le> n + i \<Longrightarrow> process_loop (n + k) os e d i p = process_loop n os e d i p"
proof (induction n arbitrary: i p)
  case 0
  then show ?case by (cases k) simp_all
next
  case (Suc n)
  have "rbind (process_job os e d i p) (process_loop (n + k) os e d (i + 1)) =
        rbind (process_job os e d i p) (process_loop n os e d (i + 1))" if "i < length (pr_jobs p)"
  proof (cases "process_job os e d i p")
    case (Inr p')
    then have "length (pr_jobs p') \<le> length (pr_jobs p)" by (rule process_job_length)
    with Suc Inr show ?thesis by simp
  qed simp
  with Suc show ?case by simp
qed

lemma process_loop_effect:
  assumes "process_loop n os e d i p = Inr p'" "lq_inv (pr_log p)"
  shows "lq_inv (pr_log p') \<and> subseq (pr_jobs p') (pr_jobs p) \<and>
    (\<exists>rs. pr_sent p' = pr_sent p @ map (result_sent e) rs \<and>
       mset (pr_jobs p) = mset (map fst rs) + mset (pr_jobs p') \<and> (\<forall>r \<in> set rs. job_ready (fst r)))"
  using assms
proof (induction n arbitrary: i p)
  case 0
  then show ?case by simp
next
  case (Suc n)
  let ?js = "pr_jobs p"
  show ?case
  proof (cases "i < length ?js \<and> job_ready (?js ! i)")
    case False
    with Suc show ?thesis by (simp split: if_splits)
  next
    case True
    with Suc.prems obtain p1 where p1: "process_job os e d i p = Inr p1"
      "process_loop n os e d (i + 1) p1 = Inr p'" by (auto simp: rbind_eq_Inr)
    note ih = Suc.IH [OF p1(2) process_job_log [OF p1(1) Suc.prems(2)]]
    from process_job_effect [OF p1(1)] show ?thesis
    proof (elim conjE disjE exE)
      assume "pr_jobs p1 = ?js" "pr_sent p1 = pr_sent p"
      with ih show ?thesis by simp
    next
      fix st
      assume rm: "pr_jobs p1 = remove_nth i ?js"
        and snt: "pr_sent p1 = pr_sent p @ [result_sent e (?js ! i, st)]"
      obtain rs where rs: "pr_sent p' = pr_sent p1 @ map (result_sent e) rs"
        "mset (pr_jobs p1) = mset (map fst rs) + mset (pr_jobs p')" "\<forall>r \<in> set rs. job_ready (fst r)"
        using ih by blast
      have "mset ?js = add_mset (?js ! i) (mset (pr_jobs p1))"
        using mset_remove_nth True rm by auto
      then have "pr_sent p' = pr_sent p @ map (result_sent e) ((?js ! i, st) # rs) \<and>
          mset ?js = mset (map fst ((?js ! i, st) # rs)) + mset (pr_jobs p') \<and>
          (\<forall>r \<in> set ((?js ! i, st) # rs). job_ready (fst r))"
        using rs snt True by simp
      moreover have "subseq (pr_jobs p') ?js"
        using ih rm subseq_remove_nth subseq_order.order_trans by metis
      ultimately show ?thesis using ih by blast
    qed
  qed
qed

text \<open>
  A pass over jobs that are all ready, when nothing fails, runs every other one: the removal
  moves the next job to the index the loop has just left.
\<close>

lemma process_job_success:
  assumes "length (e_time_str e) \<le> 31" "e_alloc e" "\<And>dir w. fst (sys_chdir os dir w)"
    and "process_job os e d i p = Inr p'"
  shows "pr_jobs p' = remove_nth i (pr_jobs p)"
  using assms by (auto simp: process_job_def Let_def log_append_ok)

lemma process_loop_all_ready:
  assumes "length (e_time_str e) \<le> 31" "e_alloc e" "\<And>dir w. fst (sys_chdir os dir w)"
    and "process_loop n os e d i p = Inr p'" "\<forall>j \<in> set (drop i (pr_jobs p)). job_ready j"
    and "length (pr_jobs p) \<le> n + i"
  shows "pr_jobs p' = take i (pr_jobs p) @ every_second (drop i (pr_jobs p))"
  using assms(4-6)
proof (induction n arbitrary: i p)
  case 0
  then show ?case by simp
next
  case (Suc n)
  let ?js = "pr_jobs p"
  show ?case
  proof (cases "i < length ?js")
    case False
    with Suc.prems show ?thesis by simp
  next
    case True
    then have d: "drop i ?js = ?js ! i # drop (Suc i) ?js" by (simp add: Cons_nth_drop_Suc)
    with Suc.prems(2) have "job_ready (?js ! i)" by simp
    with True Suc.prems(1) obtain p1 where p1: "process_job os e d i p = Inr p1"
      "process_loop n os e d (i + 1) p1 = Inr p'" by (auto simp: rbind_eq_Inr)
    have rm: "pr_jobs p1 = take i ?js @ drop (Suc i) ?js"
      using process_job_success [OF assms(1-3) p1(1)] by (simp add: remove_nth_def)
    have "\<forall>j \<in> set (drop (i + 1) (pr_jobs p1)). job_ready j"
      using Suc.prems(2) True set_drop_subset_set_drop [of "Suc i" "Suc (Suc i)" ?js]
      by (auto simp: rm d)
    moreover have "length (pr_jobs p1) \<le> n + (i + 1)"
      using Suc.prems(3) True by (simp add: rm)
    ultimately have "pr_jobs p' = take (i + 1) (pr_jobs p1) @ every_second (drop (i + 1) (pr_jobs p1))"
      by (rule Suc.IH [OF p1(2)])
    with True show ?thesis
      by (cases "drop (Suc i) ?js") (simp_all add: rm d)
  qed
qed

lemma length_every_second: "length (every_second xs) = length xs div 2"
  by (induction xs rule: every_second.induct) auto

lemma first_idx_count:
  assumes "first_idx (same_job cid job_id) jobs = Some i"
    and "pj_client_id j = pj_client_id (jobs ! i)" "pj_job_id j = pj_job_id (jobs ! i)"
  shows "first_idx (same_job cid job_id) (jobs[i := j]) = Some i"
  using assms
proof (induction jobs arbitrary: i)
  case Nil
  then show ?case by simp
next
  case (Cons x xs)
  then show ?case by (cases i) (auto simp: same_job_def split: if_splits)
qed

text \<open>What counting files does to the only job of a table.\<close>

lemma count_files_single:
  assumes "same_job cid job_id j"
  shows "\<exists>j'. (count_file cid job_id t ^^ k) [j] = [j'] \<and> same_job cid job_id j' \<and>
    pj_files_received j' = pj_files_received j + int k \<and> pj_file_count j' = pj_file_count j \<and>
    pj_command j' = pj_command j \<and> pj_addr j' = pj_addr j"
proof (induction k)
  case 0
  with assms show ?case by simp
next
  case (Suc k)
  then obtain j' where "(count_file cid job_id t ^^ k) [j] = [j']" "same_job cid job_id j'"
    "pj_files_received j' = pj_files_received j + int k" "pj_file_count j' = pj_file_count j"
    "pj_command j' = pj_command j" "pj_addr j' = pj_addr j" by blast
  then show ?case
    by (simp add: count_file_def [of _ _ _ "[j']"] idx_simps update_first_none) (simp add: same_job_def)
qed

section \<open>Properties\<close>

text \<open>
  C35: Uploads are counted for the first job with the client's identifier and the job's number
  only: \<open>k\<close> files raise its counter by \<open>k\<close> and touch no other job, so a second job with the same
  number waits until the first is gone.
\<close>

theorem files_counted_for_first_job:
  assumes "first_idx (same_job cid job_id) jobs = Some i" "0 < k"
  shows "(count_file cid job_id now ^^ k) jobs =
    jobs[i := (jobs ! i)\<lparr>pj_files_received := pj_files_received (jobs ! i) + int k,
                        pj_last_update := now\<rparr>]"
  using assms(2)
proof (induction k rule: nat_induct_non_zero)
  case 1
  then show ?case using assms(1) by (simp add: count_file_def update_first_def)
next
  case (Suc n)
  then show ?case using first_idx_count [OF assms(1)] first_idx_less [OF assms(1)]
    by (simp add: count_file_def [of _ _ _ "jobs[i := _]"] update_first_def algebra_simps)
qed

theorem files_counted_for_first_job_witness:
  "let j = new_pending_job (replicate 16 1) \<lparr>sin_addr = 2, sin_port = 3\<rparr> 7 ''ls'' 2 0
   in (count_file (replicate 16 1) 7 9 ^^ 2) [j, j] =
        [j\<lparr>pj_files_received := 2, pj_last_update := 9\<rparr>, j]"
  using files_counted_for_first_job [of "replicate 16 1" 7
    "let j = new_pending_job (replicate 16 1) \<lparr>sin_addr = 2, sin_port = 3\<rparr> 7 ''ls'' 2 0 in [j, j]" 0 2 9]
  by (simp add: Let_def new_pending_job_def same_job_def)

text \<open>
  C13: A pass of \<open>process_pending_jobs\<close> always ends, keeps the order of the jobs it leaves, removes
  only jobs whose files have all arrived, and sends exactly one \<open>JOB_RESULT\<close> per removed job, with
  the job's number and to the address the job came from.
\<close>

theorem processing_pass_effect:
  assumes "length (e_time_str e) \<le> 31" "lq_inv (pr_log p)"
  shows "\<exists>p' rs. process_pending_jobs os e p = Inr p' \<and> lq_inv (pr_log p') \<and>
    subseq (pr_jobs p') (pr_jobs p) \<and> mset (pr_jobs p) = mset (map fst rs) + mset (pr_jobs p') \<and>
    (\<forall>r \<in> set rs. job_ready (fst r)) \<and> pr_sent p' = pr_sent p @ map (result_sent e) rs"
proof (cases "sys_getcwd os (pr_world p)")
  case None
  with assms(2) show ?thesis by (intro exI [of _ p] exI [of _ "[]"]) (simp add: process_pending_jobs_def)
next
  case (Some d)
  obtain p' where p': "process_loop (length (pr_jobs p)) os e d 0 p = Inr p'"
    using process_loop_total assms(1) by blast
  with process_loop_effect [OF p' assms(2)] Some show ?thesis
    by (auto simp: process_pending_jobs_def)
qed

theorem processing_pass_effect_witness:
  "let j = new_pending_job (replicate 16 1) \<lparr>sin_addr = 2, sin_port = 3\<rparr> 7 ''ls'' 0 0
   in \<exists>p' rs. process_pending_jobs pipe_os plain_env \<lparr>pr_jobs = [j], pr_log = log_queue_init global_log_queue,
        pr_sent = [], pr_world = ([], [])\<rparr> = Inr p' \<and>
        {#j#} = mset (map fst rs) + mset (pr_jobs p') \<and> pr_sent p' = map (result_sent plain_env) rs"
  using processing_pass_effect [of plain_env
    "let j = new_pending_job (replicate 16 1) \<lparr>sin_addr = 2, sin_port = 3\<rparr> 7 ''ls'' 0 0
     in \<lparr>pr_jobs = [j], pr_log = log_queue_init global_log_queue, pr_sent = [], pr_world = ([], [])\<rparr>" pipe_os]
  by (auto simp: plain_env_def lq_inv_init Let_def)

text \<open>
  C14: The loop of \<open>process_pending_jobs\<close> advances its index after it has removed a job, so when
  every job is ready and nothing fails a pass runs only every other job: of \<open>n\<close> ready jobs,
  \<open>n div 2\<close> are left for a later pass.
\<close>

theorem processing_pass_skips:
  assumes "length (e_time_str e) \<le> 31" "e_alloc e" "\<And>dir w. fst (sys_chdir os dir w)"
    and "sys_getcwd os (pr_world p) = Some d" "\<forall>j \<in> set (pr_jobs p). job_ready j"
  shows "\<exists>p'. process_pending_jobs os e p = Inr p' \<and> pr_jobs p' = every_second (pr_jobs p) \<and>
    length (pr_jobs p') = length (pr_jobs p) div 2"
proof -
  obtain p' where p': "process_loop (length (pr_jobs p)) os e d 0 p = Inr p'"
    using process_loop_total assms(1) by blast
  have "pr_jobs p' = every_second (pr_jobs p)"
    using process_loop_all_ready [OF assms(1-3) p'] assms(5) by simp
  with p' assms(4) show ?thesis by (simp add: process_pending_jobs_def length_every_second)
qed

theorem processing_pass_skips_witness:
  "let j = new_pending_job (replicate 16 1) \<lparr>sin_addr = 2, sin_port = 3\<rparr> 7 ''ls'' 0 0
   in \<exists>p'. process_pending_jobs pipe_os plain_env \<lparr>pr_jobs = [j, j, j],
        pr_log = log_queue_init global_log_queue, pr_sent = [], pr_world = ([], [])\<rparr> = Inr p' \<and>
        pr_jobs p' = [j] \<and> length (pr_jobs p') = 1"
  using processing_pass_skips [of plain_env pipe_os
    "let j = new_pending_job (replicate 16 1) \<lparr>sin_addr = 2, sin_port = 3\<rparr> 7 ''ls'' 0 0
     in \<lparr>pr_jobs = [j, j, j], pr_log = log_queue_init global_log_queue, pr_sent = [],
         pr_world = ([], [])\<rparr>" "''/''"]
  by (simp add: Let_def plain_env_def pipe_os_def new_pending_job_def job_ready_def)

text \<open>
  C36: A \<open>JOB_RESULT\<close> carries the job's number, the status and the text, but its \<open>message_id\<close> and
  \<open>client_id\<close> are whatever the stack held.
\<close>

theorem job_result_fields:
  assumes "length mem = 32"
  shows "load_job_result (job_result_bytes mem job_id st) =
      \<lparr>jt_type = message_code JOB_RESULT, jt_message_id = get32 4 mem,
       jt_client_id = slice_at 8 16 mem, jt_job_id = job_id, jt_status = status_byte st,
       jt_msg_len = of_nat (length (result_msg st))\<rparr> \<and>
    drop sizeof_JobResult (job_result_bytes mem job_id st) = bytes_of (result_msg st)"
  using job_result_bytes_load [OF assms] by blast

theorem job_result_fields_witness:
  "jt_client_id (load_job_result (job_result_bytes (replicate 32 7) 3 STATUS_OK)) = replicate 16 7"
  using job_result_fields [of "replicate 32 7" 3 STATUS_OK] by (simp add: slice_at_def)

end
