(* ===== verification/JobQueues.thy ===== *)
theory JobQueues
  imports Prelude
begin

section \<open>The growable job arrays (upload\_queue and download\_queue)\<close>

text \<open>
  \<open>UploadQueue\<close> (upload\_handler.c) and \<open>DownloadQueue\<close> (server.h) are the same structure: a
  \<open>malloc\<close>ed array of \<open>capacity\<close> slots whose first \<open>size\<close> hold jobs, doubled with \<open>realloc\<close> when
  it is full, emptied from the front with \<open>memmove\<close>. A slot that was never written is \<open>None\<close>.
  The download queue appends, the upload queue inserts by priority with a shifting loop from the
  end. The locales state what the server's threads rely on: no job is lost or duplicated
  (\<open>job_queue\<close>), jobs leave in arrival order (\<open>fifo_queue\<close>), jobs leave by priority
  (\<open>priority_queue\<close>).
\<close>

record 'a growable =
  g_slots :: "'a option list"
  g_size :: nat
  g_capacity :: nat

text \<open>\<open>malloc (10 * sizeof (\<dots>))\<close>, capacity 10, size 0.\<close>

definition g_init :: "'a growable" where
  "g_init = \<lparr>g_slots = replicate 10 None, g_size = 0, g_capacity = 10\<rparr>"

text \<open>
  The doubling. The result of \<open>realloc\<close> is not checked: when it fails (\<open>alloc\<close> is False) the
  next store goes through a null pointer.
\<close>

definition g_grow :: "bool \<Rightarrow> 'a growable \<Rightarrow> 'a growable result" where
  "g_grow alloc g =
     (if g_size g = g_capacity g
      then if alloc
           then Inr (g\<lparr>g_capacity := g_capacity g * 2,
                       g_slots := g_slots g @ replicate (g_capacity g) None\<rparr>)
           else Inl Null_Deref
      else Inr g)"

text \<open>\<open>jobs[size++] = job\<close>.\<close>

definition g_push :: "'a growable \<Rightarrow> 'a \<Rightarrow> 'a growable result" where
  "g_push g x = rbind (poke (g_size g) (Some x) (g_slots g))
     (\<lambda>s. Inr (g\<lparr>g_slots := s, g_size := g_size g + 1\<rparr>))"

text \<open>\<open>job = jobs[0]; memmove (&jobs[0], &jobs[1], (size - 1) * \<dots>); size--\<close>.\<close>

definition g_pop :: "'a growable \<Rightarrow> ('a \<times> 'a growable) result" where
  "g_pop g = rbind (peek 0 (g_slots g)) (\<lambda>x. case x of
     None \<Rightarrow> Inl Uninit_Read
   | Some v \<Rightarrow>
       let n = g_size g - 1
       in Inr (v, g\<lparr>g_slots := take n (drop 1 (g_slots g)) @ drop n (g_slots g), g_size := n\<rparr>))"

text \<open>
  \<^verbatim>\<open>for (i = size - 1; i >= 0; i--) if (before (jobs[i])) jobs[i+1] = jobs[i]; else break;\<close>
  The argument is \<open>i + 1\<close>, and so is the index returned.
\<close>

fun shift_loop :: "('a \<Rightarrow> bool) \<Rightarrow> nat \<Rightarrow> 'a option list \<Rightarrow> (nat \<times> 'a option list) result" where
  "shift_loop before 0 s = Inr (0, s)"
| "shift_loop before (Suc i) s = rbind (peek i s) (\<lambda>x. case x of
     None \<Rightarrow> Inl Uninit_Read
   | Some y \<Rightarrow> if before y then rbind (poke (Suc i) x s) (shift_loop before i)
              else Inr (Suc i, s))"

definition g_insert :: "('a \<Rightarrow> 'a \<Rightarrow> bool) \<Rightarrow> 'a growable \<Rightarrow> 'a \<Rightarrow> 'a growable result" where
  "g_insert goes_before g x =
     rbind (shift_loop (goes_before x) (g_size g) (g_slots g)) (\<lambda>(k, s).
     rbind (poke k (Some x) s) (\<lambda>s'.
     Inr (g\<lparr>g_slots := s', g_size := g_size g + 1\<rparr>)))"

definition g_list :: "'a growable \<Rightarrow> 'a list" where
  "g_list g = map the (take (g_size g) (g_slots g))"

definition g_inv :: "'a growable \<Rightarrow> bool" where
  "g_inv g \<longleftrightarrow> g_size g \<le> g_capacity g \<and> 0 < g_capacity g \<and> length (g_slots g) = g_capacity g \<and>
     (\<forall>i < g_size g. g_slots g ! i \<noteq> None)"

text \<open>The reference for the shifting loop: insertion before the first smaller element.\<close>

fun ordered_insert :: "('a \<Rightarrow> 'a \<Rightarrow> bool) \<Rightarrow> 'a list \<Rightarrow> 'a \<Rightarrow> 'a list" where
  "ordered_insert goes_before [] x = [x]"
| "ordered_insert goes_before (y # ys) x =
     (if goes_before x y then x # y # ys else y # ordered_insert goes_before ys x)"

datatype 'a queue_op = Enq 'a | Deq

text \<open>
  A run of enqueuers and dequeuers; a dequeuer that finds the queue empty keeps waiting.
\<close>

fun run_ops ::
  "('q \<Rightarrow> 'a \<Rightarrow> 'q result) \<Rightarrow> ('q \<Rightarrow> ('a \<times> 'q) result) \<Rightarrow> ('q \<Rightarrow> bool) \<Rightarrow>
   'a queue_op list \<Rightarrow> 'q \<Rightarrow> ('a list \<times> 'q) result" where
  "run_ops enq deq is_empty [] q = Inr ([], q)"
| "run_ops enq deq is_empty (Enq x # ops) q = rbind (enq q x) (run_ops enq deq is_empty ops)"
| "run_ops enq deq is_empty (Deq # ops) q =
     (if is_empty q then run_ops enq deq is_empty ops q
      else rbind (deq q) (\<lambda>(x, q'). rbind (run_ops enq deq is_empty ops q')
             (\<lambda>(out, q''). Inr (x # out, q''))))"

fun enqueued :: "'a queue_op list \<Rightarrow> 'a list" where
  "enqueued [] = []"
| "enqueued (Enq x # ops) = x # enqueued ops"
| "enqueued (Deq # ops) = enqueued ops"

section \<open>The contracts\<close>

locale job_queue =
  fixes enq :: "'q \<Rightarrow> 'a \<Rightarrow> 'q result"
    and deq :: "'q \<Rightarrow> ('a \<times> 'q) result"
    and is_empty :: "'q \<Rightarrow> bool"
    and view :: "'q \<Rightarrow> 'a list"
    and inv :: "'q \<Rightarrow> bool"
    and place :: "'a list \<Rightarrow> 'a \<Rightarrow> 'a list"
  assumes enq_ok: "inv q \<Longrightarrow> \<exists>q'. enq q x = Inr q' \<and> inv q' \<and> view q' = place (view q) x"
    and deq_ok: "inv q \<Longrightarrow> \<not> is_empty q \<Longrightarrow>
      \<exists>x q'. deq q = Inr (x, q') \<and> inv q' \<and> view q = x # view q'"
    and empty_iff: "inv q \<Longrightarrow> is_empty q \<longleftrightarrow> view q = []"
    and mset_place: "mset (place xs x) = add_mset x (mset xs)"
begin

lemma run_total:
  "inv q \<Longrightarrow> \<exists>out q'. run_ops enq deq is_empty ops q = Inr (out, q') \<and> inv q' \<and>
     mset (view q) + mset (enqueued ops) = mset out + mset (view q')"
proof (induction ops arbitrary: q rule: enqueued.induct)
  case 1
  then show ?case by simp
next
  case (2 x ops)
  obtain q1 where q1: "enq q x = Inr q1" "inv q1" "view q1 = place (view q) x"
    using enq_ok [OF "2.prems"] by blast
  from "2.IH" [OF q1(2)] q1(1,3) show ?case by (auto simp: mset_place)
next
  case (3 ops)
  show ?case
  proof (cases "is_empty q")
    case True
    with "3.IH" [OF "3.prems"] show ?thesis by simp
  next
    case False
    then obtain x q1 where q1: "deq q = Inr (x, q1)" "inv q1" "view q = x # view q1"
      using deq_ok [OF "3.prems"] by blast
    from "3.IH" [OF q1(2)] q1(1,3) False show ?thesis by auto
  qed
qed

end

locale fifo_queue = job_queue +
  assumes place_last: "place xs x = xs @ [x]"
begin

lemma run_order:
  "inv q \<Longrightarrow> run_ops enq deq is_empty ops q = Inr (out, q') \<Longrightarrow>
     view q @ enqueued ops = out @ view q'"
proof (induction ops arbitrary: q out rule: enqueued.induct)
  case 1
  then show ?case by simp
next
  case (2 x ops)
  obtain q1 where q1: "enq q x = Inr q1" "inv q1" "view q1 = view q @ [x]"
    using enq_ok [OF "2.prems"(1)] by (metis place_last)
  from "2.IH" [OF q1(2)] "2.prems"(2) q1 show ?case by simp
next
  case (3 ops)
  show ?case
  proof (cases "is_empty q")
    case True
    with "3.IH" [OF "3.prems"(1)] "3.prems"(2) show ?thesis by simp
  next
    case False
    then obtain x q1 where q1: "deq q = Inr (x, q1)" "inv q1" "view q = x # view q1"
      using deq_ok [OF "3.prems"(1)] by blast
    with "3.prems"(2) False obtain out' where
      "run_ops enq deq is_empty ops q1 = Inr (out', q')" "out = x # out'"
      by (auto simp: rbind_eq_Inr)
    with "3.IH" [OF q1(2)] q1(3) show ?thesis by simp
  qed
qed

end

locale priority_queue = job_queue +
  fixes key :: "'a \<Rightarrow> 'k::linorder"
  assumes inv_sorted: "inv q \<Longrightarrow> sorted_wrt (\<lambda>a b. key b \<le> key a) (view q)"
begin

lemma deq_best:
  "inv q \<Longrightarrow> deq q = Inr (x, q') \<Longrightarrow> \<not> is_empty q \<Longrightarrow> y \<in> set (view q) \<Longrightarrow> key y \<le> key x"
proof -
  assume a: "inv q" "deq q = Inr (x, q')" "\<not> is_empty q" "y \<in> set (view q)"
  then have "view q = x # view q'" using deq_ok by fastforce
  with a(4) inv_sorted [OF a(1)] show "key y \<le> key x" by auto
qed

end

section \<open>The arrays meet the contracts\<close>

lemma g_inv_init: "g_inv g_init"
  by (simp add: g_inv_def g_init_def)

lemma g_list_init: "g_list g_init = []"
  by (simp add: g_list_def g_init_def)

lemma length_g_list: "g_inv g \<Longrightarrow> length (g_list g) = g_size g"
  by (simp add: g_list_def g_inv_def)

lemma g_list_Nil: "g_inv g \<Longrightarrow> g_list g = [] \<longleftrightarrow> g_size g = 0"
  using length_g_list by fastforce

lemma g_grow_ok:
  assumes "g_inv g"
  shows "\<exists>g'. g_grow True g = Inr g' \<and> g_inv g' \<and> g_list g' = g_list g \<and>
    g_size g' = g_size g \<and> g_size g' < g_capacity g'"
  using assms by (auto simp: g_grow_def g_inv_def g_list_def nth_append)

lemma g_push_ok:
  assumes "g_inv g" "g_size g < g_capacity g"
  shows "\<exists>g'. g_push g x = Inr g' \<and> g_inv g' \<and> g_list g' = g_list g @ [x]"
  using assms
  by (auto simp: g_push_def g_inv_def g_list_def take_Suc_conv_app_nth nth_list_update)

lemma g_pop_ok:
  assumes "g_inv g" "g_size g \<noteq> 0"
  shows "\<exists>x g'. g_pop g = Inr (x, g') \<and> g_inv g' \<and> g_list g = x # g_list g'"
proof -
  obtain s n c where g: "g_slots g = s" "g_size g = Suc n" "g_capacity g = c" "length s = c" "Suc n \<le> c"
    and full: "\<forall>i < Suc n. s ! i \<noteq> None"
    using assms by (cases "g_size g") (auto simp: g_inv_def)
  then obtain v s' where s: "s = Some v # s'"
    by (cases s) force+
  let ?t = "take n s' @ drop n s"
  have p: "g_pop g = Inr (v, g\<lparr>g_slots := ?t, g_size := n\<rparr>)"
    using g s by (simp add: g_pop_def Let_def)
  have "s' ! i \<noteq> None" if "i < n" for i
    using full that s by (metis Suc_less_eq nth_Cons_Suc)
  then have "g_inv (g\<lparr>g_slots := ?t, g_size := n\<rparr>)"
    using g s by (auto simp: g_inv_def nth_append)
  moreover have "g_list g = v # g_list (g\<lparr>g_slots := ?t, g_size := n\<rparr>)"
    using g s by (simp add: g_list_def)
  ultimately show ?thesis using p by blast
qed

text \<open>
  The loop moves the suffix of jobs the new one goes before by one slot; \<open>k\<close> is where that
  suffix starts.
\<close>

definition shifted ::
  "('a \<Rightarrow> bool) \<Rightarrow> nat \<Rightarrow> 'a option list \<Rightarrow> nat \<Rightarrow> 'a option list \<Rightarrow> bool" where
  "shifted b n s k s' \<longleftrightarrow> k \<le> n \<and> length s' = length s \<and> (\<forall>i < k. s' ! i = s ! i) \<and>
     (\<forall>i. k \<le> i \<and> i < n \<longrightarrow> s' ! Suc i = s ! i \<and> b (the (s ! i))) \<and>
     (k > 0 \<longrightarrow> \<not> b (the (s ! (k - 1)))) \<and> (\<forall>i > n. s' ! i = s ! i)"

lemma shifted_step:
  assumes "shifted b n (s[Suc n := s ! n]) k s'" "b (the (s ! n))" "Suc n < length s"
  shows "shifted b (Suc n) s k s'"
proof -
  have "s' ! Suc i = s ! i \<and> b (the (s ! i))" if "k \<le> i" "i < Suc n" for i
    using that assms by (cases "i = n") (auto simp: shifted_def nth_list_update)
  moreover have "s' ! i = s ! i" if "i > Suc n" for i
    using that assms(1) by (auto simp: shifted_def)
  ultimately show ?thesis
    using assms(1) by (auto simp: shifted_def nth_list_update)
qed

lemma shift_loop_result:
  assumes "n < length s" "\<forall>i < n. s ! i \<noteq> None"
  shows "\<exists>k s'. shift_loop b n s = Inr (k, s') \<and> shifted b n s k s'"
  using assms
proof (induction n arbitrary: s)
  case 0
  then show ?case by (simp add: shifted_def)
next
  case (Suc n)
  then obtain y where y: "s ! n = Some y" by fastforce
  show ?case
  proof (cases "b y")
    case False
    with y Suc.prems show ?thesis by (auto simp: shifted_def)
  next
    case True
    let ?s = "s[Suc n := s ! n]"
    have step: "shift_loop b (Suc n) s = shift_loop b n ?s"
      using y True Suc.prems by simp
    have "n < length ?s" "\<forall>i < n. ?s ! i \<noteq> None"
      using Suc.prems by (auto simp: nth_list_update)
    then obtain k s' where "shift_loop b n ?s = Inr (k, s')" "shifted b n ?s k s'"
      using Suc.IH by blast
    with step y True Suc.prems(1) show ?thesis by (auto intro: shifted_step)
  qed
qed

lemma g_insert_shape:
  assumes "g_inv g" "g_size g < g_capacity g"
  shows "\<exists>g' k. g_insert b g x = Inr g' \<and> g_inv g' \<and> k \<le> g_size g \<and>
    g_list g' = take k (g_list g) @ x # drop k (g_list g) \<and>
    (\<forall>y \<in> set (drop k (g_list g)). b x y) \<and> (k > 0 \<longrightarrow> \<not> b x (g_list g ! (k - 1)))"
proof -
  let ?n = "g_size g" and ?s = "g_slots g"
  have n: "?n < length ?s" "\<forall>i < ?n. ?s ! i \<noteq> None" "length ?s = g_capacity g"
    using assms by (auto simp: g_inv_def)
  then obtain k s' where sl: "shift_loop (b x) ?n ?s = Inr (k, s')" and sh: "shifted (b x) ?n ?s k s'"
    using shift_loop_result by blast
  then have k: "k \<le> ?n" "length s' = length ?s" by (simp_all add: shifted_def)
  let ?g' = "g\<lparr>g_slots := s'[k := Some x], g_size := ?n + 1\<rparr>"
  have nth: "s'[k := Some x] ! i = (if i < k then ?s ! i else if i = k then Some x else ?s ! (i - 1))"
    if "i \<le> ?n" for i
  proof -
    consider "i < k" | "i = k" | j where "i = Suc j" "k \<le> j"
      by (cases i) (fastforce simp: not_less_eq_eq not_less)+
    then show ?thesis
      using that sh n(1) by cases (auto simp: shifted_def)
  qed
  have res: "g_insert b g x = Inr ?g'"
    using sl k n(1) by (simp add: g_insert_def)
  have "g_inv ?g'"
    using assms n k nth by (auto simp: g_inv_def)
  moreover have "g_list ?g' = take k (g_list g) @ x # drop k (g_list g)"
  proof (rule nth_equalityI)
    show "length (g_list ?g') = length (take k (g_list g) @ x # drop k (g_list g))"
      using k n(1) by (simp add: g_list_def)
  next
    fix i assume "i < length (g_list ?g')"
    then have i: "i \<le> ?n" using n(1) k(2) by (simp add: g_list_def)
    then have "g_list ?g' ! i = the (s'[k := Some x] ! i)"
      using n(1) k(2) by (simp add: g_list_def)
    also have "\<dots> = (take k (g_list g) @ x # drop k (g_list g)) ! i"
      using i k(1) n(1) nth [OF i]
      by (auto simp: g_list_def nth_append nth_Cons' min_def)
    finally show "g_list ?g' ! i = (take k (g_list g) @ x # drop k (g_list g)) ! i" .
  qed
  moreover have "\<forall>y \<in> set (drop k (g_list g)). b x y"
  proof
    fix y assume "y \<in> set (drop k (g_list g))"
    then obtain i where "i < length (drop k (g_list g))" "y = drop k (g_list g) ! i"
      by (metis in_set_conv_nth)
    then have "y = the (?s ! (k + i))" "k \<le> k + i" "k + i < ?n"
      using n(1) k(1) by (auto simp: g_list_def)
    with sh show "b x y" by (simp add: shifted_def)
  qed
  moreover have "k > 0 \<longrightarrow> \<not> b x (g_list g ! (k - 1))"
    using sh k(1) n(1) by (auto simp: g_list_def shifted_def)
  ultimately show ?thesis using res k(1) by blast
qed

subsection \<open>The shifting loop is an ordered insertion\<close>

lemma mset_ordered_insert: "mset (ordered_insert b xs x) = add_mset x (mset xs)"
  by (induction xs) auto

lemma ordered_insert_split:
  assumes "\<forall>y \<in> set xs. \<not> b x y" "ys \<noteq> [] \<Longrightarrow> b x (hd ys)"
  shows "ordered_insert b (xs @ ys) x = xs @ x # ys"
  using assms by (induction xs) (cases ys; auto)+

lemma sorted_ordered_insert:
  fixes key :: "'a \<Rightarrow> 'k::linorder"
  assumes "sorted_wrt (\<lambda>a b. key b \<le> key a) xs"
  shows "sorted_wrt (\<lambda>a b. key b \<le> key a) (ordered_insert (\<lambda>a b. key b < key a) xs x)"
  using assms
proof (induction xs)
  case Nil
  then show ?case by simp
next
  case (Cons y ys)
  have "set (ordered_insert (\<lambda>a b. key b < key a) ys x) = insert x (set ys)"
    by (metis mset_ordered_insert set_mset_add_mset_insert set_mset_mset)
  with Cons show ?case by (auto simp: not_less intro: less_imp_le order_trans)
qed

lemma ordered_insert_partition:
  fixes key :: "'a \<Rightarrow> 'k::linorder"
  assumes "sorted_wrt (\<lambda>a b. key b \<le> key a) xs"
  shows "ordered_insert (\<lambda>a b. key b < key a) xs x =
    filter (\<lambda>y. key x \<le> key y) xs @ x # filter (\<lambda>y. key y < key x) xs"
  using assms
proof (induction xs)
  case Nil
  then show ?case by simp
next
  case (Cons y ys)
  have "filter (\<lambda>z. key x \<le> key z) ys = [] \<and> filter (\<lambda>z. key z < key x) ys = ys" if "key y < key x"
    using Cons.prems that by (fastforce simp: filter_empty_conv filter_id_conv)
  with Cons show ?case by auto
qed

lemma g_insert_ordered:
  fixes key :: "'a \<Rightarrow> 'k::linorder"
  assumes "g_inv g" "g_size g < g_capacity g"
    and "sorted_wrt (\<lambda>a b. key b \<le> key a) (g_list g)"
  shows "\<exists>g'. g_insert (\<lambda>a b. key b < key a) g x = Inr g' \<and> g_inv g' \<and>
    g_list g' = ordered_insert (\<lambda>a b. key b < key a) (g_list g) x"
proof -
  let ?b = "\<lambda>a b. key b < key a" and ?l = "g_list g"
  obtain g' k where g': "g_insert ?b g x = Inr g'" "g_inv g'" "k \<le> g_size g"
    "g_list g' = take k ?l @ x # drop k ?l" "\<forall>y \<in> set (drop k ?l). ?b x y"
    "k > 0 \<longrightarrow> \<not> ?b x (?l ! (k - 1))"
    using g_insert_shape [OF assms(1,2)] by blast
  have "\<forall>y \<in> set (take k ?l). \<not> ?b x y"
  proof
    fix y assume "y \<in> set (take k ?l)"
    then obtain i where i: "i < k" "i < length ?l" "y = ?l ! i"
      by (auto simp: in_set_conv_nth)
    have "key (?l ! (k - 1)) \<le> key (?l ! i)"
    proof (cases "i = k - 1")
      case False
      then show ?thesis
        using assms(3) i g'(3) length_g_list [OF assms(1)] by (auto simp: sorted_wrt_iff_nth_less)
    qed simp
    with g'(6) i show "\<not> ?b x y" by auto
  qed
  moreover have "drop k ?l \<noteq> [] \<Longrightarrow> ?b x (hd (drop k ?l))"
    using g'(5) by (metis list.set_sel(1))
  ultimately have "ordered_insert ?b (take k ?l @ drop k ?l) x = take k ?l @ x # drop k ?l"
    by (rule ordered_insert_split)
  with g' show ?thesis by auto
qed

end
