(* ===== verification/Doubles.thy ===== *)
theory Doubles
  imports Prelude
begin

section \<open>The IEEE doubles of the upload priority (1.0 / (double) file\_size)\<close>

text \<open>
  \<open>handle_upload_request\<close> ranks uploads by the C expression \<open>1.0 / (double) req->file_size\<close>,
  where \<open>file_size\<close> is a \<open>uint64_t\<close>. Both the conversion and the division round to 53
  significant bits, to nearest with ties to even; a size of 0 gives positive infinity. The values
  that occur are between \<open>2 ^ -64\<close> and 1, or infinity, so none is subnormal: \<open>Fin v\<close> stands
  for the double \<open>v * 2 ^ -117\<close>.
\<close>

datatype cdouble = Fin nat | Inf

text \<open>The number of bits of \<open>n\<close>.\<close>

fun bitlen :: "nat \<Rightarrow> nat" where
  "bitlen n = (if n = 0 then 0 else Suc (bitlen (n div 2)))"

declare bitlen.simps [simp del]

text \<open>The integer nearest to \<open>a / b\<close>, the even one of two that are equally near.\<close>

definition round_quot :: "nat \<Rightarrow> nat \<Rightarrow> nat" where
  "round_quot a b =
     (let q = a div b; r = a mod b
      in if 2 * r < b then q else if 2 * r > b then q + 1 else if even q then q else q + 1)"

text \<open>The conversion \<open>(double) n\<close>: 53 bits are kept, so the value is an integer again.\<close>

definition round53 :: "nat \<Rightarrow> nat" where
  "round53 n = round_quot n (2 ^ (bitlen n - 53)) * 2 ^ (bitlen n - 53)"

definition double_of_u64 :: "64 word \<Rightarrow> nat" where
  "double_of_u64 w = round53 (unat w)"

text \<open>
  \<open>1.0 / d\<close>: for \<open>2 ^ (L - 1) \<le> d < 2 ^ L\<close> the quotient is at least \<open>2 ^ -L\<close>, so its last
  bit weighs \<open>2 ^ -(L + 52)\<close>.
\<close>

definition double_recip :: "nat \<Rightarrow> cdouble" where
  "double_recip d =
     (if d = 0 then Inf
      else Fin (round_quot (2 ^ (bitlen d + 52)) d * 2 ^ (65 - bitlen d)))"

definition upload_priority :: "64 word \<Rightarrow> cdouble" where
  "upload_priority file_size = double_recip (double_of_u64 file_size)"

text \<open>The comparison of doubles that are not NaN.\<close>

instantiation cdouble :: linorder
begin

fun less_eq_cdouble :: "cdouble \<Rightarrow> cdouble \<Rightarrow> bool" where
  "less_eq_cdouble a Inf = True"
| "less_eq_cdouble Inf (Fin b) = False"
| "less_eq_cdouble (Fin a) (Fin b) = (a \<le> b)"

definition less_cdouble :: "cdouble \<Rightarrow> cdouble \<Rightarrow> bool" where
  "less_cdouble a b \<longleftrightarrow> a \<le> b \<and> \<not> b \<le> a" for a b :: cdouble

instance
proof
  fix a b c :: cdouble
  show "a < b \<longleftrightarrow> a \<le> b \<and> \<not> b \<le> a" by (rule less_cdouble_def)
  show "a \<le> a" by (cases a) auto
  show "a \<le> b \<Longrightarrow> b \<le> c \<Longrightarrow> a \<le> c" by (cases a; cases b; cases c) auto
  show "a \<le> b \<Longrightarrow> b \<le> a \<Longrightarrow> a = b" by (cases a; cases b) auto
  show "a \<le> b \<or> b \<le> a" by (cases a; cases b) auto
qed

end

lemma cdouble_less [simp]:
  "Fin a < Fin b \<longleftrightarrow> a < b" "Fin a < Inf" "\<not> Inf < d"
  by (auto simp: less_cdouble_def)

section \<open>Rounding\<close>

lemma bitlen_pos: "0 < n \<Longrightarrow> 0 < bitlen n"
  by (subst bitlen.simps) simp

lemma bitlen_bounds: "0 < n \<Longrightarrow> 2 ^ (bitlen n - 1) \<le> n \<and> n < 2 ^ bitlen n"
proof (induction n rule: bitlen.induct)
  case (1 n)
  show ?case
  proof (cases "n = 1")
    case True
    then show ?thesis by (simp add: bitlen.simps)
  next
    case False
    with "1.prems" have h: "0 < n div 2" "n \<noteq> 0" by auto
    with "1.IH" have ih: "2 ^ (bitlen (n div 2) - 1) \<le> n div 2 \<and> n div 2 < 2 ^ bitlen (n div 2)" by blast
    obtain k where k: "bitlen (n div 2) = Suc k"
      using bitlen_pos [OF h(1)] by (cases "bitlen (n div 2)") auto
    have "bitlen n = Suc (Suc k)" using h(2) k by (subst bitlen.simps) simp
    with ih k show ?thesis by simp arith
  qed
qed

lemma bitlen_le: "n < 2 ^ k \<Longrightarrow> bitlen n \<le> k"
proof (rule ccontr)
  assume n: "n < 2 ^ k" and "\<not> bitlen n \<le> k"
  then have "0 < n" by (subst (asm) bitlen.simps) (auto split: if_splits)
  then have "(2 :: nat) ^ (bitlen n - 1) \<le> n" using bitlen_bounds by blast
  moreover have "(2 :: nat) ^ k \<le> 2 ^ (bitlen n - 1)"
    using \<open>\<not> bitlen n \<le> k\<close> by (intro power_increasing) auto
  ultimately show False using n by linarith
qed

lemma bitlen_mono: "m \<le> n \<Longrightarrow> bitlen m \<le> bitlen n"
proof (cases "n = 0")
  case False
  assume "m \<le> n"
  then have "m < 2 ^ bitlen n" using bitlen_bounds [of n] False by linarith
  then show ?thesis by (rule bitlen_le)
qed simp

text \<open>
  The rounded quotient is within half a unit of the exact one; all further facts follow from
  that, or from monotonicity over a common denominator.
\<close>

lemma round_quot_near:
  assumes "0 < b"
  shows "2 * a \<le> 2 * b * round_quot a b + b" "2 * b * round_quot a b \<le> 2 * a + b"
proof -
  have "a = b * (a div b) + a mod b" "a mod b < b" using assms by simp_all
  then have "2 * a = 2 * b * (a div b) + 2 * (a mod b)" "a mod b < b"
    by (metis distrib_left mult.assoc, simp)
  then show "2 * a \<le> 2 * b * round_quot a b + b" "2 * b * round_quot a b \<le> 2 * a + b"
    by (auto simp: round_quot_def Let_def)
qed

lemma round_quot_1 [simp]: "round_quot a (Suc 0) = a"
  by (simp add: round_quot_def)

lemma round_quot_mult [simp]: "0 < b \<Longrightarrow> round_quot (k * b) b = k"
  by (simp add: round_quot_def)

lemma round_quot_scale: "0 < k \<Longrightarrow> round_quot (a * k) (b * k) = round_quot a b"
proof -
  assume "0 < k"
  then have "2 * (a * k mod (b * k)) = 2 * (a mod b) * k" "a * k div (b * k) = a div b"
    by (simp_all add: mult_mod_left [symmetric])
  with \<open>0 < k\<close> show ?thesis by (simp add: round_quot_def Let_def)
qed

lemma round_quot_mono_num: "0 < b \<Longrightarrow> a \<le> c \<Longrightarrow> round_quot a b \<le> round_quot c b"
proof (cases "a div b = c div b")
  case True
  assume "0 < b" "a \<le> c"
  then have "a mod b \<le> c mod b"
    using True by (metis add_le_cancel_left mult_div_mod_eq)
  with True show ?thesis by (simp add: round_quot_def Let_def)
next
  case False
  assume "0 < b" "a \<le> c"
  then have "a div b < c div b" using False div_le_mono [of a c b] by linarith
  then show ?thesis by (simp add: round_quot_def Let_def)
qed

lemma round_quot_antimono_den: "0 < b \<Longrightarrow> b \<le> d \<Longrightarrow> round_quot a d \<le> round_quot a b"
proof -
  assume b: "0 < b" "b \<le> d"
  have "round_quot a d = round_quot (a * b) (d * b)" using b by (simp add: round_quot_scale)
  also have "\<dots> \<le> round_quot (a * d) (d * b)" using b by (intro round_quot_mono_num) auto
  also have "\<dots> = round_quot (a * d) (b * d)" by (simp add: mult.commute)
  also have "\<dots> = round_quot a b" using b by (simp add: round_quot_scale)
  finally show ?thesis .
qed

lemma round_quot_gap:
  assumes "0 < b" "a + b < c"
  shows "round_quot a b < round_quot c b"
proof -
  have "2 * b * round_quot a b < 2 * b * round_quot c b"
    using round_quot_near [OF assms(1), of a] round_quot_near [OF assms(1), of c] assms(2) by linarith
  then show ?thesis by simp
qed

section \<open>The reciprocal reverses the order\<close>

lemma pow2_mult: "a + b = c \<Longrightarrow> (2 :: nat) ^ a * 2 ^ b = 2 ^ c"
  by (simp only: power_add [symmetric])

lemma recip_lower:
  assumes "0 < d" "bitlen d \<le> 65"
  shows "2 ^ (117 - bitlen d) \<le> round_quot (2 ^ (bitlen d + 52)) d * 2 ^ (65 - bitlen d)"
proof -
  let ?L = "bitlen d"
  have "round_quot (2 ^ (?L + 52)) (2 ^ ?L) \<le> round_quot (2 ^ (?L + 52)) d"
    using assms(1) bitlen_bounds [of d] by (intro round_quot_antimono_den) auto
  moreover have "round_quot (2 ^ (?L + 52)) (2 ^ ?L) = 2 ^ 52"
    using round_quot_mult [of "2 ^ ?L" "2 ^ 52"] by (simp add: power_add mult.commute)
  ultimately have "2 ^ 52 * 2 ^ (65 - ?L) \<le> round_quot (2 ^ (?L + 52)) d * 2 ^ (65 - ?L)"
    by (intro mult_right_mono) auto
  moreover have "(2 :: nat) ^ 52 * 2 ^ (65 - ?L) = 2 ^ (117 - ?L)"
    by (rule pow2_mult) (use assms(2) in simp)
  ultimately show ?thesis by (simp only:)
qed

lemma recip_upper:
  assumes "0 < d" "bitlen d \<le> 65"
  shows "round_quot (2 ^ (bitlen d + 52)) d * 2 ^ (65 - bitlen d) \<le> 2 ^ (118 - bitlen d)"
proof -
  let ?L = "bitlen d"
  have L: "0 < ?L" using assms(1) by (rule bitlen_pos)
  have "round_quot (2 ^ (?L + 52)) d \<le> round_quot (2 ^ (?L + 52)) (2 ^ (?L - 1))"
    using assms(1) bitlen_bounds [of d] by (intro round_quot_antimono_den) auto
  moreover have "(2 :: nat) ^ (?L + 52) = 2 ^ 53 * 2 ^ (?L - 1)"
    by (rule pow2_mult [symmetric]) (use L in simp)
  moreover have "round_quot (2 ^ 53 * 2 ^ (?L - 1)) (2 ^ (?L - 1)) = 2 ^ 53"
    by (rule round_quot_mult) simp
  ultimately have "round_quot (2 ^ (?L + 52)) d \<le> 2 ^ 53" by (simp only:)
  then have "round_quot (2 ^ (?L + 52)) d * 2 ^ (65 - ?L) \<le> 2 ^ 53 * 2 ^ (65 - ?L)"
    by (intro mult_right_mono) auto
  moreover have "(2 :: nat) ^ 53 * 2 ^ (65 - ?L) = 2 ^ (118 - ?L)"
    by (rule pow2_mult) (use assms(2) in simp)
  ultimately show ?thesis by (simp only:)
qed

lemma double_recip_antimono:
  assumes "d \<le> d'" "bitlen d' \<le> 65"
  shows "double_recip d' \<le> double_recip d"
proof (cases "d = 0")
  case True
  then show ?thesis by (simp add: double_recip_def)
next
  case False
  then have pos: "0 < d" "0 < d'" using assms(1) by auto
  have L: "bitlen d \<le> bitlen d'" using assms(1) by (rule bitlen_mono)
  show ?thesis
  proof (cases "bitlen d = bitlen d'")
    case True
    with pos assms(1) show ?thesis by (simp add: double_recip_def round_quot_antimono_den)
  next
    case False
    have "(2 :: nat) ^ (118 - bitlen d') \<le> 2 ^ (117 - bitlen d)"
      using L False by (intro power_increasing) auto
    then have "round_quot (2 ^ (bitlen d' + 52)) d' * 2 ^ (65 - bitlen d')
        \<le> round_quot (2 ^ (bitlen d + 52)) d * 2 ^ (65 - bitlen d)"
      using recip_upper [OF pos(2) assms(2)] recip_lower [OF pos(1)] L assms(2)
      by (meson order_trans)
    then show ?thesis using pos by (simp add: double_recip_def)
  qed
qed

lemma recip_strict_across:
  assumes "0 < d" "d < 2 ^ 52" "bitlen d < bitlen d'" "bitlen d' \<le> 65" "0 < d'"
  shows "double_recip d' < double_recip d"
proof -
  let ?L = "bitlen d" and ?r = "round_quot (2 ^ (bitlen d + 52)) d"
  have d: "d < 2 ^ ?L" using bitlen_bounds assms(1) by blast
  have "(2 ^ 52 + 1) * d \<le> 2 ^ (?L + 52)"
  proof -
    have "(2 ^ 52 + 1) * d \<le> 2 ^ 52 * (d + 1)" using assms(2) by simp
    also have "\<dots> \<le> 2 ^ 52 * 2 ^ ?L" using d by (intro mult_left_mono) auto
    finally show ?thesis by (simp add: power_add mult.commute)
  qed
  then have "round_quot ((2 ^ 52 + 1) * d) d \<le> ?r"
    using assms(1) by (intro round_quot_mono_num)
  then have "2 ^ 52 + 1 \<le> ?r" using assms(1) by simp
  then have "2 ^ 52 * 2 ^ (65 - ?L) < ?r * 2 ^ (65 - ?L)" by simp
  moreover have "(2 :: nat) ^ 52 * 2 ^ (65 - ?L) = 2 ^ (117 - ?L)"
    by (rule pow2_mult) (use assms(3,4) in simp)
  ultimately have lt: "2 ^ (117 - ?L) < ?r * 2 ^ (65 - ?L)" by (simp only:)
  have "(2 :: nat) ^ (118 - bitlen d') \<le> 2 ^ (117 - ?L)"
    using assms(3,4) by (intro power_increasing) auto
  from le_less_trans [OF order_trans [OF recip_upper [OF assms(5,4)] this] lt]
  show ?thesis using assms(1,5) by (simp add: double_recip_def)
qed

lemma recip_strict_within:
  assumes "0 < d" "d < d'" "d' \<le> 2 ^ 52" "bitlen d = bitlen d'" "bitlen d' \<le> 65"
  shows "double_recip d' < double_recip d"
proof -
  let ?s = "2 ^ (bitlen d + 52) :: nat"
  have d': "d' < 2 ^ bitlen d" using bitlen_bounds [of d'] assms(1,2,4) by simp
  have "d * d' < 2 ^ bitlen d * 2 ^ 52"
  proof -
    have "d * d' \<le> 2 ^ 52 * d'" using assms(2,3) by (intro mult_right_mono) auto
    also have "\<dots> < 2 ^ 52 * 2 ^ bitlen d" using d' by simp
    finally show ?thesis by (simp add: mult.commute)
  qed
  then have lt: "d * d' < ?s" by (simp add: power_add)
  have "?s * d + d * d' < ?s * d + ?s" using lt by simp
  also have "\<dots> = ?s * (d + 1)" by simp
  also have "\<dots> \<le> ?s * d'" using assms(2) by (intro mult_left_mono) auto
  finally have "round_quot (?s * d) (d * d') < round_quot (?s * d') (d * d')"
    using assms(1,2) by (intro round_quot_gap) auto
  moreover have "round_quot (?s * d) (d * d') = round_quot ?s d'"
    using round_quot_scale [of d ?s d'] assms(1) by (simp add: mult.commute)
  moreover have "round_quot (?s * d') (d * d') = round_quot ?s d"
    using round_quot_scale [of d' ?s d] assms(1,2) by simp
  ultimately show ?thesis using assms by (simp add: double_recip_def)
qed

lemma double_recip_strict:
  assumes "d < d'" "d' \<le> 2 ^ 52"
  shows "double_recip d' < double_recip d"
proof (cases "d = 0")
  case True
  with assms show ?thesis by (simp add: double_recip_def)
next
  case False
  have "d' < 2 ^ 53" using assms(2) by simp
  then have L: "bitlen d' \<le> 65" using bitlen_le [of d' 53] by simp
  show ?thesis
  proof (cases "bitlen d = bitlen d'")
    case True
    with False assms L show ?thesis by (intro recip_strict_within) auto
  next
    case neq: False
    moreover have "bitlen d \<le> bitlen d'" using assms(1) by (intro bitlen_mono) simp
    ultimately show ?thesis using False assms L by (intro recip_strict_across) auto
  qed
qed

section \<open>The conversion\<close>

lemma round53_0 [simp]: "round53 0 = 0"
  by (simp add: round53_def round_quot_def)

lemma round53_exact: "n < 2 ^ 53 \<Longrightarrow> round53 n = n"
  using bitlen_le [of n 53] by (simp add: round53_def)

lemma round53_upper: "0 < n \<Longrightarrow> round53 n \<le> 2 ^ bitlen n"
proof -
  let ?L = "bitlen n" and ?e = "bitlen n - 53"
  assume "0 < n"
  then have "round_quot n (2 ^ ?e) \<le> round_quot (2 ^ ?L) (2 ^ ?e)"
    using bitlen_bounds [of n] by (intro round_quot_mono_num) auto
  moreover have hi: "(2 :: nat) ^ ?L = 2 ^ (?L - ?e) * 2 ^ ?e"
    by (rule pow2_mult [symmetric]) simp
  moreover have "round_quot (2 ^ ?L) (2 ^ ?e) = 2 ^ (?L - ?e)"
    unfolding hi by (rule round_quot_mult) simp
  ultimately have "round_quot n (2 ^ ?e) \<le> 2 ^ (?L - ?e)" by (simp only:)
  then show ?thesis
    unfolding round53_def hi by (rule mult_right_mono) simp
qed

lemma round53_lower: "0 < n \<Longrightarrow> 2 ^ (bitlen n - 1) \<le> round53 n"
proof -
  let ?L = "bitlen n" and ?e = "bitlen n - 53"
  assume "0 < n"
  then have "round_quot (2 ^ (?L - 1)) (2 ^ ?e) \<le> round_quot n (2 ^ ?e)"
    using bitlen_bounds [of n] by (intro round_quot_mono_num) auto
  moreover have lo: "(2 :: nat) ^ (?L - 1) = 2 ^ (?L - 1 - ?e) * 2 ^ ?e"
    by (rule pow2_mult [symmetric]) simp
  moreover have "round_quot (2 ^ (?L - 1)) (2 ^ ?e) = 2 ^ (?L - 1 - ?e)"
    unfolding lo by (rule round_quot_mult) simp
  ultimately have "2 ^ (?L - 1 - ?e) \<le> round_quot n (2 ^ ?e)" by (simp only:)
  then show ?thesis
    unfolding round53_def lo by (rule mult_right_mono) simp
qed

lemma round53_mono: "m \<le> n \<Longrightarrow> round53 m \<le> round53 n"
proof (cases "m = 0 \<or> bitlen m = bitlen n")
  case True
  assume "m \<le> n"
  with True show ?thesis
    by (elim disjE) (simp, simp add: round53_def round_quot_mono_num)
next
  case False
  assume mn: "m \<le> n"
  then have "bitlen m < bitlen n" using bitlen_mono [OF mn] False by simp
  then have step: "(2 :: nat) ^ bitlen m \<le> 2 ^ (bitlen n - 1)"
    by (intro power_increasing) auto
  have "0 < m" "0 < n" using False mn by auto
  then show ?thesis
    using round53_upper round53_lower step by (meson order_trans)
qed

lemma double_of_u64_exact: "unat w < 2 ^ 53 \<Longrightarrow> double_of_u64 w = unat w"
  by (simp add: double_of_u64_def round53_exact)

lemma double_of_u64_mono: "v \<le> w \<Longrightarrow> double_of_u64 v \<le> double_of_u64 w"
  by (simp add: double_of_u64_def round53_mono word_le_nat_alt)

lemma double_of_u64_bitlen: "bitlen (double_of_u64 w) \<le> 65"
proof (cases "unat w = 0")
  case True
  then show ?thesis by (simp add: double_of_u64_def bitlen_le)
next
  case False
  have "bitlen (unat w) \<le> 64" using unat_lt2p [of w] by (intro bitlen_le) simp
  then have "(2 :: nat) ^ bitlen (unat w) \<le> 2 ^ 64" by (intro power_increasing) auto
  with round53_upper [of "unat w"] False have "round53 (unat w) \<le> 2 ^ 64" by linarith
  then show ?thesis unfolding double_of_u64_def by (intro bitlen_le) simp
qed

lemma upload_priority_antimono: "v \<le> w \<Longrightarrow> upload_priority w \<le> upload_priority v"
  unfolding upload_priority_def
  by (intro double_recip_antimono double_of_u64_mono double_of_u64_bitlen)

lemma upload_priority_strict:
  assumes "v < w" "unat w \<le> 2 ^ 52"
  shows "upload_priority w < upload_priority v"
proof -
  have "unat v < unat w" using assms(1) by (simp add: word_less_nat_alt)
  with assms(2) show ?thesis
    unfolding upload_priority_def by (simp add: double_of_u64_exact double_recip_strict)
qed

lemma bitlen_54: "bitlen 0x20000000000000 = 54" "bitlen 0x20000000000001 = 54"
  by (simp_all add: bitlen.simps)

lemma u64_tie: "double_of_u64 0x20000000000000 = double_of_u64 0x20000000000001"
  by (simp add: double_of_u64_def round53_def bitlen_54 round_quot_def)

section \<open>Properties\<close>

text \<open>
  C37: The priority \<open>1.0 / (double) file_size\<close> is antitone in the size over all 64-bit sizes and
  strictly so up to 2^52 bytes; beyond that it is not, since 2^53 and 2^53 + 1 become the same
  double.
\<close>

theorem upload_priority_follows_size:
  "(v \<le> w \<longrightarrow> upload_priority w \<le> upload_priority v) \<and>
   (v < w \<longrightarrow> unat w \<le> 2 ^ 52 \<longrightarrow> upload_priority w < upload_priority v) \<and>
   upload_priority 0x20000000000000 = upload_priority 0x20000000000001"
proof (intro conjI impI)
  show "upload_priority 0x20000000000000 = upload_priority 0x20000000000001"
    unfolding upload_priority_def by (simp only: u64_tie)
qed (simp_all only: upload_priority_antimono upload_priority_strict)

theorem upload_priority_follows_size_witness:
  "upload_priority 1000 < upload_priority 10"
  using upload_priority_follows_size [of 10 1000] by simp

end
