(* ===== verification/Uploads.thy ===== *)
theory Uploads
  imports Jobs JobQueues Doubles
begin

section \<open>Upload requests and transfers (upload\_handler.c)\<close>

text \<open>
  \<open>handle_upload_request\<close> turns an \<open>UPLOAD_REQ\<close> into an \<open>UploadJob\<close>, inserts it into the
  priority queue (smaller files first) and answers \<open>UPLOAD_ACK\<close>. An upload thread takes the first
  job and runs \<open>process_upload\<close>: it looks the job up, accepts the next TCP connection, stores what
  arrives in the job's directory and counts the file. The thread pool is in \<open>UploadPool\<close>.
\<close>

record upload_job =
  uj_client_id :: "byte list"
  uj_job_id :: "32 word"
  uj_filename :: string
  uj_file_size :: "64 word"
  uj_arrival_time :: int
  uj_priority :: cdouble

definition higher_priority :: "upload_job \<Rightarrow> upload_job \<Rightarrow> bool" where
  "higher_priority a b \<longleftrightarrow> uj_priority b < uj_priority a"

definition new_upload_job :: "upload_request \<Rightarrow> string \<Rightarrow> int \<Rightarrow> upload_job" where
  "new_upload_job req filename now =
     \<lparr>uj_client_id = uq_client_id req, uj_job_id = uq_job_id req,
      uj_filename = strncpy_term MAX_FILENAME_LEN filename, uj_file_size = uq_file_size req,
      uj_arrival_time = now, uj_priority = upload_priority (uq_file_size req)\<rparr>"

definition enqueue_upload ::
  "bool \<Rightarrow> upload_job growable \<Rightarrow> upload_job \<Rightarrow> upload_job growable result" where
  "enqueue_upload alloc q j = rbind (g_grow alloc q) (\<lambda>q1. g_insert higher_priority q1 j)"

text \<open>The \<open>UPLOAD_ACK\<close> datagram; \<open>mem\<close> is the stack memory of \<open>resp\<close>.\<close>

definition upload_ack_bytes ::
  "byte list \<Rightarrow> upload_request \<Rightarrow> string \<Rightarrow> sockaddr_in \<Rightarrow> byte list" where
  "upload_ack_bytes mem req filename addr =
     (let r = \<lparr>ur_type = message_code UPLOAD_ACK, ur_message_id = uq_message_id req,
               ur_name_len = of_nat (length filename), ur_status = status_byte STATUS_OK,
               ur_ip_address = sin_addr addr, ur_tcp_port = htons (of_nat SERVER_PORT)\<rparr>
      in store_upload_response mem r @ bytes_of filename)"

definition handle_upload_request ::
  "env \<Rightarrow> upload_request \<Rightarrow> string \<Rightarrow> sockaddr_in \<Rightarrow> upload_job growable \<Rightarrow>
   (upload_job growable \<times> byte list) result" where
  "handle_upload_request e req filename addr q =
     rbind (enqueue_upload (e_alloc e) q (new_upload_job req filename (e_now e))) (\<lambda>q1.
     if e_alloc e then Inr (q1, upload_ack_bytes (take 20 (e_mem e)) req filename addr)
     else Inl Null_Deref)"

subsection \<open>The transfer\<close>

text \<open>
  The receive loop of \<open>process_upload\<close>, with the bytes still missing. \<open>recv\<close> returning 0 or -1
  and a short \<open>write\<close> leave the loop.
\<close>

function recv_loop :: "'w os \<Rightarrow> nat \<Rightarrow> nat \<Rightarrow> nat \<Rightarrow> 'w \<Rightarrow> nat \<times> 'w" where
  "recv_loop os fd file remaining w =
     (if remaining = 0 then (0, w)
      else let r = sys_recv os fd (min 4096 remaining) w in
           case fst r of
             None \<Rightarrow> (remaining, snd r)
           | Some data \<Rightarrow>
               if data = [] then (remaining, snd r)
               else let s = sys_write os file data (snd r) in
                    if fst s \<noteq> int (length data) then (remaining, snd s)
                    else recv_loop os fd file (remaining - length data) (snd s))"
  by pat_completeness auto
termination
  by (relation "measure (\<lambda>(os, fd, file, remaining, w). remaining)") auto

declare recv_loop.simps [simp del]

datatype transfer_outcome = No_Job | Accept_Failed | Open_Failed | Received nat

definition receive_file :: "'w os \<Rightarrow> upload_job \<Rightarrow> 'w \<Rightarrow> transfer_outcome \<times> 'w" where
  "receive_file os job w =
     (case sys_accept os w of
        (None, w1) \<Rightarrow> (Accept_Failed, w1)
      | (Some (fd, peer), w1) \<Rightarrow>
          (case sys_open_write os (file_path (uj_client_id job) (uj_job_id job) (uj_filename job)) w1 of
             (None, w2) \<Rightarrow> (Open_Failed, sys_close os fd w2)
           | (Some file, w2) \<Rightarrow>
               (case recv_loop os fd file (unat (uj_file_size job)) w2 of (remaining, w3) \<Rightarrow>
                  (Received (unat (uj_file_size job) - remaining),
                   sys_close os fd (sys_close os file w3)))))"

text \<open>
  \<open>process_upload\<close> takes \<open>jobs_mutex\<close> twice; \<open>jobs1\<close> and \<open>jobs2\<close> are the job table at the two
  times, since other threads run in between.
\<close>

definition process_upload ::
  "'w os \<Rightarrow> int \<Rightarrow> upload_job \<Rightarrow> pending_job list \<Rightarrow> pending_job list \<Rightarrow> 'w \<Rightarrow>
   transfer_outcome \<times> pending_job list \<times> 'w" where
  "process_upload os now job jobs1 jobs2 w =
     (case first_idx (same_job (uj_client_id job) (uj_job_id job)) jobs1 of
        None \<Rightarrow> (No_Job, jobs2, w)
      | Some i \<Rightarrow>
          (case receive_file os job w of
             (Received n, w1) \<Rightarrow>
               (Received n, count_file (uj_client_id job) (uj_job_id job) now jobs2, w1)
           | (out, w1) \<Rightarrow> (out, jobs2, w1)))"

subsection \<open>The queue's invariant\<close>

definition upload_job_inv :: "upload_job \<Rightarrow> bool" where
  "upload_job_inv j \<longleftrightarrow> id16 (uj_client_id j) \<and> length (uj_filename j) < MAX_FILENAME_LEN \<and>
     NUL \<notin> set (uj_filename j) \<and> uj_priority j = upload_priority (uj_file_size j)"

definition uploads_inv :: "upload_job growable \<Rightarrow> bool" where
  "uploads_inv q \<longleftrightarrow> g_inv q \<and>
     sorted_wrt (\<lambda>a b. uj_priority b \<le> uj_priority a) (g_list q)"

section \<open>Lemmas\<close>

lemma upload_job_inv_new:
  "id16 (uq_client_id req) \<Longrightarrow> upload_job_inv (new_upload_job req filename now)"
  using length_strncpy_term [of MAX_FILENAME_LEN filename]
  by (simp add: upload_job_inv_def new_upload_job_def protocol_consts)

lemma uploads_inv_init: "uploads_inv g_init"
  by (simp add: uploads_inv_def g_inv_init g_list_init)

lemma higher_priority_key: "higher_priority = (\<lambda>a b. uj_priority b < uj_priority a)"
  by (simp add: higher_priority_def fun_eq_iff)

lemma enqueue_upload_ok:
  assumes "uploads_inv q"
  shows "\<exists>q'. enqueue_upload True q j = Inr q' \<and> uploads_inv q' \<and>
    g_list q' = ordered_insert higher_priority (g_list q) j"
proof -
  obtain q1 where q1: "g_grow True q = Inr q1" "g_inv q1" "g_list q1 = g_list q"
    "g_size q1 < g_capacity q1"
    using g_grow_ok assms unfolding uploads_inv_def by blast
  moreover have s: "sorted_wrt (\<lambda>a b. uj_priority b \<le> uj_priority a) (g_list q1)"
    using assms q1(3) by (simp add: uploads_inv_def)
  ultimately obtain q' where "g_insert higher_priority q1 j = Inr q'" "g_inv q'"
    "g_list q' = ordered_insert higher_priority (g_list q) j"
    using g_insert_ordered [OF q1(2,4) s, of j] by (auto simp: higher_priority_key)
  moreover from this s q1(3) have "sorted_wrt (\<lambda>a b. uj_priority b \<le> uj_priority a) (g_list q')"
    using sorted_ordered_insert [of uj_priority "g_list q" j] by (simp add: higher_priority_key)
  ultimately show ?thesis using q1(1) by (simp add: enqueue_upload_def uploads_inv_def)
qed

lemma dequeue_upload_ok:
  assumes "uploads_inv q" "g_size q \<noteq> 0"
  shows "\<exists>x q'. g_pop q = Inr (x, q') \<and> uploads_inv q' \<and> g_list q = x # g_list q'"
  using g_pop_ok assms unfolding uploads_inv_def by fastforce

interpretation upq: priority_queue "enqueue_upload True" g_pop "\<lambda>q. g_size q = 0" g_list
  uploads_inv "ordered_insert higher_priority" uj_priority
proof
  fix q :: "upload_job growable" and x xs
  show "mset (ordered_insert higher_priority xs x) = add_mset x (mset xs)" for xs
    by (rule mset_ordered_insert)
  assume i: "uploads_inv q"
  show "\<exists>q'. enqueue_upload True q x = Inr q' \<and> uploads_inv q' \<and>
      g_list q' = ordered_insert higher_priority (g_list q) x"
    using i by (rule enqueue_upload_ok)
  show "g_size q = 0 \<longleftrightarrow> g_list q = []" using i g_list_Nil by (auto simp: uploads_inv_def)
  show "g_size q \<noteq> 0 \<Longrightarrow> \<exists>x q'. g_pop q = Inr (x, q') \<and> uploads_inv q' \<and> g_list q = x # g_list q'"
    using i by (rule dequeue_upload_ok)
  show "sorted_wrt (\<lambda>a b. uj_priority b \<le> uj_priority a) (g_list q)"
    using i by (simp add: uploads_inv_def)
qed

lemma set_ordered_insert: "set (ordered_insert b xs x) = insert x (set xs)"
  by (metis mset_ordered_insert set_mset_add_mset_insert set_mset_mset)

subsection \<open>Transfers\<close>

lemma recv_loop_le: "fst (recv_loop os fd f n w) \<le> n"
proof (induction os fd f n w rule: recv_loop.induct)
  case (1 os fd f n w)
  show ?case
  proof (cases "\<exists>data w1 w2. n \<noteq> 0 \<and> sys_recv os fd (min 4096 n) w = (Some data, w1) \<and> data \<noteq> [] \<and>
      sys_write os f data w1 = (int (length data), w2)")
    case True
    then obtain data w1 w2 where d: "n \<noteq> 0" "sys_recv os fd (min 4096 n) w = (Some data, w1)"
      "data \<noteq> []" "sys_write os f data w1 = (int (length data), w2)" by blast
    then have "fst (recv_loop os fd f (n - length data) w2) \<le> n - length data"
      using "1.IH" [OF d(1) refl _ d(3) refl] by simp
    with d show ?thesis by (subst recv_loop.simps) simp
  next
    case False
    then show ?thesis
      by (subst recv_loop.simps) (auto simp: Let_def prod_eq_iff split: option.splits)
  qed
qed

text \<open>A peer that sends enough is stored in full: exactly \<open>file_size\<close> bytes, in order.\<close>

lemma recv_loop_whole:
  fixes incoming stored :: "'w \<Rightarrow> byte list"
  assumes recv: "\<And>k w. 0 < k \<Longrightarrow> incoming w \<noteq> [] \<Longrightarrow> \<exists>d w'. sys_recv os fd k w = (Some d, w') \<and> d \<noteq> [] \<and>
      length d \<le> k \<and> incoming w = d @ incoming w' \<and> stored w' = stored w"
    and wr: "\<And>d w. \<exists>w'. sys_write os f d w = (int (length d), w') \<and> incoming w' = incoming w \<and>
      stored w' = stored w @ d"
    and len: "n \<le> length (incoming w)"
  shows "\<exists>w'. recv_loop os fd f n w = (0, w') \<and> stored w' = stored w @ take n (incoming w)"
  using len
proof (induction n arbitrary: w rule: less_induct)
  case (less n)
  show ?case
  proof (cases "n = 0")
    case True
    then show ?thesis by (subst recv_loop.simps) simp
  next
    case False
    with less.prems have "0 < min 4096 n" "incoming w \<noteq> []" by auto
    then obtain d w1 where d: "sys_recv os fd (min 4096 n) w = (Some d, w1)" "d \<noteq> []"
      "length d \<le> min 4096 n" "incoming w = d @ incoming w1" "stored w1 = stored w"
      using recv by meson
    obtain w2 where w2: "sys_write os f d w1 = (int (length d), w2)" "incoming w2 = incoming w1"
      "stored w2 = stored w1 @ d" using wr by meson
    have "n - length d < n" using d(2) False by simp
    moreover have "n - length d \<le> length (incoming w2)" using less.prems d(4) w2(2) by simp
    ultimately obtain w' where ih: "recv_loop os fd f (n - length d) w2 = (0, w')"
      "stored w' = stored w2 @ take (n - length d) (incoming w2)"
      using less.IH by blast
    have "recv_loop os fd f n w = (0, w')"
      using d(1,2) w2(1) ih(1) False by (subst recv_loop.simps) simp
    moreover have "stored w' = stored w @ take n (incoming w)"
      using ih(2) w2(2,3) d(3,4,5) by simp
    ultimately show ?thesis by blast
  qed
qed

lemma process_upload_jobs:
  "process_upload os now job jobs1 jobs2 w = (out, jobs3, w') \<Longrightarrow>
   jobs3 = jobs2 \<or> jobs3 = count_file (uj_client_id job) (uj_job_id job) now jobs2"
  by (auto simp: process_upload_def split: option.splits prod.splits transfer_outcome.splits)

section \<open>Properties\<close>

text \<open>
  C5: No upload is lost or duplicated: through any interleaving of requests and threads taking
  jobs, the queue never faults and what was enqueued is what was taken plus what is still queued.
\<close>

theorem upload_queue_conserves_jobs:
  "\<exists>out q. run_ops (enqueue_upload True) g_pop (\<lambda>q. g_size q = 0) ops g_init = Inr (out, q) \<and>
     uploads_inv q \<and> mset (enqueued ops) = mset out + mset (g_list q)"
  using upq.run_total [OF uploads_inv_init, of ops] by (simp add: g_list_init)

text \<open>
  C7: The shifting loop of \<open>handle_upload_request\<close> is insertion into a list ordered by priority:
  the job goes behind all jobs of at least its priority and before the first of a lower one, so
  jobs of equal priority leave in arrival order.
\<close>

theorem upload_insert_is_ordered_insert:
  assumes "uploads_inv q"
  shows "\<exists>q'. enqueue_upload True q j = Inr q' \<and> uploads_inv q' \<and>
    g_list q' = filter (\<lambda>k. uj_priority j \<le> uj_priority k) (g_list q) @ j #
      filter (\<lambda>k. uj_priority k < uj_priority j) (g_list q)"
proof -
  obtain q' where q': "enqueue_upload True q j = Inr q'" "uploads_inv q'"
    "g_list q' = ordered_insert higher_priority (g_list q) j"
    using enqueue_upload_ok [OF assms] by blast
  have "sorted_wrt (\<lambda>a b. uj_priority b \<le> uj_priority a) (g_list q)"
    using assms by (simp add: uploads_inv_def)
  with q' show ?thesis
    by (simp add: higher_priority_key ordered_insert_partition)
qed

theorem upload_insert_is_ordered_insert_witness:
  "\<exists>q'. enqueue_upload True g_init (new_upload_job \<lparr>uq_type = 6, uq_message_id = 1,
       uq_client_id = replicate 16 3, uq_job_id = 5, uq_file_size = 9, uq_name_len = 1\<rparr> ''a'' 0) = Inr q' \<and>
     uploads_inv q'"
  using upload_insert_is_ordered_insert [OF uploads_inv_init] by blast

text \<open>
  C6: The next upload is a smallest one: as long as no file is larger than 2^52 bytes, where the
  double \<open>1.0 / file_size\<close> still tells sizes apart, the job a thread takes has the least
  \<open>file_size\<close> of all jobs in the queue.
\<close>

theorem smallest_upload_first:
  assumes "uploads_inv q" "\<forall>j \<in> set (g_list q). upload_job_inv j \<and> unat (uj_file_size j) \<le> 2 ^ 52"
    and "g_size q \<noteq> 0"
  shows "\<exists>j q'. g_pop q = Inr (j, q') \<and> g_list q = j # g_list q' \<and>
    (\<forall>k \<in> set (g_list q'). unat (uj_file_size j) \<le> unat (uj_file_size k))"
proof -
  obtain j q' where pop: "g_pop q = Inr (j, q')" "g_list q = j # g_list q'"
    using dequeue_upload_ok [OF assms(1,3)] by blast
  have "unat (uj_file_size j) \<le> unat (uj_file_size k)" if "k \<in> set (g_list q')" for k
  proof (rule ccontr)
    assume "\<not> unat (uj_file_size j) \<le> unat (uj_file_size k)"
    then have "uj_file_size k < uj_file_size j" by (simp add: word_less_nat_alt)
    moreover have "unat (uj_file_size j) \<le> 2 ^ 52" using assms(2) pop(2) by simp
    ultimately have "upload_priority (uj_file_size j) < upload_priority (uj_file_size k)"
      by (rule upload_priority_strict)
    moreover have "uj_priority k \<le> uj_priority j"
      using assms(1) pop(2) that by (simp add: uploads_inv_def)
    ultimately show False using assms(2) pop(2) that by (simp add: upload_job_inv_def)
  qed
  with pop show ?thesis by blast
qed

theorem smallest_upload_first_witness:
  "let req = \<lambda>n. \<lparr>uq_type = 6, uq_message_id = 1, uq_client_id = replicate 16 3, uq_job_id = 5,
         uq_file_size = n, uq_name_len = 1\<rparr>;
       q = \<lparr>g_slots = [Some (new_upload_job (req 5) ''a'' 0), Some (new_upload_job (req 9) ''b'' 0)],
            g_size = 2, g_capacity = 2\<rparr>
   in \<exists>j q'. g_pop q = Inr (j, q') \<and> g_list q = j # g_list q' \<and>
        (\<forall>k \<in> set (g_list q'). unat (uj_file_size j) \<le> unat (uj_file_size k))"
proof -
  let ?req = "\<lambda>n. \<lparr>uq_type = 6, uq_message_id = 1, uq_client_id = replicate 16 3, uq_job_id = 5,
         uq_file_size = n, uq_name_len = 1\<rparr>"
  let ?a = "new_upload_job (?req 5) ''a'' 0" and ?b = "new_upload_job (?req 9) ''b'' 0"
  let ?q = "\<lparr>g_slots = [Some ?a, Some ?b], g_size = 2, g_capacity = 2\<rparr>"
  have l: "g_list ?q = [?a, ?b]" by (simp add: g_list_def)
  have "upload_priority 9 \<le> upload_priority 5" by (rule upload_priority_antimono) simp
  then have "uploads_inv ?q"
    unfolding uploads_inv_def l by (auto simp: g_inv_def less_2_cases_iff new_upload_job_def)
  moreover have "\<forall>j \<in> set (g_list ?q). upload_job_inv j \<and> unat (uj_file_size j) \<le> 2 ^ 52"
    unfolding l using upload_job_inv_new [of "?req 5" "''a''" 0] upload_job_inv_new [of "?req 9" "''b''" 0]
    by (simp add: id16_def) (simp add: new_upload_job_def)
  ultimately show ?thesis unfolding Let_def by (rule smallest_upload_first) simp
qed

text \<open>
  C18: A peer that delivers enough data has its file stored in full and in order, in blocks of at
  most 4096 bytes, and the job is credited with one file.
\<close>

theorem upload_stores_whole_file:
  fixes incoming stored :: "'w \<Rightarrow> byte list"
  assumes recv: "\<And>fd k w. 0 < k \<Longrightarrow> incoming w \<noteq> [] \<Longrightarrow> \<exists>d w'. sys_recv os fd k w = (Some d, w') \<and>
      d \<noteq> [] \<and> length d \<le> k \<and> incoming w = d @ incoming w' \<and> stored w' = stored w"
    and wr: "\<And>f d w. \<exists>w'. sys_write os f d w = (int (length d), w') \<and> incoming w' = incoming w \<and>
      stored w' = stored w @ d"
    and acc: "sys_accept os w = (Some (fd, peer), w1)"
    and opn: "sys_open_write os (file_path (uj_client_id job) (uj_job_id job) (uj_filename job)) w1 = (Some f, w2)"
    and cls: "\<And>fd w. stored (sys_close os fd w) = stored w"
    and len: "unat (uj_file_size job) \<le> length (incoming w2)"
    and reg: "first_idx (same_job (uj_client_id job) (uj_job_id job)) jobs1 \<noteq> None"
  shows "\<exists>w'. process_upload os now job jobs1 jobs2 w =
      (Received (unat (uj_file_size job)), count_file (uj_client_id job) (uj_job_id job) now jobs2, w') \<and>
    stored w' = stored w2 @ take (unat (uj_file_size job)) (incoming w2)"
proof -
  obtain w3 where "recv_loop os fd f (unat (uj_file_size job)) w2 = (0, w3)"
    "stored w3 = stored w2 @ take (unat (uj_file_size job)) (incoming w2)"
    using recv_loop_whole [of incoming os fd stored f, OF recv wr len] by blast
  with acc opn cls reg show ?thesis by (auto simp: process_upload_def receive_file_def)
qed

theorem upload_stores_whole_file_witness:
  "let j = new_upload_job \<lparr>uq_type = 6, uq_message_id = 1, uq_client_id = replicate 16 3, uq_job_id = 5,
         uq_file_size = 2, uq_name_len = 1\<rparr> ''a'' 0;
       p = new_pending_job (replicate 16 3) \<lparr>sin_addr = 2, sin_port = 3\<rparr> 5 ''ls'' 1 0
   in \<exists>w'. process_upload pipe_os 9 j [p] [p] ([7, 8, 9], []) =
        (Received 2, count_file (replicate 16 3) 5 9 [p], w') \<and> snd w' = [7, 8]"
proof -
  let ?j = "new_upload_job \<lparr>uq_type = 6, uq_message_id = 1, uq_client_id = replicate 16 3, uq_job_id = 5,
         uq_file_size = 2, uq_name_len = 1\<rparr> ''a'' 0"
    and ?p = "new_pending_job (replicate 16 3) \<lparr>sin_addr = 2, sin_port = 3\<rparr> 5 ''ls'' 1 0"
    and ?w = "([7, 8, 9], []) :: byte list \<times> byte list"
  have "\<exists>w'. process_upload pipe_os 9 ?j [?p] [?p] ?w =
      (Received (unat (uj_file_size ?j)), count_file (uj_client_id ?j) (uj_job_id ?j) 9 [?p], w') \<and>
      snd w' = snd ?w @ take (unat (uj_file_size ?j)) (fst ?w)"
    by (rule upload_stores_whole_file [where incoming = "fst :: byte list \<times> byte list \<Rightarrow> byte list" and stored = snd and peer = "\<lparr>sin_addr = 0, sin_port = 0\<rparr>" and
          fd = 5 and f = 4 and ?w1.0 = ?w and ?w2.0 = ?w])
      (auto simp: pipe_os_def new_upload_job_def new_pending_job_def same_job_def)
  then show ?thesis by (simp add: new_upload_job_def)
qed

text \<open>
  C19: A transfer that breaks off is credited all the same: once a connection was accepted and the
  file opened, the job's counter goes up by one file, however few of the announced bytes arrived,
  down to none when the first \<open>recv\<close> fails or finds the connection closed.
\<close>

theorem upload_counted_whatever_arrives:
  assumes "sys_accept os w = (Some (fd, peer), w1)"
    and "sys_open_write os (file_path (uj_client_id job) (uj_job_id job) (uj_filename job)) w1 = (Some f, w2)"
    and "first_idx (same_job (uj_client_id job) (uj_job_id job)) jobs1 \<noteq> None"
  shows "\<exists>n w'. process_upload os now job jobs1 jobs2 w =
      (Received n, count_file (uj_client_id job) (uj_job_id job) now jobs2, w') \<and>
    n \<le> unat (uj_file_size job) \<and>
    (fst (sys_recv os fd (min 4096 (unat (uj_file_size job))) w2) \<in> {None, Some []} \<longrightarrow> n = 0)"
proof -
  let ?n = "unat (uj_file_size job)"
  have "fst (recv_loop os fd f ?n w2) = ?n"
    if "fst (sys_recv os fd (min 4096 ?n) w2) \<in> {None, Some []}"
    using that by (subst recv_loop.simps) (auto simp: Let_def)
  with assms show ?thesis
    by (auto simp: process_upload_def receive_file_def case_prod_unfold)
qed

theorem upload_counted_whatever_arrives_witness:
  "let j = new_upload_job \<lparr>uq_type = 6, uq_message_id = 1, uq_client_id = replicate 16 3, uq_job_id = 5,
         uq_file_size = 200, uq_name_len = 1\<rparr> ''a'' 0;
       p = new_pending_job (replicate 16 3) \<lparr>sin_addr = 2, sin_port = 3\<rparr> 5 ''ls'' 1 0
   in \<exists>w'. process_upload pipe_os 9 j [p] [p] ([], []) =
        (Received 0, [p\<lparr>pj_files_received := 1, pj_last_update := 9\<rparr>], w')"
proof -
  let ?j = "new_upload_job \<lparr>uq_type = 6, uq_message_id = 1, uq_client_id = replicate 16 3, uq_job_id = 5,
         uq_file_size = 200, uq_name_len = 1\<rparr> ''a'' 0"
    and ?p = "new_pending_job (replicate 16 3) \<lparr>sin_addr = 2, sin_port = 3\<rparr> 5 ''ls'' 1 0"
    and ?w = "([], []) :: byte list \<times> byte list"
  have "\<exists>n w'. process_upload pipe_os 9 ?j [?p] [?p] ?w =
      (Received n, count_file (uj_client_id ?j) (uj_job_id ?j) 9 [?p], w') \<and>
      n \<le> unat (uj_file_size ?j) \<and>
      (fst (sys_recv pipe_os 5 (min 4096 (unat (uj_file_size ?j))) ?w) \<in> {None, Some []} \<longrightarrow> n = 0)"
    by (rule upload_counted_whatever_arrives [where peer = "\<lparr>sin_addr = 0, sin_port = 0\<rparr>" and
          ?w1.0 = ?w and f = 4])
      (simp_all add: pipe_os_def new_upload_job_def new_pending_job_def same_job_def)
  then show ?thesis
    by (auto simp: pipe_os_def new_upload_job_def new_pending_job_def count_file_def idx_simps same_job_def)
qed

end
