(* ===== verification/Clients.thy ===== *)
theory Clients
  imports System
begin

section \<open>The client table (server.c, kick\_client\_by\_id of admin\_handler.c)\<close>

text \<open>
  The array \<open>clients\<close> of \<open>ClientInfo\<close> with its count: a client is appended when it asks for an
  identifier, its heartbeat and address are refreshed by \<open>HEARTBEAT\<close> messages, it is dropped when
  it was silent for \<open>HEARTBEAT_TIMEOUT\<close> seconds or when the administrator kicks it. All accesses
  hold \<open>clients_mutex\<close>, so each function here is one atomic step. The array is the list of its
  first \<open>client_count\<close> elements; a failing \<open>realloc\<close> when growing is a null dereference.
\<close>

record client_info =
  ci_id :: "byte list"
  ci_addr :: sockaddr_in
  ci_heartbeat :: int

text \<open>\<open>generate_client_id\<close>: \<open>rand () % 256\<close> for each of the 16 bytes; \<open>rand\<close> is not negative.\<close>

definition generate_client_id :: "int list \<Rightarrow> byte list" where
  "generate_client_id rs = map (\<lambda>r. of_int (r mod 256)) (take 16 rs)"

definition register_client ::
  "bool \<Rightarrow> byte list \<Rightarrow> sockaddr_in \<Rightarrow> int \<Rightarrow> client_info list \<Rightarrow> client_info list result" where
  "register_client alloc cid addr now cs =
     (if alloc then Inr (cs @ [\<lparr>ci_id = cid, ci_addr = addr, ci_heartbeat = now\<rparr>])
      else Inl Null_Deref)"

text \<open>The search loop of the \<open>HEARTBEAT\<close> case.\<close>

definition touch_client ::
  "byte list \<Rightarrow> sockaddr_in \<Rightarrow> int \<Rightarrow> client_info list \<Rightarrow> client_info list" where
  "touch_client cid addr now cs =
     update_first (\<lambda>c. ci_id c = cid) (\<lambda>c. c\<lparr>ci_heartbeat := now, ci_addr := addr\<rparr>) cs"

text \<open>
  \<open>cleanup_dead_clients\<close> compacts the array in place: \<open>i\<close> reads, \<open>n\<close> (\<open>new_count\<close>) writes.
\<close>

function cleanup_loop ::
  "int \<Rightarrow> int \<Rightarrow> nat \<Rightarrow> nat \<Rightarrow> client_info list \<Rightarrow> nat \<times> client_info list" where
  "cleanup_loop now timeout i n a =
     (if i < length a
      then if now - ci_heartbeat (a ! i) < timeout
           then cleanup_loop now timeout (i + 1) (n + 1) (a[n := a ! i])
           else cleanup_loop now timeout (i + 1) n a
      else (n, a))"
  by pat_completeness auto
termination
  by (relation "measure (\<lambda>(now, timeout, i, n, a). length a - i)") auto

declare cleanup_loop.simps [simp del]

definition cleanup_dead_clients :: "int \<Rightarrow> int \<Rightarrow> client_info list \<Rightarrow> client_info list" where
  "cleanup_dead_clients timeout now cs =
     (let (new_count, a) = cleanup_loop now timeout 0 0 cs
      in if new_count < length cs then take new_count a else a)"

text \<open>
  \<open>kick_client_by_id\<close>: the address to which the notice goes, if the client exists, and the
  table without it.
\<close>

definition kick_msg :: string where
  "kick_msg = ''You have been kicked by the admin.'' @ [CHR 0x0A]"

definition kick_client_by_id ::
  "byte list \<Rightarrow> client_info list \<Rightarrow> sockaddr_in option \<times> client_info list" where
  "kick_client_by_id cid cs =
     (case first_idx (\<lambda>c. ci_id c = cid) cs of
        None \<Rightarrow> (None, cs)
      | Some i \<Rightarrow> (Some (ci_addr (cs ! i)), remove_nth i cs))"

text \<open>The check of the download thread: a registered client with this identifier and address.\<close>

definition client_valid :: "byte list \<Rightarrow> 32 word \<Rightarrow> client_info list \<Rightarrow> bool" where
  "client_valid cid ip cs =
     (first_idx (\<lambda>c. ci_id c = cid \<and> sin_addr (ci_addr c) = ip) cs \<noteq> None)"

definition clients_inv :: "client_info list \<Rightarrow> bool" where
  "clients_inv cs \<longleftrightarrow> (\<forall>c \<in> set cs. id16 (ci_id c))"

section \<open>Lemmas\<close>

lemma id16_generate: "length rs = 16 \<Longrightarrow> id16 (generate_client_id rs)"
  by (simp add: generate_client_id_def id16_def)

text \<open>
  In-place compaction is filtering: what was read so far has been filtered into the front of
  the array, what was not is still there.
\<close>

lemma cleanup_loop_filter:
  assumes "n \<le> i" "i \<le> length a"
  shows "\<exists>m b. cleanup_loop now timeout i n a = (m, b) \<and> length b = length a \<and> m \<le> length a \<and>
    take m b = take n a @ filter (\<lambda>c. now - ci_heartbeat c < timeout) (drop i a)"
  using assms
proof (induction now timeout i n a rule: cleanup_loop.induct)
  case (1 now timeout i n a)
  let ?P = "\<lambda>c. now - ci_heartbeat c < timeout"
  show ?case
  proof (cases "i < length a")
    case False
    with "1.prems" show ?thesis by (subst cleanup_loop.simps) simp
  next
    case i: True
    then have d: "drop i a = a ! i # drop (i + 1) a" by (simp add: Cons_nth_drop_Suc)
    show ?thesis
    proof (cases "?P (a ! i)")
      case True
      let ?a = "a[n := a ! i]"
      have "take (n + 1) ?a = take n a @ [a ! i]"
        using "1.prems" i by (simp add: take_Suc_conv_app_nth)
      moreover have "drop (i + 1) ?a = drop (i + 1) a"
        using "1.prems" by (simp add: drop_update_swap)
      ultimately show ?thesis
        using "1.IH"(1) [OF i True] "1.prems" i True d by (subst cleanup_loop.simps) simp
    next
      case False
      then show ?thesis
        using "1.IH"(2) [OF i False] "1.prems" i d by (subst cleanup_loop.simps) simp
    qed
  qed
qed

lemma cleanup_is_filter:
  "cleanup_dead_clients timeout now cs = filter (\<lambda>c. now - ci_heartbeat c < timeout) cs"
proof -
  obtain m b where mb: "cleanup_loop now timeout 0 0 cs = (m, b)" "length b = length cs"
    "m \<le> length cs" "take m b = filter (\<lambda>c. now - ci_heartbeat c < timeout) cs"
    using cleanup_loop_filter [of 0 0 cs now timeout] by auto
  then show ?thesis by (auto simp: cleanup_dead_clients_def)
qed

lemma clients_inv_register:
  "clients_inv cs \<Longrightarrow> id16 cid \<Longrightarrow> register_client alloc cid addr now cs = Inr cs' \<Longrightarrow> clients_inv cs'"
  by (auto simp: clients_inv_def register_client_def split: if_splits)

lemma clients_inv_touch: "clients_inv cs \<Longrightarrow> clients_inv (touch_client cid addr now cs)"
  by (auto simp: clients_inv_def touch_client_def dest!: update_first_set)

lemma clients_inv_cleanup: "clients_inv cs \<Longrightarrow> clients_inv (cleanup_dead_clients t now cs)"
  by (auto simp: clients_inv_def cleanup_is_filter)

lemma clients_inv_kick: "clients_inv cs \<Longrightarrow> clients_inv (snd (kick_client_by_id cid cs))"
  using set_remove_nth by (fastforce simp: clients_inv_def kick_client_by_id_def split: option.splits)


lemma client_valid_iff:
  "client_valid cid ip cs \<longleftrightarrow> (\<exists>c \<in> set cs. ci_id c = cid \<and> sin_addr (ci_addr c) = ip)"
  by (auto simp: client_valid_def idx_simps)


section \<open>Properties\<close>

text \<open>
  C34: The in-place compaction of \<open>cleanup_dead_clients\<close> is a filter: exactly the clients heard of
  less than \<open>timeout\<close> seconds ago remain, in their order.
\<close>

theorem cleanup_equals_filter:
  "cleanup_dead_clients timeout now cs = filter (\<lambda>c. now - ci_heartbeat c < timeout) cs"
  by (rule cleanup_is_filter)



text \<open>
  A kick removes exactly the first client with the identifier, whose address gets the notice; an
  unknown identifier changes nothing.
\<close>

lemma kick_removes_one:
  "case kick_client_by_id cid cs of
     (None, cs') \<Rightarrow> cs' = cs \<and> cid \<notin> ci_id ` set cs
   | (Some addr, cs') \<Rightarrow> \<exists>c pre post. cs = pre @ c # post \<and> cs' = pre @ post \<and> ci_id c = cid \<and>
       ci_addr c = addr \<and> cid \<notin> ci_id ` set pre"
proof (cases "first_idx (\<lambda>c. ci_id c = cid) cs")
  case None
  then show ?thesis using first_idx_None [of "\<lambda>c. ci_id c = cid" cs] by (auto simp: kick_client_by_id_def)
next
  case (Some i)
  from first_idx_Some [OF Some] have i: "i < length cs" "ci_id (cs ! i) = cid"
    "\<forall>j < i. ci_id (cs ! j) \<noteq> cid" by auto
  then have "cs = take i cs @ cs ! i # drop (Suc i) cs" by (simp add: id_take_nth_drop)
  moreover have "cid \<notin> ci_id ` set (take i cs)"
    using i by (fastforce simp: in_set_conv_nth)
  ultimately show ?thesis
    using Some i by (auto simp: kick_client_by_id_def remove_nth_def)
qed

end
