(* ===== verification/Downloads.thy ===== *)
theory Downloads
  imports Clients JobQueues
begin

section \<open>Download requests and the download thread (upload\_handler.c, server.c)\<close>

text \<open>
  \<open>handle_download_request\<close> answers \<open>DOWNLOAD_ACK\<close> with the size of the file and, if the file
  exists, appends a \<open>DownloadJob\<close> to the queue. \<open>download_thread\<close> accepts a connection, waits for
  the first job of the queue, checks that a client with the job's identifier is registered from
  the peer's address and sends the file. The send loop runs until \<open>read\<close> returns no data, which
  no bound of the program limits, so it is a partial function with \<open>None\<close> for a run that never
  ends.
\<close>

record download_job =
  dj_client_id :: "byte list"
  dj_job_id :: "32 word"
  dj_filename :: string
  dj_message_id :: "32 word"
  dj_addr :: sockaddr_in

definition new_download_job :: "download_request \<Rightarrow> string \<Rightarrow> sockaddr_in \<Rightarrow> download_job" where
  "new_download_job req filename addr =
     \<lparr>dj_client_id = dq_client_id req, dj_job_id = dq_job_id req,
      dj_filename = strncpy_term MAX_FILENAME_LEN filename,
      dj_message_id = dq_message_id req, dj_addr = addr\<rparr>"

definition enqueue_download ::
  "bool \<Rightarrow> download_job growable \<Rightarrow> download_job \<Rightarrow> download_job growable result" where
  "enqueue_download alloc q j = rbind (g_grow alloc q) (\<lambda>q1. g_push q1 j)"

definition download_ack_bytes ::
  "byte list \<Rightarrow> download_request \<Rightarrow> string \<Rightarrow> status_code \<Rightarrow> 64 word \<Rightarrow> byte list" where
  "download_ack_bytes mem req filename st fsize =
     (let r = \<lparr>dr_type = message_code DOWNLOAD_ACK, dr_message_id = dq_message_id req,
               dr_status = status_byte st, dr_file_size = fsize,
               dr_name_len = of_nat (length filename)\<rparr>
      in store_download_response mem r @ bytes_of filename)"

definition handle_download_request ::
  "'w os \<Rightarrow> env \<Rightarrow> download_request \<Rightarrow> string \<Rightarrow> sockaddr_in \<Rightarrow> download_job growable \<Rightarrow> 'w \<Rightarrow>
   (download_job growable \<times> byte list \<times> 'w) result" where
  "handle_download_request os e req filename addr q w =
     (let path = file_path (dq_client_id req) (dq_job_id req) filename;
          mem = take 32 (e_mem e)
      in case sys_stat os path w of
           None \<Rightarrow>
             if e_alloc e
             then Inr (q, download_ack_bytes mem req filename STATUS_FILE_NOT_FOUND 0, w)
             else Inl Null_Deref
         | Some st \<Rightarrow>
             if e_alloc e
             then rbind (enqueue_download (e_alloc e) q (new_download_job req filename addr)) (\<lambda>q1.
                  Inr (q1, download_ack_bytes mem req filename STATUS_OK (st_size st),
                       sys_chmod os path w))
             else Inl Null_Deref)"

subsection \<open>The download thread\<close>

text \<open>The blocks handed to \<open>send\<close>, in order; a short \<open>send\<close> or the end of the file ends the loop.\<close>

partial_function (option) send_loop ::
  "'w os \<Rightarrow> nat \<Rightarrow> nat \<Rightarrow> byte list list \<Rightarrow> 'w \<Rightarrow> (byte list list \<times> 'w) option" where
  "send_loop os file fd out w =
     (let r = sys_read os file 4096 w in
      case fst r of
        None \<Rightarrow> Some (out, snd r)
      | Some data \<Rightarrow>
          if data = [] then Some (out, snd r)
          else let s = sys_send os fd data (snd r) in
               if fst s \<noteq> int (length data) then Some (out @ [data], snd s)
               else send_loop os file fd (out @ [data]) (snd s))"

datatype download_outcome = Rejected | Open_Error | Sent "byte list list"

text \<open>
  One turn of \<open>download_thread\<close> after \<open>accept\<close> returned the connection \<open>fd\<close> from \<open>peer\<close> and a
  job became available. \<open>cs\<close> is the client table when the thread looks.
\<close>

definition serve_download ::
  "'w os \<Rightarrow> client_info list \<Rightarrow> nat \<Rightarrow> sockaddr_in \<Rightarrow> download_job growable \<Rightarrow> 'w \<Rightarrow>
   (download_outcome \<times> download_job growable \<times> 'w) option result" where
  "serve_download os cs fd peer q w =
     rbind (g_pop q) (\<lambda>(job, q1).
     if \<not> client_valid (dj_client_id job) (sin_addr peer) cs
     then Inr (Some (Rejected, q1, sys_close os fd w))
     else
       let f = sys_open_read os (file_path (dj_client_id job) (dj_job_id job) (dj_filename job)) w in
       case fst f of
         None \<Rightarrow> Inr (Some (Open_Error, q1, sys_close os fd (snd f)))
       | Some file \<Rightarrow>
           Inr (map_option (\<lambda>(out, w1). (Sent out, q1, sys_close os fd (sys_close os file w1)))
                  (send_loop os file fd [] (snd f))))"

definition download_job_inv :: "download_job \<Rightarrow> bool" where
  "download_job_inv j \<longleftrightarrow> id16 (dj_client_id j) \<and> length (dj_filename j) < MAX_FILENAME_LEN \<and>
     NUL \<notin> set (dj_filename j)"

section \<open>Lemmas\<close>

lemma download_job_inv_new:
  "id16 (dq_client_id req) \<Longrightarrow> download_job_inv (new_download_job req filename addr)"
  using length_strncpy_term [of MAX_FILENAME_LEN filename]
  by (simp add: download_job_inv_def new_download_job_def protocol_consts)

lemma enqueue_download_ok:
  assumes "g_inv q"
  shows "\<exists>q'. enqueue_download True q j = Inr q' \<and> g_inv q' \<and> g_list q' = g_list q @ [j]"
proof -
  obtain q1 where q1: "g_grow True q = Inr q1" "g_inv q1" "g_list q1 = g_list q"
    "g_size q1 < g_capacity q1"
    using g_grow_ok [OF assms] by blast
  with g_push_ok [OF q1(2,4), of j] show ?thesis by (auto simp: enqueue_download_def)
qed

interpretation downq: fifo_queue "enqueue_download True" g_pop "\<lambda>q. g_size q = 0" g_list
  g_inv "\<lambda>xs x. xs @ [x]"
  by unfold_locales (auto simp: enqueue_download_ok g_pop_ok g_list_Nil)


section \<open>Properties\<close>

text \<open>
  C15: Downloads are served in the order of the requests: through any interleaving of requests
  and the thread's turns, what was enqueued is, in order, what was taken followed by what is
  still queued.
\<close>

theorem download_queue_fifo:
  "\<exists>out q. run_ops (enqueue_download True) g_pop (\<lambda>q. g_size q = 0) ops g_init = Inr (out, q) \<and>
     g_inv q \<and> enqueued ops = out @ g_list q"
proof -
  obtain out q where r: "run_ops (enqueue_download True) g_pop (\<lambda>q. g_size q = 0) ops g_init = Inr (out, q)"
    "g_inv q" using downq.run_total [OF g_inv_init, of ops] by blast
  from downq.run_order [OF g_inv_init r(1)] r show ?thesis by (simp add: g_list_init)
qed

text \<open>
  C16: A file leaves the server only for a client that is registered under the job's identifier
  from the address of the peer that connected, and the job served is the oldest one.
\<close>

theorem download_needs_registered_client:
  assumes "g_inv q" "g_size q \<noteq> 0"
    and "serve_download os cs fd peer q w = Inr (Some (Sent blocks, q', w'))"
  shows "\<exists>job. g_list q = job # g_list q' \<and>
    (\<exists>c \<in> set cs. ci_id c = dj_client_id job \<and> sin_addr (ci_addr c) = sin_addr peer)"
proof -
  obtain job q1 where pop: "g_pop q = Inr (job, q1)" "g_list q = job # g_list q1"
    using g_pop_ok [OF assms(1,2)] by blast
  with assms(3) have "client_valid (dj_client_id job) (sin_addr peer) cs" "q' = q1"
    by (auto simp: serve_download_def Let_def split: if_splits option.splits)
  with pop(2) show ?thesis by (auto simp: client_valid_iff)
qed



theorem download_needs_registered_client_witness:
  "let j = \<lparr>dj_client_id = replicate 16 3, dj_job_id = 5, dj_filename = ''a'', dj_message_id = 1,
         dj_addr = \<lparr>sin_addr = 2, sin_port = 3\<rparr>\<rparr>;
       q = \<lparr>g_slots = [Some j], g_size = 1, g_capacity = 1\<rparr>;
       c = \<lparr>ci_id = replicate 16 3, ci_addr = \<lparr>sin_addr = 2, sin_port = 9\<rparr>, ci_heartbeat = 0\<rparr>
   in \<exists>blocks q' w'. serve_download pipe_os [c] 5 \<lparr>sin_addr = 2, sin_port = 8\<rparr> q ([], []) =
        Inr (Some (Sent blocks, q', w')) \<and> (\<exists>job. g_list q = job # g_list q' \<and>
        (\<exists>d \<in> set [c]. ci_id d = dj_client_id job \<and> sin_addr (ci_addr d) = 2))"
proof -
  let ?j = "\<lparr>dj_client_id = replicate 16 3, dj_job_id = 5, dj_filename = ''a'', dj_message_id = 1,
         dj_addr = \<lparr>sin_addr = 2, sin_port = 3\<rparr>\<rparr>"
    and ?c = "\<lparr>ci_id = replicate 16 3, ci_addr = \<lparr>sin_addr = 2, sin_port = 9\<rparr>, ci_heartbeat = 0\<rparr>"
    and ?p = "\<lparr>sin_addr = 2, sin_port = 8\<rparr>"
  let ?q = "\<lparr>g_slots = [Some ?j], g_size = 1, g_capacity = 1\<rparr>"
  have "send_loop pipe_os 3 5 [] ([], []) = Some ([], ([], []))"
    by (subst send_loop.simps) (simp add: pipe_os_def)
  then have r: "serve_download pipe_os [?c] 5 ?p ?q ([], []) =
      Inr (Some (Sent [], \<lparr>g_slots = [Some ?j], g_size = 0, g_capacity = 1\<rparr>, ([], [])))"
    by (simp add: serve_download_def g_pop_def peek_def client_valid_def) (simp add: pipe_os_def)
  have "g_inv ?q" by (simp add: g_inv_def)
  from download_needs_registered_client [OF this _ r] r show ?thesis
    unfolding Let_def
    by (intro exI [of _ "[]"] exI [of _ "\<lparr>g_slots = [Some ?j], g_size = 0, g_capacity = 1\<rparr>"]
        exI [of _ "([], [])"] conjI) simp_all
qed

end
