(* ===== verification/Server.thy ===== *)
theory Server
  imports Uploads Downloads
begin

section \<open>The server's state and its UDP messages (server.c)\<close>

text \<open>
  The globals of the server are the record \<open>server\<close>; \<open>sv_sent\<close> is the trace of datagrams handed
  to \<open>sendto\<close>, whose result the code ignores. \<open>handle_udp_message\<close> works on the receive buffer of
  \<open>client_thread\<close>, which is 2048 bytes long and keeps its contents between messages: a struct is
  read out of it without a look at how many bytes arrived, and a terminator is stored behind the
  variable part. The handlers return the buffer as they leave it.
\<close>

definition BUFFER_SIZE :: nat where "BUFFER_SIZE = 2048"
definition MAX_UPLOADS :: nat where "MAX_UPLOADS = 20"

record 'w server =
  sv_clients :: "client_info list"
  sv_jobs :: "pending_job list"
  sv_uploads :: "upload_job growable"
  sv_downloads :: "download_job growable"
  sv_log :: log_queue
  sv_max_uploads :: int
  sv_sent :: "(sockaddr_in \<times> byte list) list"
  sv_world :: 'w

text \<open>The globals when \<open>main\<close> starts its threads.\<close>

definition server_init :: "'w \<Rightarrow> 'w server" where
  "server_init w =
     \<lparr>sv_clients = [], sv_jobs = [], sv_uploads = g_init, sv_downloads = g_init,
      sv_log = log_queue_init global_log_queue, sv_max_uploads = int MAX_UPLOADS,
      sv_sent = [], sv_world = w\<rparr>"

definition reply :: "sockaddr_in \<Rightarrow> byte list \<Rightarrow> 'w server \<Rightarrow> 'w server" where
  "reply addr data s = s\<lparr>sv_sent := sv_sent s @ [(addr, data)]\<rparr>"

subsection \<open>CLIENT\_ID\_REQ and HEARTBEAT\<close>

definition handle_client_id_req ::
  "env \<Rightarrow> sockaddr_in \<Rightarrow> byte list \<Rightarrow> 'w server \<Rightarrow> 'w server result" where
  "handle_client_id_req e addr buf s =
     (let req = load_client_id_request buf;
          cid = generate_client_id (e_rand e);
          resp = \<lparr>cr_type = message_code CLIENT_ID_ACK, cr_message_id = cq_message_id req,
                  cr_client_id = cid\<rparr>
      in rbind (register_client (e_alloc e) cid addr (e_now e) (sv_clients s)) (\<lambda>cs.
         rbind (log_append ''[CLIENT]'' (e_time_str e)
                  (''Assigned client_id='' @ short_id cid @ '' to '' @ show_addr addr) (sv_log s)) (\<lambda>lg.
         Inr (reply addr (store_client_id_response (take 24 (e_mem e)) resp)
                (s\<lparr>sv_clients := cs, sv_log := lg\<rparr>)))))"

definition handle_heartbeat ::
  "env \<Rightarrow> sockaddr_in \<Rightarrow> byte list \<Rightarrow> 'w server \<Rightarrow> 'w server result" where
  "handle_heartbeat e addr buf s =
     (let cid = hb_client_id (load_heartbeat buf)
      in if first_idx (\<lambda>c. ci_id c = cid) (sv_clients s) = None then Inr s
         else rbind (log_append ''[CLIENT]'' (e_time_str e)
                       (''Updated hearbeat for client '' @ short_id cid) (sv_log s)) (\<lambda>lg.
              Inr (s\<lparr>sv_clients := touch_client cid addr (e_now e) (sv_clients s), sv_log := lg\<rparr>)))"

subsection \<open>Messages with a variable part\<close>

text \<open>
  The common start of the \<open>JOB_REQ\<close>, \<open>UPLOAD_REQ\<close> and \<open>DOWNLOAD_REQ\<close> cases: compare the number
  of bytes received with the announced length (None: \<open>break\<close>), terminate the string in place,
  and use it as a C string.
\<close>

definition take_string ::
  "nat \<Rightarrow> 16 word \<Rightarrow> nat \<Rightarrow> byte list \<Rightarrow> (byte list \<times> string) option result" where
  "take_string hdr len n buf =
     (if n < hdr + unat len then Inr None
      else rbind (poke (hdr + unat len) 0 buf) (\<lambda>buf1.
           rbind (read_cstr hdr buf1) (\<lambda>str. Inr (Some (buf1, str)))))"

definition job_ack_msg :: "bool \<Rightarrow> string" where
  "job_ack_msg ok = (if ok then ''Job created successfully'' else ''Failed to create job'')"

definition job_ack_bytes :: "byte list \<Rightarrow> job_request \<Rightarrow> bool \<Rightarrow> byte list" where
  "job_ack_bytes mem req ok =
     (let msg = job_ack_msg ok;
          r = \<lparr>jr_type = message_code JOB_ACK, jr_message_id = jq_message_id req,
               jr_job_id = jq_job_id req, jr_status = status_byte (if ok then STATUS_OK else STATUS_ERROR),
               jr_msg_len = of_nat (length msg)\<rparr>
      in store_job_response mem r @ bytes_of msg)"

definition handle_job_req ::
  "'w os \<Rightarrow> env \<Rightarrow> sockaddr_in \<Rightarrow> nat \<Rightarrow> byte list \<Rightarrow> 'w server \<Rightarrow> (byte list \<times> 'w server) result" where
  "handle_job_req os e addr n buf s =
     (let req = load_job_request buf in
      rbind (take_string sizeof_JobRequest (jq_cmd_len req) n buf) (\<lambda>t. case t of
        None \<Rightarrow> Inr (buf, s)
      | Some (buf1, cmd) \<Rightarrow>
          let c = create_job os e (jq_client_id req) addr (jq_job_id req) cmd
                    (int (unat (jq_file_count req))) (sv_jobs s) (sv_world s);
              ok = fst c;
              s1 = s\<lparr>sv_jobs := fst (snd c), sv_world := snd (snd c)\<rparr>
          in if \<not> e_alloc e then Inr (buf1, s1)
             else rbind (log_append ''[JOB]'' (e_time_str e)
                          (''Job '' @ dec_nat (unat (jq_job_id req)) @ '' for client '' @
                           short_id (jq_client_id req) @
                           (if ok then '' created succesfully.'' else '' failed.'')) (sv_log s1)) (\<lambda>lg.
                  Inr (buf1, reply addr (job_ack_bytes (take 16 (e_mem e)) req ok)
                               (s1\<lparr>sv_log := lg\<rparr>)))))"

definition handle_upload_req ::
  "env \<Rightarrow> sockaddr_in \<Rightarrow> nat \<Rightarrow> byte list \<Rightarrow> 'w server \<Rightarrow> (byte list \<times> 'w server) result" where
  "handle_upload_req e addr n buf s =
     (let req = load_upload_request buf in
      rbind (take_string sizeof_UploadRequest (uq_name_len req) n buf) (\<lambda>t. case t of
        None \<Rightarrow> Inr (buf, s)
      | Some (buf1, filename) \<Rightarrow>
          rbind (handle_upload_request e req filename addr (sv_uploads s)) (\<lambda>r.
          Inr (buf1, reply addr (snd r) (s\<lparr>sv_uploads := fst r\<rparr>)))))"

definition handle_download_req ::
  "'w os \<Rightarrow> env \<Rightarrow> sockaddr_in \<Rightarrow> nat \<Rightarrow> byte list \<Rightarrow> 'w server \<Rightarrow> (byte list \<times> 'w server) result" where
  "handle_download_req os e addr n buf s =
     (let req = load_download_request buf in
      rbind (take_string sizeof_DownloadRequest (dq_name_len req) n buf) (\<lambda>t. case t of
        None \<Rightarrow> Inr (buf, s)
      | Some (buf1, filename) \<Rightarrow>
          rbind (handle_download_request os e req filename addr (sv_downloads s) (sv_world s)) (\<lambda>r.
          Inr (buf1, reply addr (fst (snd r))
                       (s\<lparr>sv_downloads := fst r, sv_world := snd (snd r)\<rparr>)))))"

text \<open>The dispatch on the first byte; \<open>n\<close> is the number of bytes received.\<close>

definition handle_udp_message ::
  "'w os \<Rightarrow> env \<Rightarrow> sockaddr_in \<Rightarrow> nat \<Rightarrow> byte list \<Rightarrow> 'w server \<Rightarrow> (byte list \<times> 'w server) result" where
  "handle_udp_message os e addr n buf s =
     (let type = get8 0 buf in
      if n < 1 then Inr (buf, s)
      else if type = message_code CLIENT_ID_REQ
           then rbind (handle_client_id_req e addr buf s) (\<lambda>s1. Inr (buf, s1))
      else if type = message_code HEARTBEAT
           then rbind (handle_heartbeat e addr buf s) (\<lambda>s1. Inr (buf, s1))
      else if type = message_code JOB_REQ then handle_job_req os e addr n buf s
      else if type = message_code UPLOAD_REQ then handle_upload_req e addr n buf s
      else if type = message_code DOWNLOAD_REQ then handle_download_req os e addr n buf s
      else Inr (buf, s))"

text \<open>
  One turn of \<open>client_thread\<close>: \<open>None\<close> is a failing \<open>recvfrom\<close>; a longer datagram is cut to the
  buffer; \<open>r\<close> is the value of \<open>rand\<close> that decides on a cleanup.
\<close>

definition client_turn ::
  "'w os \<Rightarrow> env \<Rightarrow> int \<Rightarrow> (sockaddr_in \<times> byte list) option \<Rightarrow> byte list \<times> 'w server \<Rightarrow>
   (byte list \<times> 'w server) result" where
  "client_turn os e r input bs =
     (case input of
        None \<Rightarrow> Inr bs
      | Some (addr, datagram) \<Rightarrow>
          let data = take BUFFER_SIZE datagram in
          rbind (handle_udp_message os e addr (length data) (recv_into (fst bs) data) (snd bs)) (\<lambda>bs1.
          Inr (if r mod 100 < 5
               then (fst bs1, (snd bs1)\<lparr>sv_clients :=
                       cleanup_dead_clients HEARTBEAT_TIMEOUT (e_now e) (sv_clients (snd bs1))\<rparr>)
               else bs1)))"

text \<open>One turn of \<open>watcher_thread\<close> and of \<open>processing_thread\<close>.\<close>

definition watcher_turn :: "env \<Rightarrow> 'w server \<Rightarrow> 'w server" where
  "watcher_turn e s =
     s\<lparr>sv_clients := cleanup_dead_clients HEARTBEAT_TIMEOUT (e_now e) (sv_clients s)\<rparr>"

definition processing_turn :: "'w os \<Rightarrow> env \<Rightarrow> 'w server \<Rightarrow> 'w server result" where
  "processing_turn os e s =
     rbind (process_pending_jobs os e
              \<lparr>pr_jobs = sv_jobs s, pr_log = sv_log s, pr_sent = sv_sent s, pr_world = sv_world s\<rparr>) (\<lambda>p.
     Inr (s\<lparr>sv_jobs := pr_jobs p, sv_log := pr_log p, sv_sent := pr_sent p, sv_world := pr_world p\<rparr>))"

text \<open>One turn of \<open>download_thread\<close> for an accepted connection, once a job is there.\<close>

definition download_turn ::
  "'w os \<Rightarrow> nat \<Rightarrow> sockaddr_in \<Rightarrow> 'w server \<Rightarrow> (download_outcome \<times> 'w server) option result" where
  "download_turn os fd peer s =
     rbind (serve_download os (sv_clients s) fd peer (sv_downloads s) (sv_world s)) (\<lambda>r.
     Inr (map_option (\<lambda>(out, q, w). (out, s\<lparr>sv_downloads := q, sv_world := w\<rparr>)) r))"

subsection \<open>The invariant\<close>

definition server_inv :: "'w server \<Rightarrow> bool" where
  "server_inv s \<longleftrightarrow> clients_inv (sv_clients s) \<and> jobs_inv (sv_jobs s) \<and>
     uploads_inv (sv_uploads s) \<and> (\<forall>j \<in> set (g_list (sv_uploads s)). upload_job_inv j) \<and>
     g_inv (sv_downloads s) \<and> (\<forall>j \<in> set (g_list (sv_downloads s)). download_job_inv j) \<and>
     lq_inv (sv_log s) \<and> 0 \<le> sv_max_uploads s \<and> sv_max_uploads s \<le> int MAX_UPLOADS"

text \<open>
  The one message that makes the server store outside its buffer: a full buffer whose string
  field ends exactly at its end.
\<close>

definition fills_buffer :: "nat \<Rightarrow> byte list \<Rightarrow> bool" where
  "fills_buffer n buf \<longleftrightarrow> n = BUFFER_SIZE \<and>
     (get8 0 buf = message_code JOB_REQ \<and>
        sizeof_JobRequest + unat (jq_cmd_len (load_job_request buf)) = BUFFER_SIZE \<or>
      get8 0 buf = message_code UPLOAD_REQ \<and>
        sizeof_UploadRequest + unat (uq_name_len (load_upload_request buf)) = BUFFER_SIZE \<or>
      get8 0 buf = message_code DOWNLOAD_REQ \<and>
        sizeof_DownloadRequest + unat (dq_name_len (load_download_request buf)) = BUFFER_SIZE)"

section \<open>Lemmas\<close>

lemma server_inv_init: "server_inv (server_init w)"
  by (simp add: server_inv_def server_init_def clients_inv_def jobs_inv_def uploads_inv_init
      g_list_init g_inv_init lq_inv_init)

lemma read_cstr_poked:
  "hdr \<le> k \<Longrightarrow> k < length buf \<Longrightarrow> \<exists>str. read_cstr hdr (buf[k := 0]) = Inr str"
proof -
  assume k: "hdr \<le> k" "k < length buf"
  have "string_of (drop hdr (buf[k := 0])) ! (k - hdr) = NUL"
    using k by (simp add: string_of_def)
  moreover have "k - hdr < length (string_of (drop hdr (buf[k := 0])))" using k by simp
  ultimately have "NUL \<in> set (string_of (drop hdr (buf[k := 0])))" by (metis nth_mem)
  then show ?thesis by (simp add: read_cstr_def)
qed

lemma take_string_ok:
  assumes "n \<le> length buf" "hdr + unat len < length buf"
  shows "take_string hdr len n buf = Inr None \<or>
    (\<exists>buf1 str. take_string hdr len n buf = Inr (Some (buf1, str)) \<and> length buf1 = length buf)"
  using read_cstr_poked [of hdr "hdr + unat len" buf] assms
  by (auto simp: take_string_def)

lemma take_string_cases:
  assumes "n \<le> length buf"
  shows "(hdr + unat len = length buf \<and> n = length buf \<and> take_string hdr len n buf = Inl Out_Of_Bounds) \<or>
    ((hdr + unat len \<noteq> length buf \<or> n \<noteq> length buf) \<and> (take_string hdr len n buf = Inr None \<or>
     (\<exists>buf1 str. take_string hdr len n buf = Inr (Some (buf1, str)) \<and> length buf1 = length buf)))"
proof (cases "hdr + unat len < length buf")
  case True
  with take_string_ok [OF assms True] show ?thesis by auto
next
  case False
  with assms show ?thesis by (auto simp: take_string_def poke_def)
qed

lemma id16_slice: "length buf = BUFFER_SIZE \<Longrightarrow> off \<le> 8 \<Longrightarrow> id16 (slice_at off 16 buf)"
  by (simp add: id16_def mem_simps BUFFER_SIZE_def)

lemma env_ok_log:
  "env_ok e \<Longrightarrow> length c \<le> 400 \<Longrightarrow> lq_inv q \<Longrightarrow>
   \<exists>q'. log_append c (e_time_str e) m q = Inr q' \<and> lq_inv q'"
  by (auto simp: env_ok_def log_append_ok intro: ring.inv_push)

lemma handle_client_id_req_ok:
  assumes "env_ok e" "server_inv s"
  shows "\<exists>s'. handle_client_id_req e addr buf s = Inr s' \<and> server_inv s'"
proof -
  let ?cid = "generate_client_id (e_rand e)"
  obtain lg where lg: "log_append ''[CLIENT]'' (e_time_str e)
      (''Assigned client_id='' @ short_id ?cid @ '' to '' @ show_addr addr) (sv_log s) = Inr lg" "lq_inv lg"
    using env_ok_log [OF assms(1), of "''[CLIENT]''"] assms(2) by (force simp: server_inv_def)
  have "id16 ?cid" using assms(1) by (simp add: env_ok_def id16_generate)
  with lg assms show ?thesis
    by (auto simp: handle_client_id_req_def Let_def register_client_def env_ok_def reply_def
        server_inv_def clients_inv_def)
qed

lemma handle_heartbeat_ok:
  assumes "env_ok e" "server_inv s"
  shows "\<exists>s'. handle_heartbeat e addr buf s = Inr s' \<and> server_inv s'"
proof -
  let ?m = "''Updated hearbeat for client '' @ short_id (hb_client_id (load_heartbeat buf))"
  obtain lg where lg: "log_append ''[CLIENT]'' (e_time_str e) ?m (sv_log s) = Inr lg" "lq_inv lg"
    using env_ok_log [OF assms(1), of "''[CLIENT]''"] assms(2) by (force simp: server_inv_def)
  with assms(2) show ?thesis
    by (auto simp: handle_heartbeat_def Let_def server_inv_def intro: clients_inv_touch)
qed

text \<open>
  A handler is safe on a buffer: it faults exactly on the message that fills the buffer, and
  otherwise keeps the invariant and the size of the buffer.
\<close>

definition safe_unless ::
  "bool \<Rightarrow> byte list \<Rightarrow> (byte list \<times> 'w server) result \<Rightarrow> bool" where
  "safe_unless bad buf r \<longleftrightarrow>
     (if bad then r = Inl Out_Of_Bounds
      else \<exists>buf' s'. r = Inr (buf', s') \<and> length buf' = length buf \<and> server_inv s')"

lemma safe_unless_take_string:
  assumes "length buf = BUFFER_SIZE" "n \<le> BUFFER_SIZE" "server_inv s"
    and "\<And>buf1 str. length buf1 = length buf \<Longrightarrow> \<exists>s'. f (buf1, str) = Inr (buf1, s') \<and> server_inv s'"
  shows "safe_unless (n = BUFFER_SIZE \<and> hdr + unat len = BUFFER_SIZE) buf
    (rbind (take_string hdr len n buf) (\<lambda>t. case t of None \<Rightarrow> Inr (buf, s) | Some x \<Rightarrow> f x))"
proof -
  have n: "n \<le> length buf" using assms(1,2) by simp
  consider "n = BUFFER_SIZE \<and> hdr + unat len = BUFFER_SIZE" "take_string hdr len n buf = Inl Out_Of_Bounds"
    | "\<not> (n = BUFFER_SIZE \<and> hdr + unat len = BUFFER_SIZE)" "take_string hdr len n buf = Inr None"
    | buf1 str where "\<not> (n = BUFFER_SIZE \<and> hdr + unat len = BUFFER_SIZE)"
      "take_string hdr len n buf = Inr (Some (buf1, str))" "length buf1 = length buf"
    using take_string_cases [OF n, of hdr len] assms(1) by auto
  then show ?thesis
  proof cases
    case 3
    with assms(4) [OF 3(3), of str] show ?thesis by (auto simp: safe_unless_def)
  qed (use assms(3) in \<open>auto simp: safe_unless_def\<close>)
qed

lemma handle_job_req_safe:
  assumes "env_ok e" "server_inv s" "length buf = BUFFER_SIZE" "n \<le> BUFFER_SIZE"
  shows "safe_unless (n = BUFFER_SIZE \<and>
      sizeof_JobRequest + unat (jq_cmd_len (load_job_request buf)) = BUFFER_SIZE) buf
    (handle_job_req os e addr n buf s)"
  unfolding handle_job_req_def Let_def case_prod_unfold
proof (rule safe_unless_take_string [OF assms(3,4,2)], goal_cases)
  case (1 buf1 cmd)
  let ?req = "load_job_request buf"
  obtain ok jobs w where c: "create_job os e (jq_client_id ?req) addr (jq_job_id ?req) cmd
      (int (unat (jq_file_count ?req))) (sv_jobs s) (sv_world s) = (ok, jobs, w)"
    by (cases "create_job os e (jq_client_id ?req) addr (jq_job_id ?req) cmd
      (int (unat (jq_file_count ?req))) (sv_jobs s) (sv_world s)") auto
  have "id16 (jq_client_id ?req)" using assms(3) by (simp add: load_job_request_def id16_slice)
  moreover have fc: "0 \<le> int (unat (jq_file_count ?req))" "int (unat (jq_file_count ?req)) < 256"
  proof -
    have "unat (jq_file_count ?req) < 256" using unat_lt2p [of "jq_file_count ?req"] by simp
    then show "0 \<le> int (unat (jq_file_count ?req))" "int (unat (jq_file_count ?req)) < 256"
      by linarith+
  qed
  ultimately have jobs: "jobs_inv jobs"
    using jobs_inv_create [OF _ _ fc c] assms(2) by (simp add: server_inv_def)
  obtain lg where lg: "log_append ''[JOB]'' (e_time_str e)
      (''Job '' @ dec_nat (unat (jq_job_id ?req)) @ '' for client '' @ short_id (jq_client_id ?req) @
       (if ok then '' created succesfully.'' else '' failed.'')) (sv_log s) = Inr lg" "lq_inv lg"
    using env_ok_log [OF assms(1), of "''[JOB]''"] assms(2) by (force simp: server_inv_def)
  show ?case
    using c lg jobs assms(1,2) by (simp add: env_ok_def reply_def server_inv_def)
qed

lemma handle_upload_request_ok:
  assumes "env_ok e" "uploads_inv q"
  shows "\<exists>q' d. handle_upload_request e req filename addr q = Inr (q', d) \<and> uploads_inv q' \<and>
    g_list q' = ordered_insert higher_priority (g_list q) (new_upload_job req filename (e_now e))"
  using enqueue_upload_ok [OF assms(2)] assms(1)
  by (force simp: handle_upload_request_def env_ok_def)

lemma handle_upload_req_safe:
  assumes "env_ok e" "server_inv s" "length buf = BUFFER_SIZE" "n \<le> BUFFER_SIZE"
  shows "safe_unless (n = BUFFER_SIZE \<and>
      sizeof_UploadRequest + unat (uq_name_len (load_upload_request buf)) = BUFFER_SIZE) buf
    (handle_upload_req e addr n buf s)"
  unfolding handle_upload_req_def Let_def case_prod_unfold
proof (rule safe_unless_take_string [OF assms(3,4,2)], goal_cases)
  case (1 buf1 filename)
  let ?req = "load_upload_request buf"
  have "uploads_inv (sv_uploads s)" using assms(2) by (simp add: server_inv_def)
  then obtain q' d where q: "handle_upload_request e ?req filename addr (sv_uploads s) = Inr (q', d)"
    "uploads_inv q'"
    "g_list q' = ordered_insert higher_priority (g_list (sv_uploads s)) (new_upload_job ?req filename (e_now e))"
    using handle_upload_request_ok [OF assms(1)] by blast
  have "id16 (uq_client_id ?req)" using assms(3) by (simp add: load_upload_request_def id16_slice)
  then have "upload_job_inv (new_upload_job ?req filename (e_now e))" by (rule upload_job_inv_new)
  with q assms(2) show ?case by (simp add: reply_def server_inv_def set_ordered_insert)
qed

lemma handle_download_request_ok:
  assumes "env_ok e" "g_inv q"
  shows "\<exists>q' d w'. handle_download_request os e req filename addr q w = Inr (q', d, w') \<and> g_inv q' \<and>
    (g_list q' = g_list q \<or> g_list q' = g_list q @ [new_download_job req filename addr])"
proof -
  obtain q' where q': "enqueue_download True q (new_download_job req filename addr) = Inr q'" "g_inv q'"
    "g_list q' = g_list q @ [new_download_job req filename addr]"
    using enqueue_download_ok [OF assms(2)] by blast
  then show ?thesis
    using assms by (cases "sys_stat os (file_path (dq_client_id req) (dq_job_id req) filename) w")
      (auto simp: handle_download_request_def Let_def env_ok_def)
qed

lemma handle_download_req_safe:
  assumes "env_ok e" "server_inv s" "length buf = BUFFER_SIZE" "n \<le> BUFFER_SIZE"
  shows "safe_unless (n = BUFFER_SIZE \<and>
      sizeof_DownloadRequest + unat (dq_name_len (load_download_request buf)) = BUFFER_SIZE) buf
    (handle_download_req os e addr n buf s)"
  unfolding handle_download_req_def Let_def case_prod_unfold
proof (rule safe_unless_take_string [OF assms(3,4,2)], goal_cases)
  case (1 buf1 filename)
  let ?req = "load_download_request buf"
  have "g_inv (sv_downloads s)" using assms(2) by (simp add: server_inv_def)
  then obtain q' d w' where q: "handle_download_request os e ?req filename addr (sv_downloads s) (sv_world s)
      = Inr (q', d, w')" "g_inv q'"
    "g_list q' = g_list (sv_downloads s) \<or>
     g_list q' = g_list (sv_downloads s) @ [new_download_job ?req filename addr]"
    using handle_download_request_ok [OF assms(1), of "sv_downloads s" os ?req filename addr "sv_world s"]
    by blast
  have "id16 (dq_client_id ?req)" using assms(3) by (simp add: load_download_request_def id16_slice)
  then have "download_job_inv (new_download_job ?req filename addr)" by (rule download_job_inv_new)
  with q assms(2) show ?case by (auto simp: reply_def server_inv_def)
qed

lemma handle_udp_message_safe:
  assumes "env_ok e" "server_inv s" "length buf = BUFFER_SIZE" "n \<le> BUFFER_SIZE"
  shows "safe_unless (fills_buffer n buf) buf (handle_udp_message os e addr n buf s)"
proof (cases "n = 0")
  case True
  with assms show ?thesis
    by (simp add: handle_udp_message_def safe_unless_def fills_buffer_def BUFFER_SIZE_def)
next
  case False
  let ?t = "get8 0 buf"
  consider "?t = message_code CLIENT_ID_REQ" | "?t = message_code HEARTBEAT"
    | "?t = message_code JOB_REQ" | "?t = message_code UPLOAD_REQ" | "?t = message_code DOWNLOAD_REQ"
    | "?t \<notin> message_code ` {CLIENT_ID_REQ, HEARTBEAT, JOB_REQ, UPLOAD_REQ, DOWNLOAD_REQ}" by blast
  then show ?thesis
  proof cases
    case 1
    with handle_client_id_req_ok [OF assms(1,2), of addr buf] False show ?thesis
      by (auto simp: handle_udp_message_def safe_unless_def fills_buffer_def)
  next
    case 2
    with handle_heartbeat_ok [OF assms(1,2), of addr buf] False show ?thesis
      by (auto simp: handle_udp_message_def safe_unless_def fills_buffer_def)
  next
    case 3
    with handle_job_req_safe [OF assms, of os addr] False show ?thesis
      by (simp add: handle_udp_message_def fills_buffer_def)
  next
    case 4
    with handle_upload_req_safe [OF assms, of addr] False show ?thesis
      by (simp add: handle_udp_message_def fills_buffer_def)
  next
    case 5
    with handle_download_req_safe [OF assms, of os addr] False show ?thesis
      by (simp add: handle_udp_message_def fills_buffer_def)
  next
    case 6
    with assms(2) show ?thesis
      by (auto simp: handle_udp_message_def safe_unless_def fills_buffer_def Let_def)
  qed
qed

subsection \<open>The other threads\<close>

lemma server_inv_watcher: "server_inv s \<Longrightarrow> server_inv (watcher_turn e s)"
  by (simp add: server_inv_def watcher_turn_def clients_inv_cleanup)

lemma process_pending_jobs_ok:
  assumes "env_ok e" "lq_inv (pr_log p)" "jobs_inv (pr_jobs p)"
  shows "\<exists>p'. process_pending_jobs os e p = Inr p' \<and> lq_inv (pr_log p') \<and> jobs_inv (pr_jobs p')"
proof (cases "sys_getcwd os (pr_world p)")
  case None
  with assms show ?thesis by (simp add: process_pending_jobs_def)
next
  case (Some d)
  obtain p' where p': "process_loop (length (pr_jobs p)) os e d 0 p = Inr p'"
    using process_loop_total assms(1) unfolding env_ok_def by blast
  from process_loop_effect [OF this assms(2)] assms(3)
  have "lq_inv (pr_log p') \<and> jobs_inv (pr_jobs p')" by (auto intro: jobs_inv_subseq)
  with p' Some show ?thesis by (simp add: process_pending_jobs_def)
qed

lemma processing_turn_ok:
  assumes "env_ok e" "server_inv s"
  shows "\<exists>s'. processing_turn os e s = Inr s' \<and> server_inv s'"
proof -
  let ?p = "\<lparr>pr_jobs = sv_jobs s, pr_log = sv_log s, pr_sent = sv_sent s, pr_world = sv_world s\<rparr>"
  obtain p' where "process_pending_jobs os e ?p = Inr p'" "lq_inv (pr_log p')" "jobs_inv (pr_jobs p')"
    using process_pending_jobs_ok [OF assms(1), of ?p os] assms(2) by (auto simp: server_inv_def)
  with assms(2) show ?thesis by (auto simp: processing_turn_def server_inv_def)
qed

lemma client_turn_ok:
  assumes "env_ok e" "server_inv s" "length buf = BUFFER_SIZE"
    and "\<And>addr d. input = Some (addr, d) \<Longrightarrow> length d < BUFFER_SIZE"
  shows "\<exists>buf' s'. client_turn os e r input (buf, s) = Inr (buf', s') \<and> length buf' = BUFFER_SIZE \<and>
    server_inv s'"
proof (cases input)
  case None
  with assms show ?thesis by (simp add: client_turn_def)
next
  case (Some a)
  obtain addr d where a: "a = (addr, d)" by (cases a)
  with Some assms(4) have d: "length d < BUFFER_SIZE" by blast
  let ?b = "recv_into buf d"
  have "\<not> fills_buffer (length d) ?b" using d by (simp add: fills_buffer_def)
  with handle_udp_message_safe [OF assms(1,2), of ?b "length d" os addr] assms(3) d
  obtain buf' s' where h: "handle_udp_message os e addr (length d) ?b s = Inr (buf', s')"
    "length buf' = BUFFER_SIZE" "server_inv s'"
    by (auto simp: safe_unless_def mem_simps)
  then show ?thesis
    using Some a d by (auto simp: client_turn_def Let_def server_inv_def clients_inv_cleanup)
qed

text \<open>The string of a request that was received whole and does not fill the buffer.\<close>

lemma take_string_received:
  assumes "length h = hdr" "NUL \<notin> set str" "hdr + length str < length buf" "length str < 2 ^ 16"
  shows "\<exists>buf1. take_string hdr (of_nat (length str)) (hdr + length str)
      (recv_into buf (h @ bytes_of str)) = Inr (Some (buf1, str)) \<and> length buf1 = length buf"
proof -
  let ?b = "recv_into buf (h @ bytes_of str)" and ?k = "hdr + length str"
  have l: "unat (of_nat (length str) :: 16 word) = length str"
    using assms(4) by (simp add: unat_of_nat take_bit_eq_mod)
  have "?b = h @ bytes_of str @ drop ?k buf" using assms(1,3) by (simp add: recv_into_def)
  moreover have "drop ?k buf = buf ! ?k # drop (Suc ?k) buf"
    using assms(3) by (simp add: Cons_nth_drop_Suc)
  ultimately have "?b[?k := 0] = h @ bytes_of str @ 0 # drop (Suc ?k) buf"
    using assms(1) by (simp add: list_update_append)
  then have "read_cstr hdr (?b[?k := 0]) = Inr str"
    using assms(1,2) by (simp add: read_cstr_def str_simps string_of_def [of "0 # _"])
  then show ?thesis using assms(3) l by (simp add: take_string_def mem_simps)
qed

text \<open>A \<open>JOB_REQ\<close> that arrives whole and whose directory can be had.\<close>

lemma job_req_received:
  assumes "env_ok e" "server_inv s" "length buf = BUFFER_SIZE" "length mem = 32"
    and "jq_type req = message_code JOB_REQ" "id16 (jq_client_id req)" "NUL \<notin> set cmd"
    and "length cmd < MAX_CMD_LEN" "jq_cmd_len req = of_nat (length cmd)"
    and "fst (ensure_job_dir os (dir_path (jq_client_id req) (jq_job_id req)) (sv_world s))"
  defines "d \<equiv> store_job_request mem req @ bytes_of cmd"
  shows "\<exists>buf1 s1. handle_udp_message os e addr (length d) (recv_into buf d) s = Inr (buf1, s1) \<and>
    sv_jobs s1 = sv_jobs s @ [new_pending_job (jq_client_id req) addr (jq_job_id req) cmd
      (int (unat (jq_file_count req))) (e_now e)] \<and>
    sv_sent s1 = sv_sent s @ [(addr, job_ack_bytes (take 16 (e_mem e)) req True)] \<and> lq_inv (sv_log s1)"
proof -
  let ?b = "recv_into buf d" and ?j = "new_pending_job (jq_client_id req) addr (jq_job_id req) cmd
      (int (unat (jq_file_count req))) (e_now e)"
  have h: "length (store_job_request mem req) = sizeof_JobRequest"
    using job_request.length_store [of req mem] assms(4,6) by (simp add: sizeof_defs)
  then have n: "length d = sizeof_JobRequest + length cmd" by (simp add: d_def)
  have load: "load_job_request ?b = req" unfolding d_def
    by (rule job_request.received(1))
      (use assms(3,4,6,8) in \<open>simp_all add: sizeof_defs BUFFER_SIZE_def protocol_consts\<close>)
  then have ty: "get8 0 ?b = message_code JOB_REQ"
    using assms(5) by (metis job_request.select_convs(1) load_job_request_def)
  obtain buf1 where t: "take_string sizeof_JobRequest (jq_cmd_len req) (length d) ?b = Inr (Some (buf1, cmd))"
    using take_string_received [OF h assms(7), of buf] assms(3,8,9) n
    by (auto simp: d_def sizeof_defs BUFFER_SIZE_def protocol_consts)
  obtain w where c: "create_job os e (jq_client_id req) addr (jq_job_id req) cmd
      (int (unat (jq_file_count req))) (sv_jobs s) (sv_world s) = (True, sv_jobs s @ [?j], w)"
    using assms(1,10) by (auto simp: create_job_def env_ok_def case_prod_unfold)
  obtain lg where lg: "log_append ''[JOB]'' (e_time_str e)
      (''Job '' @ dec_nat (unat (jq_job_id req)) @ '' for client '' @ short_id (jq_client_id req) @
       '' created succesfully.'') (sv_log s) = Inr lg" "lq_inv lg"
    using env_ok_log [OF assms(1), of "''[JOB]''"] assms(2) by (force simp: server_inv_def)
  have "\<not> length d < 1" using n by (simp add: sizeof_defs)
  then have "handle_udp_message os e addr (length d) ?b s = handle_job_req os e addr (length d) ?b s"
    using ty by (simp add: handle_udp_message_def)
  also have "\<dots> = Inr (buf1, reply addr (job_ack_bytes (take 16 (e_mem e)) req True)
      (s\<lparr>sv_jobs := sv_jobs s @ [?j], sv_world := w, sv_log := lg\<rparr>))"
    using t c lg(1) assms(1) by (simp add: handle_job_req_def load env_ok_def)
  finally show ?thesis using lg(2) by (simp add: reply_def)
qed

text \<open>A pass over a table with a single job.\<close>

lemma processing_turn_waits:
  assumes "sv_jobs s = [j]" "\<not> job_ready j"
  shows "\<exists>s2. processing_turn os e s = Inr s2 \<and> sv_jobs s2 = [j] \<and> sv_sent s2 = sv_sent s"
  using assms by (simp add: processing_turn_def process_pending_jobs_def split: option.splits)

lemma processing_turn_runs:
  assumes "env_ok e" "sv_jobs s = [j]" "job_ready j" "\<And>w. sys_getcwd os w \<noteq> None"
    and "\<And>dir w. fst (sys_chdir os dir w)" "\<And>w. fst (sys_system os (pj_command j) w) = code"
  shows "\<exists>s2. processing_turn os e s = Inr s2 \<and> sv_jobs s2 = [] \<and>
    sv_sent s2 = sv_sent s @ [result_sent e (j, if code = 0 then STATUS_OK else STATUS_ERROR)]"
proof -
  have env: "length (e_time_str e) \<le> 31" "e_alloc e" using assms(1) by (simp_all add: env_ok_def)
  obtain d where "sys_getcwd os (sv_world s) = Some d" using assms(4) by blast
  with env assms(2,3,5,6) show ?thesis
    by (simp add: processing_turn_def process_pending_jobs_def process_job_def Let_def log_append_ok
        remove_nth_def result_sent_def)
qed

text \<open>\<open>UPLOAD_REQ\<close> and \<open>DOWNLOAD_REQ\<close> that arrive whole.\<close>

lemma upload_req_received:
  assumes "env_ok e" "server_inv s" "length buf = BUFFER_SIZE" "length mem = 48"
    and "uq_type req = message_code UPLOAD_REQ" "id16 (uq_client_id req)" "NUL \<notin> set name"
    and "length name \<le> MAX_FILENAME_LEN" "uq_name_len req = of_nat (length name)"
  defines "d \<equiv> store_upload_request mem req @ bytes_of name"
  shows "\<exists>buf1 s1. handle_udp_message os e addr (length d) (recv_into buf d) s = Inr (buf1, s1) \<and>
    g_list (sv_uploads s1) =
      ordered_insert higher_priority (g_list (sv_uploads s)) (new_upload_job req name (e_now e))"
proof -
  let ?b = "recv_into buf d"
  have h: "length (store_upload_request mem req) = sizeof_UploadRequest"
    using upload_request.length_store [of req mem] assms(4,6) by (simp add: sizeof_defs)
  then have n: "length d = sizeof_UploadRequest + length name" by (simp add: d_def)
  have load: "load_upload_request ?b = req" unfolding d_def
    by (rule upload_request.received(1))
      (use assms(3,4,6,8) in \<open>simp_all add: sizeof_defs BUFFER_SIZE_def protocol_consts\<close>)
  then have ty: "get8 0 ?b = message_code UPLOAD_REQ"
    using assms(5) by (metis upload_request.select_convs(1) load_upload_request_def)
  obtain buf1 where t: "take_string sizeof_UploadRequest (uq_name_len req) (length d) ?b = Inr (Some (buf1, name))"
    using take_string_received [OF h assms(7), of buf] assms(3,8,9) n
    by (auto simp: d_def sizeof_defs BUFFER_SIZE_def protocol_consts)
  have "uploads_inv (sv_uploads s)" using assms(2) by (simp add: server_inv_def)
  then obtain q' a where q: "handle_upload_request e req name addr (sv_uploads s) = Inr (q', a)"
    "g_list q' = ordered_insert higher_priority (g_list (sv_uploads s)) (new_upload_job req name (e_now e))"
    using handle_upload_request_ok [OF assms(1)] by blast
  have "\<not> length d < 1" using n by (simp add: sizeof_defs)
  then have "handle_udp_message os e addr (length d) ?b s = handle_upload_req e addr (length d) ?b s"
    using ty by (simp add: handle_udp_message_def)
  also have "\<dots> = Inr (buf1, reply addr a (s\<lparr>sv_uploads := q'\<rparr>))"
    using t q(1) by (simp add: handle_upload_req_def load)
  finally show ?thesis using q(2) by (simp add: reply_def)
qed

lemma download_req_received:
  assumes "env_ok e" "server_inv s" "length buf = BUFFER_SIZE" "length mem = 32"
    and "dq_type req = message_code DOWNLOAD_REQ" "id16 (dq_client_id req)" "NUL \<notin> set name"
    and "length name \<le> MAX_FILENAME_LEN" "dq_name_len req = of_nat (length name)"
    and "sys_stat os (file_path (dq_client_id req) (dq_job_id req) name) (sv_world s) = Some st"
  defines "d \<equiv> store_download_request mem req @ bytes_of name"
  shows "\<exists>buf1 s1. handle_udp_message os e addr (length d) (recv_into buf d) s = Inr (buf1, s1) \<and>
    g_list (sv_downloads s1) = g_list (sv_downloads s) @ [new_download_job req name addr]"
proof -
  let ?b = "recv_into buf d"
  have h: "length (store_download_request mem req) = sizeof_DownloadRequest"
    using download_request.length_store [of req mem] assms(4,6) by (simp add: sizeof_defs)
  then have n: "length d = sizeof_DownloadRequest + length name" by (simp add: d_def)
  have load: "load_download_request ?b = req" unfolding d_def
    by (rule download_request.received(1))
      (use assms(3,4,6,8) in \<open>simp_all add: sizeof_defs BUFFER_SIZE_def protocol_consts\<close>)
  then have ty: "get8 0 ?b = message_code DOWNLOAD_REQ"
    using assms(5) by (metis download_request.select_convs(1) load_download_request_def)
  obtain buf1 where t: "take_string sizeof_DownloadRequest (dq_name_len req) (length d) ?b = Inr (Some (buf1, name))"
    using take_string_received [OF h assms(7), of buf] assms(3,8,9) n
    by (auto simp: d_def sizeof_defs BUFFER_SIZE_def protocol_consts)
  obtain q' where q: "enqueue_download True (sv_downloads s) (new_download_job req name addr) = Inr q'"
    "g_list q' = g_list (sv_downloads s) @ [new_download_job req name addr]"
    using enqueue_download_ok [of "sv_downloads s" "new_download_job req name addr"] assms(2)
    by (auto simp: server_inv_def)
  then obtain a w where r: "handle_download_request os e req name addr (sv_downloads s) (sv_world s) = Inr (q', a, w)"
    using assms(1,10) by (auto simp: handle_download_request_def env_ok_def Let_def)
  have "\<not> length d < 1" using n by (simp add: sizeof_defs)
  then have "handle_udp_message os e addr (length d) ?b s = handle_download_req os e addr (length d) ?b s"
    using ty by (simp add: handle_udp_message_def)
  also have "\<dots> = Inr (buf1, reply addr a (s\<lparr>sv_downloads := q', sv_world := w\<rparr>))"
    using t r by (simp add: handle_download_req_def load)
  finally show ?thesis using q(2) by (simp add: reply_def)
qed

section \<open>Properties\<close>

text \<open>
  C2: Any datagram whatsoever is handled without a fault and keeps the invariant of all the
  server's tables, except one: a datagram of exactly 2048 bytes whose announced string ends with
  the buffer makes the server store its terminator at \<open>buffer[2048]\<close>, outside the buffer.
\<close>

theorem udp_message_safety:
  assumes "env_ok e" "server_inv s" "length buf = BUFFER_SIZE" "n \<le> BUFFER_SIZE"
  shows "if fills_buffer n buf then handle_udp_message os e addr n buf s = Inl Out_Of_Bounds
    else \<exists>buf' s'. handle_udp_message os e addr n buf s = Inr (buf', s') \<and>
      length buf' = BUFFER_SIZE \<and> server_inv s'"
  using handle_udp_message_safe [OF assms, of os addr] assms(3)
  by (auto simp: safe_unless_def split: if_splits)

theorem udp_message_safety_witness:
  "handle_udp_message pipe_os plain_env \<lparr>sin_addr = 2, sin_port = 3\<rparr> 2048
     (recv_into (replicate 2048 0) (store_upload_request (replicate 48 0) \<lparr>uq_type = 6, uq_message_id = 1,
        uq_client_id = replicate 16 3, uq_job_id = 5, uq_file_size = 9, uq_name_len = 2000\<rparr> @ replicate 2000 97))
     (server_init ([], [])) = Inl Out_Of_Bounds"
proof -
  let ?u = "\<lparr>uq_type = 6, uq_message_id = 1, uq_client_id = replicate 16 3, uq_job_id = 5,
     uq_file_size = 9, uq_name_len = 2000\<rparr>"
  let ?b = "recv_into (replicate 2048 0) (store_upload_request (replicate 48 0) ?u @ replicate 2000 97)"
  have l: "load_upload_request ?b = ?u"
    by (rule upload_request.received(1)) (simp_all add: id16_def sizeof_defs)
  have "get8 0 ?b = uq_type (load_upload_request ?b)" by (simp only: load_upload_request_def upload_request.simps)
  then have "get8 0 ?b = 6" using l by simp
  with l have f: "fills_buffer 2048 ?b" by (simp add: fills_buffer_def BUFFER_SIZE_def sizeof_defs)
  from udp_message_safety [OF plain_env_ok server_inv_init [of "([], [])"],
      where buf = ?b and n = 2048 and os = pipe_os and addr = "\<lparr>sin_addr = 2, sin_port = 3\<rparr>"] f
  show ?thesis by (simp add: BUFFER_SIZE_def mem_simps)
qed

end
