(* ===== verification/Admin.thy ===== *)
theory Admin
  imports Server
begin

section \<open>The admin console (src/server/admin\_handler.c)\<close>

text \<open>
  One administrator at a time is served over a Unix socket. A line is trimmed, split with
  \<open>strtok\<close> and dispatched; replies are literals sent with hand-counted lengths. Bytes a \<open>send\<close>
  takes from beyond a literal or a buffer are the parameter \<open>adj\<close>: whatever memory follows it.
  \<open>fmt\<close> and \<open>ctime\<close> stand for the C library's rendering of a time in the local time zone.
\<close>

subsection \<open>C library routines on characters and strings\<close>

definition isspace :: "char \<Rightarrow> bool" where
  "isspace c \<longleftrightarrow> c \<in> {CHR 0x20, CHR 0x09, CHR 0x0A, CHR 0x0B, CHR 0x0C, CHR 0x0D}"

definition isdigit :: "char \<Rightarrow> bool" where
  "isdigit c \<longleftrightarrow> 48 \<le> (of_char c :: nat) \<and> (of_char c :: nat) \<le> 57"

definition tolower :: "char \<Rightarrow> char" where
  "tolower c = (let n = (of_char c :: nat) in if 65 \<le> n \<and> n \<le> 90 then char_of (n + 32) else c)"

definition strcaseeq :: "string \<Rightarrow> string \<Rightarrow> bool" where
  "strcaseeq a b \<longleftrightarrow> map tolower a = map tolower b"

text \<open>\<open>strtok\<close>: the token and what the next call continues with; None is the null pointer.\<close>

definition strtok :: "char list \<Rightarrow> string \<Rightarrow> (string \<times> string) option" where
  "strtok delims s =
     (let t = dropWhile (\<lambda>c. c \<in> set delims) s
      in if t = [] then None
         else Some (takeWhile (\<lambda>c. c \<notin> set delims) t, drop 1 (dropWhile (\<lambda>c. c \<notin> set delims) t)))"

text \<open>
  \<open>atoi\<close> as glibc has it: \<open>strtol\<close> saturates at the limits of \<open>long\<close>, the cast keeps 32 bits.
\<close>

definition digits_val :: "string \<Rightarrow> int" where
  "digits_val s = foldl (\<lambda>a c. 10 * a + (int (of_char c) - 48)) 0 s"

definition atoi :: "string \<Rightarrow> int" where
  "atoi s =
     (let t = dropWhile isspace s;
          neg = (t \<noteq> [] \<and> hd t = CHR ''-'');
          d = (if t \<noteq> [] \<and> hd t \<in> {CHR ''-'', CHR ''+''} then tl t else t);
          v = digits_val (takeWhile isdigit d);
          l = (if neg then max (- (2 ^ 63)) (- v) else min (2 ^ 63 - 1) v)
      in sint (word_of_int l :: 32 word))"

subsection \<open>Helpers of the console\<close>

text \<open>
  \<open>trim_whitespace\<close> moves only its own pointer over the leading blanks, so the caller's string
  keeps them; a string of blanks is left alone.
\<close>

definition trim_whitespace :: "string \<Rightarrow> string" where
  "trim_whitespace str =
     (let body = dropWhile isspace str
      in if body = [] then str
         else takeWhile isspace str @ rev (dropWhile isspace (rev body)))"

definition format_client_id_hex :: "byte list \<Rightarrow> string" where
  "format_client_id_hex cid = concat (map hex2 cid)"

definition hexchar_to_int :: "char \<Rightarrow> int" where
  "hexchar_to_int c =
     (let n = int (of_char c)
      in if 48 \<le> n \<and> n \<le> 57 then n - 48
         else if 97 \<le> n \<and> n \<le> 102 then 10 + (n - 97)
         else if 65 \<le> n \<and> n \<le> 70 then 10 + (n - 65)
         else -1)"

text \<open>
  The loop of \<open>parse_client_id\<close> from byte \<open>i\<close>, with fuel 16 - i; bytes before an invalid digit
  have been written when it returns -1. \<open>(hi << 4) | lo\<close> is a sum here, as \<open>lo < 16\<close>.
\<close>

fun parse_id_loop :: "nat \<Rightarrow> nat \<Rightarrow> string \<Rightarrow> byte list \<Rightarrow> int \<times> byte list" where
  "parse_id_loop 0 i hex_str out_id = (0, out_id)"
| "parse_id_loop (Suc k) i hex_str out_id =
     (let hi = hexchar_to_int (hex_str ! (i * 2)); lo = hexchar_to_int (hex_str ! (i * 2 + 1))
      in if hi < 0 \<or> lo < 0 then (-1, out_id)
         else parse_id_loop k (i + 1) hex_str (out_id[i := word_of_int (16 * hi + lo)]))"

definition parse_client_id :: "string \<Rightarrow> byte list \<Rightarrow> int \<times> byte list" where
  "parse_client_id hex_str out_id =
     (if length hex_str \<noteq> 32 then (-1, out_id) else parse_id_loop 16 0 hex_str out_id)"

definition set_max_uploads :: "int \<Rightarrow> int \<Rightarrow> int" where
  "set_max_uploads n limit = (if n < 0 \<or> n > int MAX_UPLOADS then limit else n)"

text \<open>\<open>send (fd, literal, n, 0)\<close>: the literal, its NUL and then what follows it in memory.\<close>

definition send_lit :: "string \<Rightarrow> string \<Rightarrow> nat \<Rightarrow> string" where
  "send_lit adj lit n = take n (lit @ NUL # adj)"

definition nl :: string where "nl = [CHR 0x0A]"
definition tab :: string where "tab = [CHR 0x09]"

subsection \<open>SHOW\_CLIENTS and SHOW\_QUEUE\<close>

definition client_line :: "(int \<Rightarrow> string) \<Rightarrow> client_info \<Rightarrow> string" where
  "client_line fmt c =
     ''  ID: '' @ format_client_id_hex (ci_id c) @ tab @ ''  IP: '' @ show_addr (ci_addr c) @
     tab @ ''  Last heartbeat: '' @ fmt (ci_heartbeat c) @ nl @ nl"

definition list_clients :: "(int \<Rightarrow> string) \<Rightarrow> client_info list \<Rightarrow> string" where
  "list_clients fmt cs =
     (if cs = [] then ''[No connected clients]'' @ nl
      else ''Connected clients:'' @ nl @ concat (map (client_line fmt) cs))"

definition queue_entry :: "(int \<Rightarrow> string) \<Rightarrow> nat \<Rightarrow> pending_job \<Rightarrow> string" where
  "queue_entry ctime i j =
     dec_nat (i + 1) @ ''. Client '' @ format_client_id_hex (pj_client_id j) @
     '', Job ID: '' @ dec_nat (unat (pj_job_id j)) @ nl @
     ''    Command: '' @ pj_command j @ nl @
     ''    Files: '' @ dec_int (pj_files_received j) @ '' received out of '' @
       dec_int (pj_file_count j) @ nl @
     ''    Last update: '' @ takeWhile (\<lambda>c. c \<noteq> CHR 0x0A) (ctime (pj_last_update j)) @ nl"

definition QUEUE_BUF :: nat where "QUEUE_BUF = 4096"

text \<open>
  One \<open>offset += snprintf (buffer + offset, sizeof (buffer) - offset, \<dots>)\<close>: the text is cut to
  the space that is left, the offset grows by the length it would have had. The state is the
  buffer's text and the offset.
\<close>

definition buf_append :: "string \<times> nat \<Rightarrow> string \<Rightarrow> string \<times> nat" where
  "buf_append b str = (fst b @ snprintf (QUEUE_BUF - snd b) str, snd b + length str)"

text \<open>\<open>send (client_fd, buffer, offset, 0)\<close>.\<close>

definition buf_flush :: "string \<Rightarrow> string \<times> nat \<Rightarrow> string" where
  "buf_flush adj b = take (snd b) (fst b @ NUL # adj)"

fun show_queue_loop ::
  "string \<Rightarrow> (int \<Rightarrow> string) \<Rightarrow> nat \<Rightarrow> string \<times> nat \<Rightarrow> pending_job list \<Rightarrow> string list" where
  "show_queue_loop adj ctime i b [] = (if snd b > 0 then [buf_flush adj b] else [])"
| "show_queue_loop adj ctime i b (j # js) =
     (let b1 = buf_append b (queue_entry ctime i j)
      in if snd b1 \<ge> QUEUE_BUF - 256
         then buf_flush adj b1 # show_queue_loop adj ctime (i + 1) ([], 0) js
         else show_queue_loop adj ctime (i + 1) b1 js)"

definition show_processing_queue ::
  "string \<Rightarrow> (int \<Rightarrow> string) \<Rightarrow> pending_job list \<Rightarrow> string list" where
  "show_processing_queue adj ctime jobs =
     (if jobs = [] then [send_lit adj (''[Queue is empty]'' @ nl) 23]
      else show_queue_loop adj ctime 0 (buf_append ([], 0) (''Processing queue:'' @ nl)) jobs)"

subsection \<open>Commands\<close>

definition help_text :: string where
  "help_text =
     ''Available commands:'' @ nl @
     ''  HELP'' @ nl @ ''      Show this help message.'' @ nl @ nl @
     ''  SHOW_CLIENTS'' @ nl @ ''      List all currently connected clients.'' @ nl @ nl @
     ''  KICK_CLIENT <client_id>'' @ nl @ ''      Disconnect a specific client by ID.'' @ nl @ nl @
     ''  SHOW_QUEUE'' @ nl @ ''      Display the processing queue.'' @ nl @ nl @
     ''  SET_MAX_UPLOADS <number>'' @ nl @
     ''      Set the maximum number of simultaneous uploads.'' @ nl @ nl @
     ''  SHOW_LOGS'' @ nl @ ''      Stream logs from the server in real-time (tail -f style).'' @ nl @ nl @
     ''  EXIT'' @ nl @ ''      Close the admin session.'' @ nl @ nl"

text \<open>
  The kick: the result of \<open>parse_client_id\<close> is ignored, so \<open>carg\<close> may hold stack contents.
\<close>

definition kick_client :: "string \<Rightarrow> byte list \<Rightarrow> 'w server \<Rightarrow> 'w server" where
  "kick_client arg carg s =
     (let cid = snd (parse_client_id arg carg);
          k = kick_client_by_id cid (sv_clients s)
      in case fst k of
           None \<Rightarrow> s
         | Some addr \<Rightarrow> reply addr (bytes_of kick_msg) (s\<lparr>sv_clients := snd k\<rparr>))"

text \<open>
  \<open>handle_admin_command\<close>: the replies sent to the console, the new \<open>show_logs\<close> flag (1 stream
  logs, 0 prompt, -1 disconnect) and the server. \<open>strcasecmp\<close> of a null \<open>cmd\<close> is a null
  dereference.
\<close>

definition handle_admin_command ::
  "string \<Rightarrow> (int \<Rightarrow> string) \<Rightarrow> (int \<Rightarrow> string) \<Rightarrow> byte list \<Rightarrow> string \<Rightarrow> int \<Rightarrow> 'w server \<Rightarrow>
   (string list \<times> int \<times> 'w server) result" where
  "handle_admin_command adj fmt ctime carg input show_logs s =
     (let line = trim_whitespace input in
      if length line = 0 then Inr ([], show_logs, s)
      else case strtok [CHR 0x20, CHR 0x09, CHR 0x0A] line of
        None \<Rightarrow> Inl Null_Deref
      | Some (cmd, rest) \<Rightarrow>
          let arg = map_option fst (strtok [CHR 0x0A] rest) in
          if strcaseeq cmd ''HELP'' then Inr ([help_text], show_logs, s)
          else if strcaseeq cmd ''SHOW_LOGS''
            then Inr ([send_lit adj (''[Streaming logs]'' @ nl) 17], 1, s)
          else if strcaseeq cmd ''STOP_LOGS'' then Inr ([], 0, s)
          else if strcaseeq cmd ''KICK_CLIENT''
            then (case arg of
                    None \<Rightarrow> Inr ([send_lit adj (''Usage: KICK_CLIENT <id>'' @ nl) 23], show_logs, s)
                  | Some a \<Rightarrow> Inr ([send_lit adj (''User got kicked.'' @ nl @ nl) 17], show_logs,
                                 kick_client a carg s))
          else if strcaseeq cmd ''SET_MAX_UPLOADS''
            then (case arg of
                    None \<Rightarrow> Inr ([send_lit adj (''Usage: SET_MAX_UPLOADS <n>'' @ nl @ nl) 26], show_logs, s)
                  | Some a \<Rightarrow> Inr ([send_lit adj (''New upload limit set.'' @ nl @ nl) 22], show_logs,
                                 s\<lparr>sv_max_uploads := set_max_uploads (atoi a) (sv_max_uploads s)\<rparr>))
          else if strcaseeq cmd ''SHOW_CLIENTS'' then Inr ([list_clients fmt (sv_clients s)], show_logs, s)
          else if strcaseeq cmd ''SHOW_QUEUE''
            then Inr (show_processing_queue adj ctime (sv_jobs s), show_logs, s)
          else if strcaseeq cmd ''EXIT'' then Inr ([send_lit adj (''Goodbye.'' @ nl @ nl) 9], -1, s)
          else Inr ([send_lit adj (''Unknown command.'' @ nl @ nl) 17], show_logs, s))"

subsection \<open>The session\<close>

definition INACTIVITY_TIMEOUT_MS :: int where "INACTIVITY_TIMEOUT_MS = 60000"

text \<open>The truncating division of C, and the conversion of a \<open>long\<close> to \<open>int\<close>.\<close>

definition trunc_div :: "int \<Rightarrow> int \<Rightarrow> int" where
  "trunc_div a b = sgn a * sgn b * (\<bar>a\<bar> div \<bar>b\<bar>)"

definition elapsed_ms :: "int \<times> int \<Rightarrow> int \<times> int \<Rightarrow> int" where
  "elapsed_ms now prev =
     sint (word_of_int ((fst now - fst prev) * 1000 + trunc_div (snd now - snd prev) 1000000) :: 32 word)"

definition poll_timeout :: "int \<Rightarrow> int \<times> int \<Rightarrow> int \<times> int \<Rightarrow> int" where
  "poll_timeout show_logs now prev =
     (if show_logs \<noteq> 0 then 1000 else INACTIVITY_TIMEOUT_MS - elapsed_ms now prev)"

record session =
  ss_show_logs :: int
  ss_last_activity :: "int \<times> int"

text \<open>
  \<open>log_queue_pop_timed (q, line, 0)\<close>: on an empty queue the wait with a deadline of now times out.
\<close>

definition pop_now :: "log_queue \<Rightarrow> (string \<times> log_queue) option" where
  "pop_now q = (case log_queue_pop_timed 0 [(ETIMEDOUT, q)] q of
     Some (Pop_Entry e, q') \<Rightarrow> Some (e, q') | _ \<Rightarrow> None)"

text \<open>
  The log loop of a turn: \<open>sends\<close> says which \<open>send\<close> succeeds (all, after the list's end); the
  flag is False when one failed. The fuel is the number of lines pending.
\<close>

fun stream_logs :: "nat \<Rightarrow> bool list \<Rightarrow> log_queue \<Rightarrow> string list \<times> bool \<times> log_queue" where
  "stream_logs 0 sends q = ([], True, q)"
| "stream_logs (Suc n) sends q =
     (case pop_now q of
        None \<Rightarrow> ([], True, q)
      | Some (e, q1) \<Rightarrow>
          if sends \<noteq> [] \<and> \<not> hd sends then ([], False, q1)
          else (case stream_logs n (tl sends) q1 of (out, ok, q2) \<Rightarrow> ((e @ nl) # out, ok, q2)))"

text \<open>What the calls of one turn return.\<close>

record turn_input =
  ti_now :: "int \<times> int"
  ti_poll_ok :: bool
  ti_sends :: "bool list"
  ti_recv :: "byte list option option"
  ti_later :: "int \<times> int"

datatype 's turn_end = Again 's | Disconnect

text \<open>
  One turn of the inner loop of \<open>admin_thread\<close>: \<open>ti_recv\<close> is None when \<open>poll\<close> reports no
  input, \<open>Some None\<close> when \<open>recv\<close> fails and \<open>Some (Some [])\<close> at the end of the stream.
\<close>

definition session_turn ::
  "string \<Rightarrow> (int \<Rightarrow> string) \<Rightarrow> (int \<Rightarrow> string) \<Rightarrow> byte list \<Rightarrow> turn_input \<Rightarrow> session \<Rightarrow> 'w server \<Rightarrow>
   (string list \<times> session turn_end \<times> 'w server) result" where
  "session_turn adj fmt ctime carg t ss s =
     (if ss_show_logs ss = 0 \<and> poll_timeout (ss_show_logs ss) (ti_now t) (ss_last_activity ss) \<le> 0
      then Inr ([send_lit adj (''Disconnected due to inactivity.'' @ nl) 32], Disconnect, s)
      else if \<not> ti_poll_ok t then Inr ([], Disconnect, s)
      else
        let st = (if ss_show_logs ss \<noteq> 0 then stream_logs (lq_count (sv_log s)) (ti_sends t) (sv_log s)
                  else ([], True, sv_log s));
            out = fst st; ok = fst (snd st); s1 = s\<lparr>sv_log := snd (snd st)\<rparr>;
            ss1 = (if out = [] then ss else ss\<lparr>ss_last_activity := ti_later t\<rparr>)
        in if \<not> ok then Inr (out, Disconnect, s1)
           else case ti_recv t of
             None \<Rightarrow> Inr (out, Again ss1, s1)
           | Some None \<Rightarrow> Inr (out, Disconnect, s1)
           | Some (Some data) \<Rightarrow>
               if data = [] then Inr (out, Disconnect, s1)
               else rbind (handle_admin_command adj fmt ctime carg
                             (cstr (string_of (take 4095 data))) (ss_show_logs ss1) s1)
                      (\<lambda>(replies, logs, s2).
                      Inr (out @ replies,
                           if logs = -1 then Disconnect
                           else Again \<lparr>ss_show_logs = logs, ss_last_activity = ti_later t\<rparr>, s2)))"

definition welcome_msg :: "string \<Rightarrow> string" where
  "welcome_msg adj = send_lit adj (''Welcome to Admin Console.'' @ nl @
     ''Type HELP to see available commands.'' @ nl) 70"

text \<open>
  One turn of the outer loop of \<open>admin_thread\<close>, with the flag \<open>client_connected\<close>: a second
  administrator is turned away, else a session is served to its end and the flag cleared. The
  result says whether the connection was served.
\<close>

definition admin_accept :: "bool \<Rightarrow> bool \<times> bool" where
  "admin_accept client_connected = (if client_connected then (False, True) else (True, False))"

fun admin_accepts :: "nat \<Rightarrow> bool \<Rightarrow> bool list" where
  "admin_accepts 0 client_connected = []"
| "admin_accepts (Suc n) client_connected =
     (let (served, flag) = admin_accept client_connected in served # admin_accepts n flag)"

section \<open>Lemmas\<close>

subsection \<open>Client identifiers in hexadecimal\<close>







lemma length_parse_id_loop: "length (snd (parse_id_loop k i s out)) = length out"
  by (induction k arbitrary: i out) (simp_all add: Let_def)

subsection \<open>Commands\<close>

lemma kick_client_inv: "server_inv s \<Longrightarrow> server_inv (kick_client arg carg s)"
  using clients_inv_kick
  by (auto simp: kick_client_def Let_def reply_def server_inv_def split: option.splits)

lemma set_max_uploads_range:
  "0 \<le> limit \<Longrightarrow> limit \<le> int MAX_UPLOADS \<Longrightarrow>
   0 \<le> set_max_uploads n limit \<and> set_max_uploads n limit \<le> int MAX_UPLOADS"
  by (simp add: set_max_uploads_def)

lemma handle_admin_command_inv:
  "handle_admin_command adj fmt ctime carg input logs s = Inr (out, logs', s') \<Longrightarrow>
   server_inv s \<Longrightarrow> server_inv s'"
  by (auto simp: handle_admin_command_def Let_def kick_client_inv split: if_splits option.splits)
    (auto simp: server_inv_def set_max_uploads_def)






subsection \<open>The log stream\<close>

lemma pop_now_take: "pop_now q = log_queue_take q"
  by (cases "log_queue_take q") (auto simp: pop_now_def log_queue_pop_timed.simps)

lemma stream_logs_drain:
  "\<forall>b \<in> set sends. b \<Longrightarrow> stream_logs n sends q =
     (map (\<lambda>e. e @ nl) (fst (drain log_queue_take n q)), True, snd (drain log_queue_take n q))"
proof (induction n arbitrary: sends q)
  case 0
  then show ?case by simp
next
  case (Suc n)
  have "\<forall>b \<in> set (tl sends). b" using Suc.prems by (cases sends) auto
  moreover have "sends = [] \<or> hd sends" using Suc.prems by (cases sends) auto
  ultimately show ?case
    using Suc.IH by (auto simp: pop_now_take split: option.splits)
qed

lemma stream_logs_inv:
  "lq_inv q \<Longrightarrow> lq_inv (snd (snd (stream_logs n sends q)))"
proof (induction n arbitrary: sends q)
  case 0
  then show ?case by simp
next
  case (Suc n)
  show ?case
  proof (cases "log_queue_take q")
    case None
    with Suc.prems show ?thesis by (simp add: pop_now_take)
  next
    case (Some a)
    then obtain e q1 where a: "log_queue_take q = Some (e, q1)" by (cases a) auto
    with Suc.prems have "lq_inv q1" using ring.pop_Some by blast
    with a Suc.IH [of q1 "tl sends"] show ?thesis by (simp add: pop_now_take case_prod_unfold)
  qed
qed

lemma session_turn_inv:
  assumes "session_turn adj fmt ctime carg t ss s = Inr (out, r, s')" "server_inv s"
  shows "server_inv s'"
proof -
  have "server_inv (s\<lparr>sv_log := snd (snd (stream_logs n sends (sv_log s)))\<rparr>)" for n sends
    using assms(2) by (simp add: server_inv_def stream_logs_inv)
  moreover have "server_inv (s\<lparr>sv_log := sv_log s\<rparr>)" using assms(2) by simp
  ultimately show ?thesis
    using assms
    by (auto simp: session_turn_def Let_def rbind_eq_Inr split: if_splits option.splits
        dest: handle_admin_command_inv)
qed

subsection \<open>A command with its argument\<close>














text \<open>The text of the queue fits the buffer when every entry fits the margin.\<close>

lemma buf_append_fits:
  assumes "length (fst b) = snd b" "snd b + length str < QUEUE_BUF"
  shows "fst (buf_append b str) = fst b @ str" "snd (buf_append b str) = snd b + length str"
  using assms by (simp_all add: buf_append_def snprintf_def)

lemma buf_flush_exact: "length (fst b) = snd b \<Longrightarrow> buf_flush adj b = fst b"
  by (simp add: buf_flush_def)

lemma show_queue_loop_text:
  assumes "length (fst b) = snd b" "snd b < QUEUE_BUF - 256"
    and "\<And>k. k < length js \<Longrightarrow> length (queue_entry ctime (i + k) (js ! k)) \<le> 256"
  shows "concat (show_queue_loop adj ctime i b js) =
    fst b @ concat (map (\<lambda>k. queue_entry ctime (i + k) (js ! k)) [0..<length js])"
  using assms
proof (induction js arbitrary: i b)
  case Nil
  then show ?case by (auto simp: buf_flush_exact)
next
  case (Cons j js)
  let ?e = "queue_entry ctime i j"
  have "length ?e \<le> 256" using Cons.prems(3) [of 0] by simp
  then have fits: "snd b + length ?e < QUEUE_BUF" using Cons.prems(2) by simp
  define b1 where "b1 = buf_append b ?e"
  have b1: "fst b1 = fst b @ ?e" "length (fst b1) = snd b1"
    using buf_append_fits [OF Cons.prems(1) fits] Cons.prems(1) by (simp_all add: b1_def)
  have es: "length (queue_entry ctime (i + 1 + k) (js ! k)) \<le> 256" if "k < length js" for k
    using Cons.prems(3) [of "Suc k"] that by simp
  have tl: "concat (map (\<lambda>k. queue_entry ctime (i + k) ((j # js) ! k)) [0..<length (j # js)]) =
      ?e @ concat (map (\<lambda>k. queue_entry ctime (i + 1 + k) (js ! k)) [0..<length js])"
    by (simp add: upt_conv_Cons map_Suc_upt [symmetric] comp_def del: upt_Suc)
  show ?case
  proof (cases "snd b1 \<ge> QUEUE_BUF - 256")
    case True
    have "concat (show_queue_loop adj ctime (i + 1) ([], 0) js) =
        [] @ concat (map (\<lambda>k. queue_entry ctime (i + 1 + k) (js ! k)) [0..<length js])"
      using Cons.IH [of "([], 0)" "i + 1"] es by (simp add: QUEUE_BUF_def)
    with True b1 tl show ?thesis by (simp add: Let_def b1_def [symmetric] buf_flush_exact)
  next
    case False
    with Cons.IH [OF b1(2) _ es] have "concat (show_queue_loop adj ctime (i + 1) b1 js) =
        fst b1 @ concat (map (\<lambda>k. queue_entry ctime (i + 1 + k) (js ! k)) [0..<length js])"
      by simp
    with False b1(1) tl show ?thesis by (simp add: Let_def b1_def [symmetric])
  qed
qed




section \<open>Properties\<close>







text \<open>
  C26: While \<open>SHOW_LOGS\<close> is on, a turn whose sends succeed delivers every pending line of the log,
  in order and once, and leaves the log empty.
\<close>

theorem streaming_turn_delivers_log:
  assumes "lq_inv (sv_log s)" "ss_show_logs ss \<noteq> 0" "ti_poll_ok t" "\<forall>b \<in> set (ti_sends t). b"
    and "ti_recv t = None"
  shows "\<exists>ss' s'. session_turn adj fmt ctime carg t ss s =
      Inr (map (\<lambda>e. e @ nl) (lq_view (sv_log s)), Again ss', s') \<and>
    lq_view (sv_log s') = [] \<and> lq_inv (sv_log s') \<and> ss_show_logs ss' = ss_show_logs ss"
proof -
  let ?q = "sv_log s"
  have "fst (drain log_queue_take (lq_count ?q) ?q) = lq_view ?q \<and>
      lq_view (snd (drain log_queue_take (lq_count ?q) ?q)) = [] \<and>
      lq_inv (snd (drain log_queue_take (lq_count ?q) ?q))"
    by (rule ring.drain_all [OF assms(1)]) simp
  with stream_logs_drain [OF assms(4), of "lq_count ?q" ?q] assms(2,3,5) show ?thesis
    by (simp add: session_turn_def Let_def)
qed

theorem streaming_turn_delivers_log_witness:
  "let s = server_init ()\<lparr>sv_log := log_queue_push (log_queue_init global_log_queue) ''a''\<rparr>
   in \<exists>ss' s'. session_turn [] (\<lambda>t. ''now'') (\<lambda>t. ''now'') (replicate 16 0)
        \<lparr>ti_now = (1, 0), ti_poll_ok = True, ti_sends = [True], ti_recv = None, ti_later = (2, 0)\<rparr>
        \<lparr>ss_show_logs = 1, ss_last_activity = (0, 0)\<rparr> s = Inr ([''a'' @ nl], Again ss', s') \<and>
        lq_view (sv_log s') = []"
proof -
  let ?q = "log_queue_push (log_queue_init global_log_queue) ''a''"
  have i: "lq_inv ?q" by (rule ring.inv_push [OF lq_inv_init])
  have v: "lq_view ?q = [''a'']"
    using ring.view_push [OF lq_inv_init]
    by (simp add: lq_view_init log_consts strncpy_term_def cstr_def)
  show ?thesis
    using streaming_turn_delivers_log [of "server_init ()\<lparr>sv_log := ?q\<rparr>"
      "\<lparr>ss_show_logs = 1, ss_last_activity = (0, 0)\<rparr>"
      "\<lparr>ti_now = (1, 0), ti_poll_ok = True, ti_sends = [True], ti_recv = None, ti_later = (2, 0)\<rparr>"
      "[]" "\<lambda>t. ''now''" "\<lambda>t. ''now''" "replicate 16 0"] i v
    by (auto simp: Let_def)
qed



text \<open>
  C28: \<open>SHOW_QUEUE\<close> prints the jobs in the order they will be processed, each entry whole and
  nothing else, as long as every entry fits the 256 bytes of margin the code keeps; an empty
  queue, however, makes it send 23 bytes of a literal that has 18, the last 5 from whatever the
  memory holds behind it.
\<close>

theorem show_queue_text:
  "show_processing_queue adj ctime [] = [''[Queue is empty]'' @ nl @ NUL # take 5 adj] \<and>
   (jobs \<noteq> [] \<longrightarrow> (\<forall>k < length jobs. length (queue_entry ctime k (jobs ! k)) \<le> 256) \<longrightarrow>
     concat (show_processing_queue adj ctime jobs) = ''Processing queue:'' @ nl @
       concat (map (\<lambda>k. queue_entry ctime k (jobs ! k)) [0..<length jobs]))"
proof (intro conjI impI)
  show "show_processing_queue adj ctime [] = [''[Queue is empty]'' @ nl @ NUL # take 5 adj]"
    by (simp add: show_processing_queue_def send_lit_def nl_def)
next
  assume jobs: "jobs \<noteq> []" "\<forall>k < length jobs. length (queue_entry ctime k (jobs ! k)) \<le> 256"
  define b where "b = buf_append ([], 0) (''Processing queue:'' @ nl)"
  have b: "fst b = ''Processing queue:'' @ nl" "snd b = 18"
    by (simp_all add: b_def buf_append_def snprintf_def QUEUE_BUF_def nl_def)
  have "concat (show_queue_loop adj ctime 0 b jobs) =
      fst b @ concat (map (\<lambda>k. queue_entry ctime (0 + k) (jobs ! k)) [0..<length jobs])"
    by (rule show_queue_loop_text) (use jobs(2) in \<open>simp_all add: b QUEUE_BUF_def nl_def\<close>)
  with jobs(1) b show "concat (show_processing_queue adj ctime jobs) = ''Processing queue:'' @ nl @
      concat (map (\<lambda>k. queue_entry ctime k (jobs ! k)) [0..<length jobs])"
    by (simp add: show_processing_queue_def b_def)
qed

theorem show_queue_text_witness:
  "let j = \<lparr>pj_client_id = replicate 16 0, pj_addr = \<lparr>sin_addr = 2, sin_port = 3\<rparr>, pj_job_id = 5,
         pj_command = ''ls'', pj_file_count = 1, pj_files_received = 0, pj_last_update = 0\<rparr>
   in concat (show_processing_queue [] (\<lambda>t. ''now'') [j]) =
        ''Processing queue:'' @ nl @ queue_entry (\<lambda>t. ''now'') 0 j"
proof -
  let ?j = "\<lparr>pj_client_id = replicate 16 0, pj_addr = \<lparr>sin_addr = 2, sin_port = 3\<rparr>, pj_job_id = 5,
         pj_command = ''ls'', pj_file_count = 1, pj_files_received = 0, pj_last_update = 0\<rparr> :: pending_job"
  have "length (queue_entry (\<lambda>t. ''now'') 0 ?j) \<le> 256"
    by code_simp
  then show ?thesis
    using show_queue_text [where adj = "[]" and jobs = "[?j]" and ctime = "\<lambda>t. ''now''"] by (simp add: Let_def)
qed

end
