(* ===== verification/UploadPool.thy ===== *)
theory UploadPool
  imports Server Admin
begin

section \<open>The upload threads (upload\_thread\_func of upload\_handler.c)\<close>

text \<open>
  \<open>init_upload_handler\<close> starts \<open>max_uploads\<close> threads, 20 at that time. Each locks the queue's
  mutex, waits on \<open>upload_available\<close> while the queue is empty or \<open>active_uploads >= max_uploads\<close>,
  takes a job, counts itself active, processes the job and counts itself inactive again. The
  threads are a list of program counters and the mutex the index of its holder. What matters for
  the interleavings is kept apart: locking, the evaluation of the waiting condition, going to
  sleep (which releases the mutex), taking the job (both counters' mutexes are held), and the
  end of an upload, which decrements the counter and signals without the queue's mutex.
  \<^item> \<open>pool_step\<close>: a step of one of the threads;
  \<^item> \<open>pool_arrival\<close>: \<open>handle_upload_request\<close> (insert and signal, under the mutex), or a wakeup
    without a signal, which POSIX allows;
  \<^item> \<open>pool_set_limit\<close>: the administrator changes \<open>max_uploads\<close>; nothing is signalled.
\<close>

datatype pc = Idle | Holding | Deciding | Picking | Asleep | Busy upload_job

record pool =
  p_queue :: "upload_job growable"
  p_threads :: "pc list"
  p_lock :: "nat option"
  p_active :: int
  p_limit :: int

definition pool_init :: pool where
  "pool_init = \<lparr>p_queue = g_init, p_threads = replicate MAX_UPLOADS Idle, p_lock = None,
     p_active = 0, p_limit = int MAX_UPLOADS\<rparr>"

text \<open>The condition of the \<open>while\<close> around \<open>pthread_cond_wait\<close>.\<close>

definition must_wait :: "pool \<Rightarrow> bool" where
  "must_wait s \<longleftrightarrow> g_size (p_queue s) = 0 \<or> p_active s \<ge> p_limit s"

text \<open>\<open>pthread_cond_signal\<close>: one sleeper, if there is one, becomes runnable.\<close>

inductive signalled :: "pc list \<Rightarrow> pc list \<Rightarrow> bool" where
  nobody: "Asleep \<notin> set ts \<Longrightarrow> signalled ts ts"
| wake: "k < length ts \<Longrightarrow> ts ! k = Asleep \<Longrightarrow> signalled ts (ts[k := Idle])"

inductive pool_step :: "pool \<Rightarrow> pool \<Rightarrow> bool" where
  lock: "i < length (p_threads s) \<Longrightarrow> p_threads s ! i = Idle \<Longrightarrow> p_lock s = None \<Longrightarrow>
    pool_step s (s\<lparr>p_threads := (p_threads s)[i := Holding], p_lock := Some i\<rparr>)"
| decide_wait: "i < length (p_threads s) \<Longrightarrow> p_threads s ! i = Holding \<Longrightarrow> must_wait s \<Longrightarrow>
    pool_step s (s\<lparr>p_threads := (p_threads s)[i := Deciding]\<rparr>)"
| sleep: "i < length (p_threads s) \<Longrightarrow> p_threads s ! i = Deciding \<Longrightarrow>
    pool_step s (s\<lparr>p_threads := (p_threads s)[i := Asleep], p_lock := None\<rparr>)"
| decide_go: "i < length (p_threads s) \<Longrightarrow> p_threads s ! i = Holding \<Longrightarrow> \<not> must_wait s \<Longrightarrow>
    pool_step s (s\<lparr>p_threads := (p_threads s)[i := Picking]\<rparr>)"
| pick: "i < length (p_threads s) \<Longrightarrow> p_threads s ! i = Picking \<Longrightarrow>
    g_pop (p_queue s) = Inr (job, q) \<Longrightarrow>
    pool_step s (s\<lparr>p_threads := (p_threads s)[i := Busy job], p_lock := None, p_queue := q,
      p_active := p_active s + 1\<rparr>)"
| finish: "i < length (p_threads s) \<Longrightarrow> p_threads s ! i = Busy job \<Longrightarrow>
    signalled ((p_threads s)[i := Idle]) ts \<Longrightarrow>
    pool_step s (s\<lparr>p_threads := ts, p_active := p_active s - 1\<rparr>)"

inductive pool_arrival :: "pool \<Rightarrow> pool \<Rightarrow> bool" where
  enqueue: "p_lock s = None \<Longrightarrow> enqueue_upload True (p_queue s) job = Inr q \<Longrightarrow>
    signalled (p_threads s) ts \<Longrightarrow>
    pool_arrival s (s\<lparr>p_queue := q, p_threads := ts\<rparr>)"
| spurious: "i < length (p_threads s) \<Longrightarrow> p_threads s ! i = Asleep \<Longrightarrow>
    pool_arrival s (s\<lparr>p_threads := (p_threads s)[i := Idle]\<rparr>)"

inductive pool_set_limit :: "pool \<Rightarrow> pool \<Rightarrow> bool" where
  set_limit: "pool_set_limit s (s\<lparr>p_limit := set_max_uploads n (p_limit s)\<rparr>)"

text \<open>
  The states reachable from one while the limit is left alone, and those reachable from the start
  when the administrator may change it.
\<close>

inductive pool_run :: "pool \<Rightarrow> pool \<Rightarrow> bool" for s0 :: pool where
  run_start: "pool_run s0 s0"
| run_step: "pool_run s0 s \<Longrightarrow> pool_step s t \<Longrightarrow> pool_run s0 t"
| run_arrival: "pool_run s0 s \<Longrightarrow> pool_arrival s t \<Longrightarrow> pool_run s0 t"

inductive pool_reach :: "pool \<Rightarrow> bool" where
  reach_init: "pool_reach pool_init"
| reach_step: "pool_reach s \<Longrightarrow> pool_step s t \<Longrightarrow> pool_reach t"
| reach_arrival: "pool_reach s \<Longrightarrow> pool_arrival s t \<Longrightarrow> pool_reach t"
| reach_limit: "pool_reach s \<Longrightarrow> pool_set_limit s t \<Longrightarrow> pool_reach t"

inductive_cases pool_stepE: "pool_step s t"
inductive_simps pool_set_limit_simp: "pool_set_limit s t"

subsection \<open>The invariant\<close>

fun is_busy :: "pc \<Rightarrow> bool" where
  "is_busy (Busy j) = True"
| "is_busy _ = False"

definition busy_count :: "pc list \<Rightarrow> nat" where
  "busy_count ts = length (filter is_busy ts)"

definition in_mutex :: "pc \<Rightarrow> bool" where
  "in_mutex p \<longleftrightarrow> p = Holding \<or> p = Deciding \<or> p = Picking"

text \<open>
  The counter is the number of busy threads, the mutex has one holder, and a thread about to
  take a job finds one, because nobody else can empty the queue meanwhile.
\<close>

definition pool_inv :: "pool \<Rightarrow> bool" where
  "pool_inv s \<longleftrightarrow> uploads_inv (p_queue s) \<and> length (p_threads s) = MAX_UPLOADS \<and>
     p_active s = int (busy_count (p_threads s)) \<and>
     (\<forall>i < length (p_threads s). in_mutex (p_threads s ! i) \<longleftrightarrow> p_lock s = Some i) \<and>
     (\<forall>i. p_lock s = Some i \<longrightarrow> i < length (p_threads s)) \<and>
     (Picking \<in> set (p_threads s) \<longrightarrow> g_size (p_queue s) \<noteq> 0) \<and>
     0 \<le> p_limit s \<and> p_limit s \<le> int MAX_UPLOADS"



section \<open>Lemmas\<close>

lemma filter_update_length:
  "i < length xs \<Longrightarrow> length (filter P (xs[i := x])) + (if P (xs ! i) then 1 else 0) =
   length (filter P xs) + (if P x then 1 else 0)"
proof (induction xs arbitrary: i)
  case Nil
  then show ?case by simp
next
  case (Cons y xs)
  then show ?case by (cases i) fastforce+
qed

lemma busy_count_same:
  "i < length ts \<Longrightarrow> is_busy (ts ! i) = is_busy p \<Longrightarrow> busy_count (ts[i := p]) = busy_count ts"
  using filter_update_length [of i ts is_busy p] by (auto simp: busy_count_def split: if_splits)

lemma busy_count_inc:
  "i < length ts \<Longrightarrow> \<not> is_busy (ts ! i) \<Longrightarrow> busy_count (ts[i := Busy j]) = busy_count ts + 1"
  using filter_update_length [of i ts is_busy "Busy j"] by (simp add: busy_count_def)

lemma busy_count_dec:
  "i < length ts \<Longrightarrow> is_busy (ts ! i) \<Longrightarrow> busy_count ts = busy_count (ts[i := Idle]) + 1"
  using filter_update_length [of i ts is_busy Idle] by (simp add: busy_count_def)

lemma busy_count_le: "busy_count ts \<le> length ts"
  by (simp add: busy_count_def)


text \<open>A signal changes a sleeper into a runnable thread, which no part of the invariant sees.\<close>

lemma signalled_frame:
  assumes "signalled ts us"
  shows "length us = length ts" "busy_count us = busy_count ts"
    "\<And>i. i < length ts \<Longrightarrow> in_mutex (us ! i) = in_mutex (ts ! i)"
    "Picking \<in> set us \<Longrightarrow> Picking \<in> set ts"
  using assms
  by (induction rule: signalled.induct)
    (auto simp: busy_count_same in_mutex_def nth_list_update in_set_conv_nth split: if_splits)

lemma pool_inv_init: "pool_inv pool_init"
  by (simp add: pool_inv_def pool_init_def uploads_inv_init busy_count_def in_mutex_def)

lemma Picking_update: "Picking \<in> set (ts[i := p]) \<Longrightarrow> p \<noteq> Picking \<Longrightarrow> Picking \<in> set ts"
  using set_update_subset_insert [of ts i p] by auto

lemma Picking_lock: "pool_inv s \<Longrightarrow> Picking \<in> set (p_threads s) \<Longrightarrow> p_lock s \<noteq> None"
  by (auto simp: pool_inv_def in_mutex_def in_set_conv_nth)

lemma pool_step_inv:
  assumes "pool_step s t" "pool_inv s"
  shows "pool_inv t"
  using assms
proof (induction rule: pool_step.induct)
  case (lock i s)
  then show ?case
    by (auto simp: pool_inv_def busy_count_same in_mutex_def nth_list_update dest: Picking_update)
next
  case (decide_wait i s)
  then show ?case
    by (auto simp: pool_inv_def busy_count_same in_mutex_def nth_list_update dest: Picking_update)
next
  case (sleep i s)
  then have "p_lock s = Some i" by (auto simp: pool_inv_def in_mutex_def)
  with sleep show ?case
    by (auto simp: pool_inv_def busy_count_same in_mutex_def nth_list_update dest: Picking_update)
next
  case (decide_go i s)
  then show ?case
    by (auto simp: pool_inv_def busy_count_same in_mutex_def nth_list_update must_wait_def)
next
  case (pick i s job q)
  then have l: "p_lock s = Some i" by (auto simp: pool_inv_def in_mutex_def)
  have sz: "g_size (p_queue s) \<noteq> 0" using pick by (auto simp: pool_inv_def in_set_conv_nth)
  then have "uploads_inv q"
    using dequeue_upload_ok [of "p_queue s"] pick by (auto simp: pool_inv_def)
  moreover have "Picking \<notin> set ((p_threads s)[i := Busy job])"
    using pick l by (auto simp: pool_inv_def in_mutex_def in_set_conv_nth nth_list_update)
  ultimately show ?case
    using pick l busy_count_inc [of i "p_threads s" job]
    by (auto simp: pool_inv_def in_mutex_def nth_list_update)
next
  case (finish i s job ts)
  note f = signalled_frame [OF finish(3)]
  have "busy_count (p_threads s) = busy_count ts + 1"
    using busy_count_dec finish(1,2) f(2) by simp
  moreover have "in_mutex (ts ! k) = in_mutex (p_threads s ! k)" if "k < length (p_threads s)" for k
    using f(3) [of k] finish(1,2) that by (auto simp: nth_list_update in_mutex_def)
  moreover have "Picking \<in> set ts \<Longrightarrow> Picking \<in> set (p_threads s)"
    using f(4) by (auto dest: Picking_update)
  ultimately show ?case using finish(4) f(1) by (auto simp: pool_inv_def)
qed

lemma enqueue_upload_size:
  assumes "uploads_inv q" "enqueue_upload True q j = Inr q'"
  shows "uploads_inv q' \<and> g_size q' = g_size q + 1"
proof -
  have q': "uploads_inv q'" "g_list q' = ordered_insert higher_priority (g_list q) j"
    using enqueue_upload_ok [OF assms(1), of j] assms(2) by auto
  then have "length (g_list q') = length (g_list q) + 1"
    by (metis Suc_eq_plus1 mset_ordered_insert size_add_mset size_mset)
  with q'(1) assms(1) show ?thesis by (simp add: length_g_list uploads_inv_def)
qed

lemma pool_arrival_inv:
  assumes "pool_arrival s t" "pool_inv s"
  shows "pool_inv t"
  using assms
proof (induction rule: pool_arrival.induct)
  case (enqueue s job q ts)
  note f = signalled_frame [OF enqueue(3)]
  have "uploads_inv q \<and> g_size q = g_size (p_queue s) + 1"
    using enqueue_upload_size enqueue(2,4) unfolding pool_inv_def by blast
  with enqueue f show ?case by (auto simp: pool_inv_def)
next
  case (spurious i s)
  then show ?case
    by (auto simp: pool_inv_def busy_count_same in_mutex_def nth_list_update dest: Picking_update)
qed

lemma pool_set_limit_inv: "pool_set_limit s t \<Longrightarrow> pool_inv s \<Longrightarrow> pool_inv t"
  by (auto simp: pool_set_limit_simp pool_inv_def set_max_uploads_def)

lemma pool_reach_inv: "pool_reach s \<Longrightarrow> pool_inv s"
  by (induction rule: pool_reach.induct)
    (blast intro: pool_inv_init pool_step_inv pool_arrival_inv pool_set_limit_inv)+

lemma pool_run_reach: "pool_run s0 s \<Longrightarrow> pool_reach s0 \<Longrightarrow> pool_reach s"
  by (induction rule: pool_run.induct) (blast intro: pool_reach.intros)+

subsection \<open>Progress with the limit the server starts with\<close>










subsection \<open>A limit that was lowered and raised again\<close>

text \<open>Every thread of the pool goes to sleep when the limit is 0.\<close>

lemma all_sleep:
  assumes "pool_reach s0" "p_threads s0 = replicate 20 Idle" "p_lock s0 = None" "p_limit s0 \<le> p_active s0"
    and "k \<le> 20"
  shows "pool_reach (s0\<lparr>p_threads := replicate k Asleep @ replicate (20 - k) Idle, p_lock := None\<rparr>)"
  using assms(5)
proof (induction k)
  case 0
  have "s0\<lparr>p_threads := replicate 20 Idle, p_lock := None\<rparr> = s0" using assms(2,3) by simp
  with assms(1) show ?case by simp
next
  case (Suc k)
  let ?ts = "\<lambda>p. replicate k Asleep @ p # replicate (20 - Suc k) Idle"
  let ?s = "\<lambda>p l. s0\<lparr>p_threads := ?ts p, p_lock := l\<rparr>"
  have upd: "(?ts p)[k := p'] = ?ts p'" "?ts p ! k = p" "k < length (?ts p)" for p p'
    using Suc.prems by (simp_all add: list_update_append nth_append)
  have "replicate (20 - k) Idle = Idle # replicate (20 - Suc k) Idle"
    using Suc.prems by (simp add: Suc_diff_Suc [symmetric] flip: replicate_Suc)
  with Suc have 1: "pool_reach (?s Idle None)" by simp
  have "pool_step (?s Idle None) (?s Holding (Some k))"
    using pool_step.lock [of k "?s Idle None"] upd by simp
  with 1 have 2: "pool_reach (?s Holding (Some k))" by (rule reach_step)
  have "pool_step (?s Holding (Some k)) ((?s Holding (Some k))\<lparr>p_threads := (?ts Holding)[k := Deciding]\<rparr>)"
    using decide_wait [of k "?s Holding (Some k)"] upd assms(4) by (simp add: must_wait_def)
  moreover have "(?s Holding (Some k))\<lparr>p_threads := (?ts Holding)[k := Deciding]\<rparr> = ?s Deciding (Some k)"
    unfolding upd(1) by (cases s0) simp
  ultimately have "pool_step (?s Holding (Some k)) (?s Deciding (Some k))" by (simp only:)
  with 2 have 3: "pool_reach (?s Deciding (Some k))" by (rule reach_step)
  have "pool_step (?s Deciding (Some k)) (?s Asleep None)"
    using sleep [of k "?s Deciding (Some k)"] upd by simp
  with 3 have "pool_reach (?s Asleep None)" by (rule reach_step)
  moreover have "replicate (Suc k) Asleep @ replicate (20 - Suc k) Idle = ?ts Asleep"
    by (simp add: replicate_app_Cons_same)
  ultimately show ?case by simp
qed

subsection \<open>The limit\<close>

text \<open>The uploads that are active or decided.\<close>

definition committed :: "pool \<Rightarrow> int" where
  "committed s = p_active s + (if Picking \<in> set (p_threads s) then 1 else 0)"

lemma committed_cong:
  "p_active t \<le> p_active s \<Longrightarrow> (Picking \<in> set (p_threads t) \<Longrightarrow> Picking \<in> set (p_threads s)) \<Longrightarrow>
   committed t \<le> committed s"
  by (auto simp: committed_def)

lemma pool_step_committed:
  assumes "pool_step s t" "pool_inv s" "committed s \<le> m" "p_limit s \<le> m"
  shows "committed t \<le> m \<and> p_limit t = p_limit s"
  using assms
proof (induction rule: pool_step.induct)
  case (lock i s)
  have "committed (s\<lparr>p_threads := (p_threads s)[i := Holding], p_lock := Some i\<rparr>) \<le> committed s"
    by (rule committed_cong) (auto dest: Picking_update)
  with lock show ?case by simp
next
  case (decide_wait i s)
  have "committed (s\<lparr>p_threads := (p_threads s)[i := Deciding]\<rparr>) \<le> committed s"
    by (rule committed_cong) (auto dest: Picking_update)
  with decide_wait show ?case by simp
next
  case (sleep i s)
  have "committed (s\<lparr>p_threads := (p_threads s)[i := Asleep], p_lock := None\<rparr>) \<le> committed s"
    by (rule committed_cong) (auto dest: Picking_update)
  with sleep show ?case by simp
next
  case (decide_go i s)
  then show ?case by (auto simp: committed_def must_wait_def)
next
  case (pick i s job q)
  then have "p_lock s = Some i" by (auto simp: pool_inv_def in_mutex_def)
  then have "Picking \<notin> set ((p_threads s)[i := Busy job])"
    using pick by (auto simp: pool_inv_def in_mutex_def in_set_conv_nth nth_list_update)
  moreover have "Picking \<in> set (p_threads s)" using pick(1,2) by (auto simp: in_set_conv_nth)
  ultimately show ?case using pick(5,6) by (simp add: committed_def)
next
  case (finish i s job ts)
  have "committed (s\<lparr>p_threads := ts, p_active := p_active s - 1\<rparr>) \<le> committed s"
    using signalled_frame(4) [OF finish(3)] by (intro committed_cong) (auto dest: Picking_update)
  with finish show ?case by simp
qed

lemma pool_arrival_committed:
  assumes "pool_arrival s t"
  shows "committed t \<le> committed s \<and> p_limit t = p_limit s"
  using assms
proof (induction rule: pool_arrival.induct)
  case (enqueue s job q ts)
  then show ?case using signalled_frame(4) [OF enqueue(3)] by (auto intro: committed_cong)
next
  case (spurious i s)
  then show ?case by (auto intro!: committed_cong dest: Picking_update)
qed

lemma pool_run_committed:
  assumes "pool_run s0 s" "pool_inv s0"
  shows "pool_inv s \<and> p_limit s = p_limit s0 \<and> committed s \<le> max (committed s0) (p_limit s0)"
  using assms
proof (induction rule: pool_run.induct)
  case run_start
  then show ?case by simp
next
  case (run_step s t)
  then show ?case
    using pool_step_committed [OF run_step(2), of "max (committed s0) (p_limit s0)"] pool_step_inv
    by auto
next
  case (run_arrival s t)
  then show ?case using pool_arrival_committed [OF run_arrival(2)] pool_arrival_inv by fastforce
qed

text \<open>A request that finds the queue empty and nobody asleep.\<close>

lemma first_arrival:
  assumes "p_queue s = g_init" "p_lock s = None" "Asleep \<notin> set (p_threads s)"
  shows "\<exists>q. pool_arrival s (s\<lparr>p_queue := q\<rparr>) \<and> g_list q = [job] \<and> g_size q = 1"
proof -
  obtain q where q: "enqueue_upload True g_init job = Inr q" "g_list q = [job]"
    using enqueue_upload_ok [OF uploads_inv_init, of job] by (auto simp: g_list_init)
  have "g_size q = 1"
    using enqueue_upload_size [OF uploads_inv_init q(1)] by (simp add: g_init_def)
  moreover have "pool_arrival s (s\<lparr>p_queue := q, p_threads := p_threads s\<rparr>)"
    by (rule enqueue [where job = job, OF assms(2) _ nobody [OF assms(3)]]) (simp add: assms(1) q(1))
  ultimately show ?thesis using q(2) by auto
qed

section \<open>Properties\<close>

text \<open>
  C8: In every reachable state, whatever the interleaving of threads, requests, spurious wakeups
  and limit changes: \<open>active_uploads\<close> is the number of threads in an upload and at most 20, at
  most one thread holds the queue's mutex, the limit is between 0 and 20, and a thread that is
  about to take a job finds one.
\<close>

theorem pool_counters:
  assumes "pool_reach s"
  shows "p_active s = int (busy_count (p_threads s)) \<and> p_active s \<le> int MAX_UPLOADS \<and>
    (\<forall>i < length (p_threads s). \<forall>k < length (p_threads s).
       in_mutex (p_threads s ! i) \<longrightarrow> in_mutex (p_threads s ! k) \<longrightarrow> i = k) \<and>
    0 \<le> p_limit s \<and> p_limit s \<le> int MAX_UPLOADS \<and>
    (Picking \<in> set (p_threads s) \<longrightarrow> (\<exists>job q. g_pop (p_queue s) = Inr (job, q)))"
proof -
  have i: "pool_inv s" using assms by (rule pool_reach_inv)
  then have "p_active s \<le> int MAX_UPLOADS"
    using busy_count_le [of "p_threads s"] by (simp add: pool_inv_def)
  moreover have "\<exists>job q. g_pop (p_queue s) = Inr (job, q)" if "Picking \<in> set (p_threads s)"
    using i that dequeue_upload_ok unfolding pool_inv_def by blast
  moreover have "i = k" if "i < length (p_threads s)" "k < length (p_threads s)"
    "in_mutex (p_threads s ! i)" "in_mutex (p_threads s ! k)" for i k
    using i that by (auto simp: pool_inv_def)
  ultimately show ?thesis using i by (simp add: pool_inv_def)
qed

theorem pool_counters_witness:
  "p_active pool_init = int (busy_count (p_threads pool_init)) \<and> p_active pool_init \<le> int MAX_UPLOADS"
  using pool_counters [OF reach_init] by simp

text \<open>
  C9: The limit is kept: as long as it is left at \<open>L\<close>, the number of active uploads never exceeds
  the larger of \<open>L\<close> and what was active, or already decided, when it was set.
\<close>

theorem upload_limit_respected:
  assumes "pool_reach s0" "pool_run s0 s"
  shows "p_active s \<le> max (p_active s0 + (if Picking \<in> set (p_threads s0) then 1 else 0)) (p_limit s0)"
  using pool_run_committed [OF assms(2) pool_reach_inv [OF assms(1)]]
  by (simp add: committed_def split: if_splits)

theorem upload_limit_respected_witness:
  "\<exists>s0. p_limit s0 = 3 \<and> (\<forall>s. pool_run s0 s \<longrightarrow> p_active s \<le> 3)"
proof -
  let ?s0 = "pool_init\<lparr>p_limit := set_max_uploads 3 (p_limit pool_init)\<rparr>"
  have r: "pool_reach ?s0" by (rule reach_limit [OF reach_init set_limit])
  have "p_active s \<le> 3" if "pool_run ?s0 s" for s
    using upload_limit_respected [OF r that]
    by (simp add: pool_init_def set_max_uploads_def MAX_UPLOADS_def)
  then show ?thesis by (intro exI [of _ ?s0]) (simp add: set_max_uploads_def MAX_UPLOADS_def)
qed



text \<open>
  C11: After the limit was lowered to 0 and raised to 20 again it can get stuck: since
  \<open>set_max_uploads\<close> signals nobody, a state is reachable in which the limit is 20, no upload is
  active, a job waits in the queue and all 20 threads are asleep, so that no thread has a step.
\<close>

theorem upload_pool_stuck_after_limit_change:
  "\<exists>s. pool_reach s \<and> p_limit s = 20 \<and> p_active s = 0 \<and> g_list (p_queue s) = [job] \<and>
     p_threads s = replicate 20 Asleep \<and> (\<nexists>t. pool_step s t)"
proof -
  define s1 where "s1 = pool_init\<lparr>p_limit := 0\<rparr>"
  have "pool_set_limit pool_init (pool_init\<lparr>p_limit := set_max_uploads 0 (p_limit pool_init)\<rparr>)"
    by (rule set_limit)
  then have r1: "pool_reach s1" unfolding s1_def
    using reach_limit [OF reach_init] by (simp add: set_max_uploads_def MAX_UPLOADS_def)
  obtain q where q: "pool_arrival s1 (s1\<lparr>p_queue := q\<rparr>)" "g_list q = [job]"
    using first_arrival [of s1 job] by (auto simp: s1_def pool_init_def)
  have r2: "pool_reach (s1\<lparr>p_queue := q\<rparr>)" by (rule reach_arrival [OF r1 q(1)])
  define s3 where "s3 = s1\<lparr>p_queue := q, p_threads := replicate 20 Asleep, p_lock := None\<rparr>"
  have "pool_reach s3"
    using all_sleep [OF r2, of 20] by (simp add: s3_def s1_def pool_init_def MAX_UPLOADS_def)
  then have "pool_reach (s3\<lparr>p_limit := set_max_uploads 20 (p_limit s3)\<rparr>)"
    by (rule reach_limit [OF _ set_limit])
  then have "pool_reach (s3\<lparr>p_limit := 20\<rparr>)" by (simp add: set_max_uploads_def MAX_UPLOADS_def)
  moreover have "\<nexists>t. pool_step (s3\<lparr>p_limit := 20\<rparr>) t"
    by (auto simp: s3_def elim!: pool_stepE)
  ultimately show ?thesis
    using q(2) by (intro exI [of _ "s3\<lparr>p_limit := 20\<rparr>"]) (simp add: s3_def s1_def pool_init_def)
qed

end
