(* ===== verification/ServerMachine.thy ===== *)
theory ServerMachine
  imports Admin
begin

section \<open>The whole server as one machine\<close>










section \<open>Machines that never fault\<close>



section \<open>The server is such a machine\<close>








section \<open>Properties\<close>



end
