(* ===== verification/FfmpegCommands.thy ===== *)
theory FfmpegCommands
  imports Protocol Doubles
begin

section \<open>The command lines of the client (src/client/ffmpeg\_commands.c, menu.c)\<close>

text \<open>
  Every menu entry builds one shell command with \<open>snprintf\<close> from what the user typed. The values
  the variables hold after \<open>scanf\<close> are the arguments here. \<open>%f\<close> conversions print a C \<open>float\<close>;
  those are modelled exactly, as binary numbers that \<open>printf\<close> rounds to the digits asked for.
\<close>

subsection \<open>C floats\<close>

text \<open>
  \<open>Float neg m k\<close> is the number \<open>m * 2 ^ (k - 149)\<close>, negative if \<open>neg\<close>: 149 is the weight of the
  last bit of the smallest \<open>float\<close>, so every finite value has this form.
\<close>

datatype cfloat = Float bool nat nat | Infinite bool | Not_A_Number bool

text \<open>
  The \<open>float\<close> nearest to \<open>p / q\<close> in units of \<open>2 ^ -149\<close>, ties to even: 24 bits are kept, and
  all bits of values below \<open>2 ^ 24\<close> units. \<open>2 ^ 128\<close> and above is infinite.
\<close>

definition float_round :: "bool \<Rightarrow> nat \<Rightarrow> nat \<Rightarrow> cfloat" where
  "float_round neg p q =
     (let k = bitlen (p div q) - 24; m = round_quot p (q * 2 ^ k)
      in if m * 2 ^ k \<ge> 2 ^ (128 + 149) then Infinite neg else Float neg m k)"

text \<open>\<open>1 / x\<close> and \<open>x / 2\<close> of \<open>float\<close> operands.\<close>

fun float_recip :: "cfloat \<Rightarrow> cfloat" where
  "float_recip (Float neg m k) =
     (if m = 0 then Infinite neg else float_round neg (2 ^ (149 + 149)) (m * 2 ^ k))"
| "float_recip (Infinite neg) = Float neg 0 0"
| "float_recip (Not_A_Number neg) = Not_A_Number neg"

fun float_half :: "cfloat \<Rightarrow> cfloat" where
  "float_half (Float neg m k) = float_round neg (m * 2 ^ k) 2"
| "float_half x = x"

text \<open>\<open>%.1f\<close> and \<open>%.2f\<close>: the value is rounded to \<open>d\<close> decimals, ties to even.\<close>

definition show_fixed :: "nat \<Rightarrow> nat \<Rightarrow> string" where
  "show_fixed d n = dec_nat (n div 10 ^ d) @ ''.'' @
     (let frac = dec_nat (n mod 10 ^ d) in replicate (d - length frac) (CHR ''0'') @ frac)"

definition sign :: "bool \<Rightarrow> string" where
  "sign neg = (if neg then ''-'' else [])"

fun show_float :: "nat \<Rightarrow> cfloat \<Rightarrow> string" where
  "show_float d (Float neg m k) = sign neg @ show_fixed d (round_quot (m * 2 ^ k * 10 ^ d) (2 ^ 149))"
| "show_float d (Infinite neg) = sign neg @ ''inf''"
| "show_float d (Not_A_Number neg) = sign neg @ ''nan''"

subsection \<open>The builders\<close>

definition quote :: string where "quote = [CHR 0x22]"

definition build_trim_command :: "string \<Rightarrow> string \<Rightarrow> string \<Rightarrow> string \<Rightarrow> nat \<Rightarrow> string" where
  "build_trim_command input output start_time end_time sz =
     snprintf sz (''ffmpeg -i '' @ input @ '' -ss '' @ start_time @ '' -to '' @ end_time @
                  '' -c copy '' @ output)"

definition build_resize_command :: "string \<Rightarrow> string \<Rightarrow> int \<Rightarrow> int \<Rightarrow> nat \<Rightarrow> string" where
  "build_resize_command input output width height sz =
     snprintf sz (''ffmpeg -i '' @ input @ '' -vf scale='' @ dec_int width @ '':'' @ dec_int height @
                  '' '' @ output)"

definition build_convert_command :: "string \<Rightarrow> string \<Rightarrow> nat \<Rightarrow> string" where
  "build_convert_command input output sz = snprintf sz (''ffmpeg -i '' @ input @ '' '' @ output)"

definition build_extract_audio_command :: "string \<Rightarrow> string \<Rightarrow> nat \<Rightarrow> string" where
  "build_extract_audio_command input output sz =
     snprintf sz (''ffmpeg -i '' @ input @ '' -vn -acodec copy '' @ output)"

definition build_extract_video_command :: "string \<Rightarrow> string \<Rightarrow> nat \<Rightarrow> string" where
  "build_extract_video_command input output sz =
     snprintf sz (''ffmpeg -i '' @ input @ '' -an -vcodec copy '' @ output)"

definition build_adjust_brightness_command :: "string \<Rightarrow> string \<Rightarrow> cfloat \<Rightarrow> nat \<Rightarrow> string" where
  "build_adjust_brightness_command input output val sz =
     snprintf sz (''ffmpeg -i '' @ input @ '' -vf eq=brightness='' @ show_float 2 val @ '' '' @ output)"

definition build_adjust_contrast_command :: "string \<Rightarrow> string \<Rightarrow> cfloat \<Rightarrow> nat \<Rightarrow> string" where
  "build_adjust_contrast_command input output val sz =
     snprintf sz (''ffmpeg -i '' @ input @ '' -vf eq=contrast='' @ show_float 2 val @ '' '' @ output)"

definition build_adjust_saturation_command :: "string \<Rightarrow> string \<Rightarrow> cfloat \<Rightarrow> nat \<Rightarrow> string" where
  "build_adjust_saturation_command input output val sz =
     snprintf sz (''ffmpeg -i '' @ input @ '' -vf eq=saturation='' @ show_float 2 val @ '' '' @ output)"

definition transpose_filter :: "int \<Rightarrow> string" where
  "transpose_filter angle =
     (if angle = 90 then ''transpose=1'' else if angle = 180 then ''transpose=1,transpose=1''
      else if angle = 270 then ''transpose=2'' else [])"

definition build_rotate_command :: "string \<Rightarrow> string \<Rightarrow> int \<Rightarrow> nat \<Rightarrow> string" where
  "build_rotate_command input output angle sz =
     snprintf sz (''ffmpeg -i '' @ input @ '' -vf '' @ quote @ transpose_filter angle @ quote @ '' '' @ output)"

definition build_crop_command ::
  "string \<Rightarrow> string \<Rightarrow> int \<Rightarrow> int \<Rightarrow> int \<Rightarrow> int \<Rightarrow> nat \<Rightarrow> string" where
  "build_crop_command input output x y width height sz =
     snprintf sz (''ffmpeg -i '' @ input @ '' -filter:v '' @ quote @ ''crop='' @ dec_int width @ '':'' @
       dec_int height @ '':'' @ dec_int x @ '':'' @ dec_int y @ quote @ '' '' @ output)"

definition build_add_watermark_command :: "string \<Rightarrow> string \<Rightarrow> string \<Rightarrow> int \<Rightarrow> int \<Rightarrow> nat \<Rightarrow> string" where
  "build_add_watermark_command input output watermark x y sz =
     snprintf sz (''ffmpeg -i '' @ input @ '' -i '' @ watermark @ '' -filter_complex '' @ quote @
       ''overlay='' @ dec_int x @ '':'' @ dec_int y @ quote @ '' '' @ output)"

definition build_add_subtitles_command :: "string \<Rightarrow> string \<Rightarrow> string \<Rightarrow> nat \<Rightarrow> string" where
  "build_add_subtitles_command input output subtitles sz =
     snprintf sz (''ffmpeg -i '' @ input @ '' -vf subtitles='' @ subtitles @ '' '' @ output)"

definition build_change_speed_command :: "string \<Rightarrow> string \<Rightarrow> cfloat \<Rightarrow> nat \<Rightarrow> string" where
  "build_change_speed_command input output speed sz =
     snprintf sz (''ffmpeg -i '' @ input @ '' -filter:v '' @ quote @ ''setpts='' @
       show_float 2 (float_recip speed) @ ''*PTS'' @ quote @ '' '' @ output)"

definition build_reverse_command :: "string \<Rightarrow> string \<Rightarrow> nat \<Rightarrow> string" where
  "build_reverse_command input output sz =
     snprintf sz (''ffmpeg -i '' @ input @ '' -vf reverse -af areverse '' @ output)"

definition build_extract_frame_command :: "string \<Rightarrow> string \<Rightarrow> string \<Rightarrow> nat \<Rightarrow> string" where
  "build_extract_frame_command input output timestamp sz =
     snprintf sz (''ffmpeg -i '' @ input @ '' -ss '' @ timestamp @ '' -vframes 1 '' @ output)"

definition build_create_gif_command ::
  "string \<Rightarrow> string \<Rightarrow> string \<Rightarrow> string \<Rightarrow> int \<Rightarrow> int \<Rightarrow> nat \<Rightarrow> string" where
  "build_create_gif_command input output start fin width fps sz =
     snprintf sz (''ffmpeg -i '' @ input @ '' -ss '' @ start @ '' -to '' @ fin @ '' -vf '' @ quote @
       ''fps='' @ dec_int fps @ '',scale='' @ dec_int width @
       '':-1:flags=lanczos,split[s0][s1];[s0]palettegen[p];[s1][p]paletteuse'' @ quote @
       '' -loop 0 '' @ output)"

definition build_denoise_command :: "string \<Rightarrow> string \<Rightarrow> cfloat \<Rightarrow> nat \<Rightarrow> string" where
  "build_denoise_command input output strength sz =
     snprintf sz (''ffmpeg -i '' @ input @ '' -vf hqdn3d='' @ show_float 1 strength @ '':'' @
       show_float 1 strength @ '':'' @ show_float 1 (float_half strength) @ '':'' @
       show_float 1 (float_half strength) @ '' '' @ output)"

definition build_stabilize_command :: "string \<Rightarrow> string \<Rightarrow> nat \<Rightarrow> string" where
  "build_stabilize_command input output sz =
     snprintf sz (''ffmpeg -i '' @ input @
       '' -vf vidstabdetect=shakiness=10:accuracy=15:result=transform_vectors.trf -f null - && '' @
       ''ffmpeg -i '' @ input @
       '' -vf vidstabtransform=input=transform_vectors.trf:zoom=0:smoothing=10 '' @ output)"

definition build_merge_command :: "string \<Rightarrow> string \<Rightarrow> string \<Rightarrow> nat \<Rightarrow> string" where
  "build_merge_command input output second_file sz =
     snprintf sz (''ffmpeg -i '' @ input @ '' -i '' @ second_file @ '' -filter_complex '' @ quote @
       ''concat=n=2:v=1:a=1'' @ quote @ '' '' @ output)"

definition build_add_audio_command :: "string \<Rightarrow> string \<Rightarrow> string \<Rightarrow> nat \<Rightarrow> string" where
  "build_add_audio_command input output audio_file sz =
     snprintf sz (''ffmpeg -i '' @ input @ '' -i '' @ audio_file @
       '' -c:v copy -map 0:v:0 -map 1:a:0 -shortest '' @ output)"

subsection \<open>The dispatch of process\_menu\_choice\<close>

text \<open>
  What the user answers to the builder's questions: short and long strings, integers and a float,
  each in the order they are asked. The bounds are those of the \<open>scanf\<close> formats and of \<open>int\<close>.
\<close>

record answers =
  an_short :: "string \<times> string"
  an_long :: string
  an_ints :: "int \<times> int \<times> int \<times> int"
  an_float :: cfloat

fun float_ok :: "cfloat \<Rightarrow> bool" where
  "float_ok (Float neg m k) = (m * 2 ^ k < 2 ^ (128 + 149))"
| "float_ok _ = True"

definition int_ok :: "int \<Rightarrow> bool" where
  "int_ok i \<longleftrightarrow> - (2 ^ 31) \<le> i \<and> i < 2 ^ 31"

definition answers_ok :: "answers \<Rightarrow> bool" where
  "answers_ok a \<longleftrightarrow> length (fst (an_short a)) \<le> 15 \<and> length (snd (an_short a)) \<le> 15 \<and>
     length (an_long a) \<le> 255 \<and> float_ok (an_float a) \<and>
     (case an_ints a of (i, j, k, l) \<Rightarrow> int_ok i \<and> int_ok j \<and> int_ok k \<and> int_ok l)"

text \<open>The \<open>switch\<close>; \<open>None\<close> is its \<open>default\<close>.\<close>

definition build_command :: "int \<Rightarrow> string \<Rightarrow> string \<Rightarrow> answers \<Rightarrow> nat \<Rightarrow> string option" where
  "build_command choice input output a sz =
     (case an_ints a of (i, j, k, l) \<Rightarrow>
      if choice = 1 then Some (build_trim_command input output (fst (an_short a)) (snd (an_short a)) sz)
      else if choice = 2 then Some (build_resize_command input output i j sz)
      else if choice = 3 then Some (build_convert_command input output sz)
      else if choice = 4 then Some (build_extract_audio_command input output sz)
      else if choice = 5 then Some (build_extract_video_command input output sz)
      else if choice = 6 then Some (build_adjust_brightness_command input output (an_float a) sz)
      else if choice = 7 then Some (build_adjust_contrast_command input output (an_float a) sz)
      else if choice = 8 then Some (build_adjust_saturation_command input output (an_float a) sz)
      else if choice = 9 then Some (build_rotate_command input output i sz)
      else if choice = 10 then Some (build_crop_command input output i j k l sz)
      else if choice = 11 then Some (build_add_watermark_command input output (an_long a) i j sz)
      else if choice = 12 then Some (build_add_subtitles_command input output (an_long a) sz)
      else if choice = 13 then Some (build_change_speed_command input output (an_float a) sz)
      else if choice = 14 then Some (build_reverse_command input output sz)
      else if choice = 15 then Some (build_extract_frame_command input output (fst (an_short a)) sz)
      else if choice = 16 then
        Some (build_create_gif_command input output (fst (an_short a)) (snd (an_short a)) i j sz)
      else if choice = 17 then Some (build_denoise_command input output (an_float a) sz)
      else if choice = 18 then Some (build_stabilize_command input output sz)
      else if choice = 19 then Some (build_merge_command input output (an_long a) sz)
      else if choice = 20 then Some (build_add_audio_command input output (an_long a) sz)
      else None)"

lemmas builder_defs =
  build_trim_command_def build_resize_command_def build_convert_command_def
  build_extract_audio_command_def build_extract_video_command_def
  build_adjust_brightness_command_def build_adjust_contrast_command_def
  build_adjust_saturation_command_def build_rotate_command_def build_crop_command_def
  build_add_watermark_command_def build_add_subtitles_command_def
  build_change_speed_command_def build_reverse_command_def build_extract_frame_command_def
  build_create_gif_command_def build_denoise_command_def build_stabilize_command_def
  build_merge_command_def build_add_audio_command_def

section \<open>Lemmas\<close>

lemma length_dec_int: "int_ok i \<Longrightarrow> length (dec_int i) \<le> 11"
proof -
  assume "int_ok i"
  then have i: "\<bar>i\<bar> \<le> 2 ^ 31" by (auto simp: int_ok_def)
  then have "nat \<bar>i\<bar> < 10 ^ 10" by simp
  then have "length (dec_nat (nat \<bar>i\<bar>)) \<le> 10" by (rule length_dec_nat_le) simp
  then show ?thesis by (cases "i < 0") (simp_all add: dec_int_def)
qed

lemma round_quot_le_Suc: "round_quot a b \<le> a div b + 1"
  by (simp add: round_quot_def Let_def)

lemma length_show_fixed:
  assumes "n < 10 ^ (39 + d)" "0 < d" "d \<le> 2"
  shows "length (show_fixed d n) \<le> 40 + d"
proof -
  have "n div 10 ^ d < 10 ^ 39"
    using assms(1) by (simp add: less_mult_imp_div_less power_add)
  then have "length (dec_nat (n div 10 ^ d)) \<le> 39" by (rule length_dec_nat_le) simp
  moreover have "length (dec_nat (n mod 10 ^ d)) \<le> d"
    by (rule length_dec_nat_le) (simp_all add: assms(2))
  ultimately show ?thesis by (simp add: show_fixed_def Let_def)
qed

text \<open>The largest \<open>float\<close> has 39 digits before the point.\<close>

lemma length_show_float:
  assumes "float_ok x" "0 < d" "d \<le> 2"
  shows "length (show_float d x) \<le> 41 + d"
proof (cases x)
  case (Float neg m k)
  have "m * 2 ^ k * 10 ^ d < 2 ^ (128 + 149) * 10 ^ d"
    using assms(1) Float by simp
  then have "m * 2 ^ k * 10 ^ d div 2 ^ 149 < 2 ^ 128 * 10 ^ d"
    by (simp add: less_mult_imp_div_less power_add mult.commute mult.left_commute)
  then have "round_quot (m * 2 ^ k * 10 ^ d) (2 ^ 149) \<le> 2 ^ 128 * 10 ^ d"
    using round_quot_le_Suc [of "m * 2 ^ k * 10 ^ d" "2 ^ 149"] by simp
  also have "(2 :: nat) ^ 128 * 10 ^ d < 10 ^ (39 + d)" by (simp add: power_add)
  finally have "length (show_fixed d (round_quot (m * 2 ^ k * 10 ^ d) (2 ^ 149))) \<le> 40 + d"
    using assms(2,3) by (intro length_show_fixed)
  with Float show ?thesis by (simp add: sign_def)
qed (simp_all add: sign_def)

lemma float_round_ok: "float_ok (float_round neg p q)"
  by (simp add: float_round_def Let_def)

lemma float_recip_ok: "float_ok (float_recip x)"
  by (cases x) (simp_all add: float_round_ok)

lemma float_half_ok: "float_ok x \<Longrightarrow> float_ok (float_half x)"
  by (cases x) (simp_all add: float_round_ok)

text \<open>A smaller buffer gives a prefix; every command is shorter than \<open>MAX_CMD_LEN\<close>.\<close>

lemma build_command_shorter:
  "sz \<le> sz' \<Longrightarrow> build_command choice input output a sz =
     map_option (snprintf sz) (build_command choice input output a sz')"
  by (simp add: build_command_def builder_defs snprintf_def min_absorb1 split: prod.splits)

lemma build_command_length:
  assumes "answers_ok a" "length input \<le> 255" "length output \<le> 255" "MAX_CMD_LEN \<le> sz"
    and "build_command choice input output a sz = Some cmd"
  shows "length cmd < MAX_CMD_LEN"
proof -
  obtain i j k l where ints: "an_ints a = (i, j, k, l)" by (cases "an_ints a")
  have ok: "int_ok i" "int_ok j" "int_ok k" "int_ok l" "float_ok (an_float a)"
    "length (fst (an_short a)) \<le> 15" "length (snd (an_short a)) \<le> 15" "length (an_long a) \<le> 255"
    using assms(1) by (simp_all add: answers_ok_def ints)
  note b = length_dec_int [OF ok(1)] length_dec_int [OF ok(2)] length_dec_int [OF ok(3)] length_dec_int [OF ok(4)]
    length_show_float [OF ok(5), of 1, simplified] length_show_float [OF ok(5), of 2, simplified]
    length_show_float [OF float_recip_ok [of "an_float a"], of 2, simplified]
    length_show_float [OF float_half_ok [OF ok(5)], of 1, simplified]
  show ?thesis
    using assms(5) b ok(6-8) assms(2,3)
    by (auto simp: build_command_def ints builder_defs length_snprintf protocol_consts quote_def
        transpose_filter_def min_less_iff_disj split: if_splits)
qed

lemma build_command_defined:
  "build_command choice input output a sz \<noteq> None \<longleftrightarrow> 1 \<le> choice \<and> choice \<le> 20"
  by (auto simp: build_command_def split: prod.splits if_splits; presburger)

section \<open>Properties\<close>

text \<open>
  C30: No command is ever cut: for the menu entries 1 to 20 and whatever the user types within the
  \<open>scanf\<close> widths, any buffer of at least \<open>MAX_CMD_LEN\<close> bytes receives the same, complete command,
  which is shorter than \<open>MAX_CMD_LEN\<close>; any other choice builds none.
\<close>

theorem command_never_truncated:
  assumes "answers_ok a" "length input \<le> 255" "length output \<le> 255"
  shows "if 1 \<le> choice \<and> choice \<le> 20
    then \<exists>cmd. length cmd < MAX_CMD_LEN \<and>
      (\<forall>sz \<ge> MAX_CMD_LEN. build_command choice input output a sz = Some cmd)
    else \<forall>sz. build_command choice input output a sz = None"
proof (cases "1 \<le> choice \<and> choice \<le> 20")
  case True
  then obtain cmd where cmd: "build_command choice input output a MAX_CMD_LEN = Some cmd"
    using build_command_defined by (metis not_None_eq)
  have "build_command choice input output a sz = Some cmd" if sz: "MAX_CMD_LEN \<le> sz" for sz
  proof -
    obtain c where c: "build_command choice input output a sz = Some c"
      using True build_command_defined by (metis not_None_eq)
    then have "cmd = snprintf MAX_CMD_LEN c"
      using build_command_shorter [OF sz] cmd by (metis option.inject option.simps(9))
    with build_command_length [OF assms sz c] c show ?thesis by (simp add: snprintf_fits)
  qed
  with True build_command_length [OF assms le_refl cmd] show ?thesis by auto
next
  case False
  then show ?thesis using build_command_defined by (metis (full_types))
qed

theorem command_never_truncated_witness:
  "let a = \<lparr>an_short = (''00:00:01'', ''00:00:02''), an_long = ''w.png'', an_ints = (90, 2, 3, 4),
         an_float = Float False 1 149\<rparr>
   in \<exists>cmd. length cmd < MAX_CMD_LEN \<and> build_command 13 ''in.mp4'' ''out.mp4'' a 5000 = Some cmd"
proof -
  let ?a = "\<lparr>an_short = (''00:00:01'', ''00:00:02''), an_long = ''w.png'', an_ints = (90, 2, 3, 4),
         an_float = Float False 1 149\<rparr>"
  have "answers_ok ?a" by (simp add: answers_ok_def int_ok_def)
  from command_never_truncated [OF this, of "''in.mp4''" "''out.mp4''" 13] show ?thesis
    by (auto simp: Let_def protocol_consts)
qed

end
