(* ===== verification/Client.thy ===== *)
theory Client
  imports FfmpegCommands Uploads
begin

section \<open>The menu client (src/client/client.c)\<close>

text \<open>
  The client asks the server for an identifier, sends heartbeats from a thread, and runs one job
  at a time: \<open>submit_job\<close> announces the job, uploads its files and waits for the result,
  \<open>download_file\<close> fetches the output. The network is the record \<open>net\<close>: the file and stream calls
  of \<open>os\<close>, and \<open>sendto\<close>, \<open>recvfrom\<close>, \<open>socket\<close> and \<open>connect\<close>. \<open>recvfrom\<close> stores the sender's
  address into \<open>server_addr\<close>, which the next \<open>sendto\<close> uses. A result is \<open>None\<close> when the call
  never returns, since nothing bounds how long a file is or how many other datagrams arrive.
\<close>

definition CLIENT_BUFFER :: nat where "CLIENT_BUFFER = 4096"
definition MAX_RETRIES :: nat where "MAX_RETRIES = 3"

record client =
  cl_id :: "byte list"
  cl_next_message_id :: "32 word"
  cl_server :: sockaddr_in

record 'w net =
  n_os :: "'w os"
  n_sendto :: "sockaddr_in \<Rightarrow> byte list \<Rightarrow> 'w \<Rightarrow> bool \<times> 'w"
  n_recvfrom :: "'w \<Rightarrow> (byte list \<times> sockaddr_in) option \<times> 'w"
  n_socket :: "'w \<Rightarrow> nat option \<times> 'w"
  n_connect :: "nat \<Rightarrow> sockaddr_in \<Rightarrow> 'w \<Rightarrow> bool \<times> 'w"

text \<open>Sequencing of calls that may fault or never return.\<close>

definition dbind :: "'a result option \<Rightarrow> ('a \<Rightarrow> 'b result option) \<Rightarrow> 'b result option" where
  "dbind r f = (case r of None \<Rightarrow> None | Some (Inl e) \<Rightarrow> Some (Inl e) | Some (Inr x) \<Rightarrow> f x)"

text \<open>
  \<open>recvfrom (sockfd, buffer, BUFFER_SIZE, \<dots>)\<close>: the number of bytes (None: -1), the buffer, the
  client with its new \<open>server_addr\<close>, and the world.
\<close>

definition receive :: "'w net \<Rightarrow> byte list \<Rightarrow> client \<Rightarrow> 'w \<Rightarrow> nat option \<times> byte list \<times> client \<times> 'w" where
  "receive net buf c w =
     (case n_recvfrom net w of
        (None, w1) \<Rightarrow> (None, buf, c, w1)
      | (Some (d, sender), w1) \<Rightarrow>
          (Some (length (take CLIENT_BUFFER d)), recv_into buf (take CLIENT_BUFFER d),
           c\<lparr>cl_server := sender\<rparr>, w1))"

text \<open>The terminator the client stores behind the text of an answer.\<close>

definition terminate_msg :: "nat \<Rightarrow> 16 word \<Rightarrow> byte list \<Rightarrow> byte list result" where
  "terminate_msg hdr len buf =
     (if 0 < unat len \<and> unat len < CLIENT_BUFFER - hdr then poke (hdr + unat len) 0 buf
      else poke hdr 0 buf)"

subsection \<open>Identifier and heartbeat\<close>

fun id_loop :: "nat \<Rightarrow> 'w net \<Rightarrow> byte list \<Rightarrow> byte list \<Rightarrow> client \<Rightarrow> 'w \<Rightarrow> bool \<times> client \<times> 'w" where
  "id_loop 0 net buf req c w = (False, c, w)"
| "id_loop (Suc k) net buf req c w =
     (let s = n_sendto net (cl_server c) req w in
      if \<not> fst s then id_loop k net buf req c (snd s)
      else case receive net buf c (snd s) of (n, buf1, c1, w1) \<Rightarrow>
        if n \<noteq> None \<and> the n \<ge> sizeof_ClientIdResponse
        then (True, c1\<lparr>cl_id := cr_client_id (load_client_id_response buf1)\<rparr>, w1)
        else id_loop k net buf req c1 w1)"

text \<open>\<open>get_client_id\<close>; False is \<open>exit (EXIT_FAILURE)\<close>. \<open>mem\<close> is the stack memory of \<open>req\<close>.\<close>

definition get_client_id :: "'w net \<Rightarrow> byte list \<Rightarrow> byte list \<Rightarrow> client \<Rightarrow> 'w \<Rightarrow> bool \<times> client \<times> 'w" where
  "get_client_id net mem buf c w =
     id_loop MAX_RETRIES net buf
       (store_client_id_request mem
          \<lparr>cq_type = message_code CLIENT_ID_REQ, cq_message_id = cl_next_message_id c\<rparr>)
       (c\<lparr>cl_next_message_id := cl_next_message_id c + 1\<rparr>) w"

definition send_heartbeat :: "'w net \<Rightarrow> client \<Rightarrow> 'w \<Rightarrow> 'w" where
  "send_heartbeat net c w =
     snd (n_sendto net (cl_server c)
            (store_heartbeat [] \<lparr>hb_type = message_code HEARTBEAT, hb_client_id = cl_id c\<rparr>) w)"

subsection \<open>upload\_file\<close>

definition upload_request_bytes :: "byte list \<Rightarrow> client \<Rightarrow> 32 word \<Rightarrow> 64 word \<Rightarrow> string \<Rightarrow> byte list" where
  "upload_request_bytes mem c job_id fsize filename =
     store_upload_request mem
       \<lparr>uq_type = message_code UPLOAD_REQ, uq_message_id = cl_next_message_id c,
        uq_client_id = cl_id c, uq_job_id = job_id, uq_file_size = fsize,
        uq_name_len = of_nat (length filename)\<rparr> @ bytes_of filename"

text \<open>
  The transfer loop: a failing \<open>read\<close> is reported (False), a failing \<open>send\<close> only ends the loop,
  and what a short \<open>send\<close> left out is not sent again.
\<close>

partial_function (option) upload_send_loop ::
  "'w os \<Rightarrow> nat \<Rightarrow> nat \<Rightarrow> int \<Rightarrow> 'w \<Rightarrow> ((bool \<times> int) \<times> 'w) option" where
  "upload_send_loop os file sock sent w =
     (let r = sys_read os file 4096 w in
      case fst r of
        None \<Rightarrow> Some ((False, sent), snd r)
      | Some data \<Rightarrow>
          if data = [] then Some ((True, sent), snd r)
          else let s = sys_send os sock data (snd r) in
               if fst s \<le> 0 then Some ((True, sent), snd s)
               else upload_send_loop os file sock (sent + fst s) (snd s))"

text \<open>What follows a valid \<open>UPLOAD_ACK\<close>: connect, open the file, send it.\<close>

definition upload_transfer ::
  "'w net \<Rightarrow> string \<Rightarrow> 16 word \<Rightarrow> client \<Rightarrow> 'w \<Rightarrow> (bool \<times> client \<times> 'w) option" where
  "upload_transfer net filename tcp_port c w =
     (let os = n_os net; s = n_socket net w in
      case fst s of
        None \<Rightarrow> Some (False, c, snd s)
      | Some sock \<Rightarrow>
          let k = n_connect net sock ((cl_server c)\<lparr>sin_port := tcp_port\<rparr>) (snd s) in
          if \<not> fst k then Some (False, c, sys_close os sock (snd k))
          else let f = sys_open_read os filename (snd k) in
            case fst f of
              None \<Rightarrow> Some (False, c, sys_close os sock (snd f))
            | Some file \<Rightarrow>
                map_option (\<lambda>r. (fst (fst r), c, sys_close os sock (sys_close os file (snd r))))
                  (upload_send_loop os file sock 0 (snd f)))"

text \<open>
  The check of an \<open>UPLOAD_ACK\<close> of \<open>n\<close> bytes: the port to connect to, or None when the upload is
  rejected, for which the code terminates the name in the answer.
\<close>

definition check_upload_ack :: "nat \<Rightarrow> byte list \<Rightarrow> 16 word option result" where
  "check_upload_ack n buf =
     (let resp = load_upload_response buf in
      if ur_status resp \<noteq> status_byte STATUS_OK
      then if 0 < unat (ur_name_len resp) \<and> n \<ge> sizeof_UploadResponse + unat (ur_name_len resp)
           then rbind (poke (sizeof_UploadResponse + unat (ur_name_len resp)) 0 buf) (\<lambda>_. Inr None)
           else Inr None
      else if ur_tcp_port resp = 0 then Inr None else Inr (Some (ur_tcp_port resp)))"

fun upload_attempts ::
  "nat \<Rightarrow> 'w net \<Rightarrow> byte list \<Rightarrow> byte list \<Rightarrow> string \<Rightarrow> client \<Rightarrow> 'w \<Rightarrow> (bool \<times> client \<times> 'w) result option" where
  "upload_attempts 0 net buf req filename c w = Some (Inr (False, c, w))"
| "upload_attempts (Suc k) net buf req filename c w =
     (let s = n_sendto net (cl_server c) req w in
      if \<not> fst s then upload_attempts k net buf req filename c (snd s)
      else case receive net buf c (snd s) of (n, buf1, c1, w1) \<Rightarrow>
        if n = None \<or> the n < sizeof_UploadResponse then upload_attempts k net buf req filename c1 w1
        else case check_upload_ack (the n) buf1 of
               Inl e \<Rightarrow> Some (Inl e)
             | Inr None \<Rightarrow> Some (Inr (False, c1, w1))
             | Inr (Some tcp_port) \<Rightarrow> map_option Inr (upload_transfer net filename tcp_port c1 w1))"

text \<open>\<open>mem\<close> is the heap memory of the request, \<open>buf\<close> the stack memory of the answer.\<close>

definition upload_file ::
  "'w net \<Rightarrow> bool \<Rightarrow> byte list \<Rightarrow> byte list \<Rightarrow> 32 word \<Rightarrow> string \<Rightarrow> client \<Rightarrow> 'w \<Rightarrow>
   (bool \<times> client \<times> 'w) result option" where
  "upload_file net alloc mem buf job_id filename c w =
     (if filename = [] then Some (Inr (False, c, w))
      else case sys_stat (n_os net) filename w of
        None \<Rightarrow> Some (Inr (False, c, w))
      | Some st \<Rightarrow>
          if length filename > MAX_FILENAME_LEN then Some (Inr (False, c, w))
          else if \<not> alloc then Some (Inr (False, c, w))
          else upload_attempts MAX_RETRIES net buf
                 (upload_request_bytes mem c job_id (st_size st) filename) filename
                 (c\<lparr>cl_next_message_id := cl_next_message_id c + 1\<rparr>) w)"

text \<open>The loop of \<open>submit_job\<close> over the files: all are tried; a null name is skipped.\<close>

fun upload_all ::
  "'w net \<Rightarrow> bool \<Rightarrow> byte list \<Rightarrow> byte list \<Rightarrow> 32 word \<Rightarrow> string option list \<Rightarrow> bool \<Rightarrow> client \<Rightarrow> 'w \<Rightarrow>
   (bool \<times> client \<times> 'w) result option" where
  "upload_all net alloc mem buf job_id [] ok c w = Some (Inr (ok, c, w))"
| "upload_all net alloc mem buf job_id (None # fs) ok c w = upload_all net alloc mem buf job_id fs ok c w"
| "upload_all net alloc mem buf job_id (Some f # fs) ok c w =
     dbind (upload_file net alloc mem buf job_id f c w) (\<lambda>(up, c1, w1).
     upload_all net alloc mem buf job_id fs (ok \<and> up) c1 w1)"

subsection \<open>submit\_job\<close>

definition job_request_bytes :: "client \<Rightarrow> 32 word \<Rightarrow> string \<Rightarrow> int \<Rightarrow> byte list" where
  "job_request_bytes c job_id command file_count =
     store_job_request (replicate sizeof_JobRequest 0)
       \<lparr>jq_type = message_code JOB_REQ, jq_message_id = cl_next_message_id c, jq_client_id = cl_id c,
        jq_job_id = job_id, jq_file_count = of_int file_count, jq_cmd_len = of_nat (length command)\<rparr>
     @ bytes_of command"

text \<open>
  The wait for \<open>JOB_RESULT\<close>: other datagrams are skipped, an empty one too; a timeout gives 0. The
  job number in the answer is not compared.
\<close>

partial_function (option) result_loop ::
  "'w net \<Rightarrow> 32 word \<Rightarrow> byte list \<Rightarrow> client \<Rightarrow> 'w \<Rightarrow> (32 word \<times> client \<times> 'w) result option" where
  "result_loop net job_id buf c w =
     (case receive net buf c w of (n, buf1, c1, w1) \<Rightarrow>
        if n = None then Some (Inr (0, c1, w1))
        else if the n > 0 \<and> get8 0 buf1 = message_code JOB_RESULT
        then (case terminate_msg sizeof_JobResult (jt_msg_len (load_job_result buf1)) buf1 of
                Inl e \<Rightarrow> Some (Inl e)
              | Inr buf2 \<Rightarrow> Some (Inr (if jt_status (load_job_result buf2) = status_byte STATUS_OK
                                     then job_id else 0, c1, w1)))
        else result_loop net job_id buf1 c1 w1)"

text \<open>
  \<open>rand\<close> gave \<open>job_id\<close>; \<open>mem\<close> is the heap memory of an upload request, \<open>ubuf\<close> and \<open>buf\<close> the stack
  memory of the two answer buffers. The result is the job number, or 0.
\<close>

definition submit_job ::
  "'w net \<Rightarrow> bool \<Rightarrow> byte list \<Rightarrow> byte list \<Rightarrow> byte list \<Rightarrow> 32 word \<Rightarrow> string \<Rightarrow> string option list \<Rightarrow>
   client \<Rightarrow> 'w \<Rightarrow> (32 word \<times> client \<times> 'w) result option" where
  "submit_job net alloc mem ubuf buf job_id command files c w =
     (if length files = 0 then Some (Inr (0, c, w))
      else if length command \<ge> MAX_CMD_LEN then Some (Inr (0, c, w))
      else if \<not> alloc then Some (Inr (0, c, w))
      else
        let s = n_sendto net (cl_server c)
                  (job_request_bytes c job_id command (int (length files))) w;
            c0 = c\<lparr>cl_next_message_id := cl_next_message_id c + 1\<rparr>
        in if \<not> fst s then Some (Inr (0, c0, snd s))
           else case receive net buf c0 (snd s) of (n, buf1, c1, w1) \<Rightarrow>
             if n = None \<or> the n < sizeof_JobResponse then Some (Inr (0, c1, w1))
             else case terminate_msg sizeof_JobResponse (jr_msg_len (load_job_response buf1)) buf1 of
               Inl e \<Rightarrow> Some (Inl e)
             | Inr buf2 \<Rightarrow>
                 if jr_status (load_job_response buf2) \<noteq> status_byte STATUS_OK
                 then Some (Inr (0, c1, w1))
                 else dbind (upload_all net alloc mem ubuf job_id files True c1 w1) (\<lambda>(ok, c2, w2).
                      if \<not> ok then Some (Inr (0, c2, w2))
                      else result_loop net job_id buf2 c2 w2))"

subsection \<open>download\_file\<close>

datatype download_result = Not_Downloaded | Incomplete string nat | Complete string nat

definition download_request_bytes :: "byte list \<Rightarrow> client \<Rightarrow> 32 word \<Rightarrow> string \<Rightarrow> byte list" where
  "download_request_bytes mem c job_id filename =
     store_download_request mem
       \<lparr>dq_type = message_code DOWNLOAD_REQ, dq_message_id = cl_next_message_id c,
        dq_client_id = cl_id c, dq_job_id = job_id, dq_name_len = of_nat (length filename)\<rparr>
     @ bytes_of filename"

text \<open>
  What follows the \<open>DOWNLOAD_ACK\<close>: the file is stored under the name in the answer. The receive
  loop is the one of the server's \<open>process_upload\<close>.
\<close>

definition download_transfer ::
  "'w net \<Rightarrow> string \<Rightarrow> nat \<Rightarrow> client \<Rightarrow> 'w \<Rightarrow> download_result \<times> 'w" where
  "download_transfer net file_name fsize c w =
     (let os = n_os net; s = n_socket net w in
      case fst s of
        None \<Rightarrow> (Not_Downloaded, snd s)
      | Some sock \<Rightarrow>
          let k = n_connect net sock ((cl_server c)\<lparr>sin_port := htons (of_nat (SERVER_PORT + 1))\<rparr>) (snd s) in
          if \<not> fst k then (Not_Downloaded, sys_close os sock (snd k))
          else let f = sys_open_write os file_name (snd k) in
            case fst f of
              None \<Rightarrow> (Not_Downloaded, sys_close os sock (snd f))
            | Some file \<Rightarrow>
                let r = recv_loop os sock file fsize (snd f)
                in (if fst r = 0 then Complete file_name fsize else Incomplete file_name (fst r),
                    sys_close os sock (sys_close os file (snd r))))"

definition download_file ::
  "'w net \<Rightarrow> bool \<Rightarrow> byte list \<Rightarrow> byte list \<Rightarrow> 32 word \<Rightarrow> string \<Rightarrow> client \<Rightarrow> 'w \<Rightarrow>
   (download_result \<times> client \<times> 'w) result" where
  "download_file net alloc mem buf job_id filename c w =
     (if filename = [] then Inr (Not_Downloaded, c, w)
      else if length filename > MAX_FILENAME_LEN then Inr (Not_Downloaded, c, w)
      else if \<not> alloc then Inr (Not_Downloaded, c, w)
      else
        let s = n_sendto net (cl_server c) (download_request_bytes mem c job_id filename) w;
            c0 = c\<lparr>cl_next_message_id := cl_next_message_id c + 1\<rparr>
        in if \<not> fst s then Inr (Not_Downloaded, c0, snd s)
           else case receive net buf c0 (snd s) of (n, buf1, c1, w1) \<Rightarrow>
             if n = None \<or> the n < sizeof_DownloadResponse then Inr (Not_Downloaded, c1, w1)
             else
               rbind (terminate_msg sizeof_DownloadResponse (dr_name_len (load_download_response buf1)) buf1) (\<lambda>buf2.
               rbind (read_cstr sizeof_DownloadResponse buf2) (\<lambda>file_name.
               let resp = load_download_response buf2 in
               if dr_status resp \<noteq> status_byte STATUS_OK then Inr (Not_Downloaded, c1, w1)
               else let t = download_transfer net file_name (unat (dr_file_size resp)) c1 w1
                    in Inr (fst t, c1, snd t))))"

subsection \<open>The menu\<close>

text \<open>
  One round of the menu: the choice, the two file names (\<open>%255s\<close>), the answers to the builder,
  the value of \<open>rand\<close> and the memory the buffers start with.
\<close>

record menu_input =
  mi_choice :: int
  mi_input :: string
  mi_output :: string
  mi_answers :: answers
  mi_rand :: "32 word"
  mi_mem :: "byte list"
  mi_buf :: "byte list"

definition process_menu_choice ::
  "'w net \<Rightarrow> bool \<Rightarrow> menu_input \<Rightarrow> client \<Rightarrow> 'w \<Rightarrow> (download_result option \<times> client \<times> 'w) result option" where
  "process_menu_choice net alloc i c w =
     (case build_command (mi_choice i) (mi_input i) (mi_output i) (mi_answers i) MAX_CMD_LEN of
        None \<Rightarrow> Some (Inr (None, c, w))
      | Some command \<Rightarrow>
          dbind (submit_job net alloc (mi_mem i) (mi_buf i) (mi_buf i) (mi_rand i) command
                   [Some (mi_input i)] c w) (\<lambda>(job_id, c1, w1).
          if job_id = 0 then Some (Inr (None, c1, w1))
          else Some (rbind (download_file net alloc (take sizeof_DownloadRequest (mi_mem i)) (mi_buf i)
                              job_id (mi_output i) c1 w1) (\<lambda>(d, c2, w2). Inr (Some d, c2, w2)))))"

text \<open>The loop of \<open>main\<close>; it ends with the choice 0.\<close>

fun menu_loop ::
  "'w net \<Rightarrow> bool \<Rightarrow> menu_input list \<Rightarrow> client \<Rightarrow> 'w \<Rightarrow> (client \<times> 'w) result option" where
  "menu_loop net alloc [] c w = Some (Inr (c, w))"
| "menu_loop net alloc (i # is) c w =
     (if mi_choice i = 0 then Some (Inr (c, w))
      else dbind (process_menu_choice net alloc i c w) (\<lambda>(d, c1, w1). menu_loop net alloc is c1 w1))"

section \<open>Lemmas\<close>





text \<open>A file of which every block is taken whole is sent to its end.\<close>

lemma upload_send_loop_whole:
  fixes rest out :: "'w \<Rightarrow> byte list"
  assumes read: "\<And>w. \<exists>w'. sys_read os file 4096 w = (Some (take 4096 (rest w)), w') \<and>
      rest w' = drop 4096 (rest w) \<and> out w' = out w"
    and send: "\<And>d w. \<exists>w'. sys_send os sock d w = (int (length d), w') \<and> rest w' = rest w \<and>
      out w' = out w @ d"
  shows "\<exists>w'. upload_send_loop os file sock sent w = Some ((True, sent + int (length (rest w))), w') \<and>
    out w' = out w @ rest w"
proof (induction "length (rest w)" arbitrary: w sent rule: less_induct)
  case less
  obtain w1 where w1: "sys_read os file 4096 w = (Some (take 4096 (rest w)), w1)"
    "rest w1 = drop 4096 (rest w)" "out w1 = out w" using read by blast
  show ?case
  proof (cases "rest w = []")
    case True
    with w1 show ?thesis by (subst upload_send_loop.simps) simp
  next
    case False
    let ?d = "take 4096 (rest w)"
    obtain w2 where w2: "sys_send os sock ?d w1 = (int (length ?d), w2)" "rest w2 = rest w1"
      "out w2 = out w1 @ ?d" using send by blast
    have "length (rest w2) < length (rest w)" using False w1(2) w2(2) by simp
    then obtain w' where ih: "upload_send_loop os file sock (sent + int (length ?d)) w2 =
        Some ((True, sent + int (length ?d) + int (length (rest w2))), w')" "out w' = out w2 @ rest w2"
      using less by blast
    have "\<not> int (length ?d) \<le> 0" using False by simp
    then have "upload_send_loop os file sock sent w = upload_send_loop os file sock (sent + int (length ?d)) w2"
      using w1 w2 False by (subst upload_send_loop.simps) (simp add: Let_def min_def)
    moreover have "int (length ?d) + int (length (rest w2)) = int (length (rest w))"
      using w1(2) w2(2) by (simp flip: of_nat_add)
    moreover have "out w2 @ rest w2 = out w @ rest w" using w1 w2 by simp
    ultimately show ?thesis using ih by (simp add: add.assoc)
  qed
qed

text \<open>Only a failing \<open>read\<close> makes the transfer fail.\<close>

lemma upload_send_loop_flag:
  assumes "upload_send_loop os f sock sent w = Some r"
  shows "(\<forall>w. fst (sys_read os f 4096 w) \<noteq> None) \<longrightarrow> fst (fst r)"
proof (rule upload_send_loop.raw_induct [OF _ assms,
      where P = "\<lambda>os f sock sent w r. (\<forall>w. fst (sys_read os f 4096 w) \<noteq> None) \<longrightarrow> fst (fst r)"])
  fix loop :: "'a os \<Rightarrow> nat \<Rightarrow> nat \<Rightarrow> int \<Rightarrow> 'a \<Rightarrow> ((bool \<times> int) \<times> 'a) option"
    and os :: "'a os" and f sock sent w r
  assume ih: "\<And>os f sock sent w r. loop os f sock sent w = Some r \<Longrightarrow>
      (\<forall>w. fst (sys_read os f 4096 w) \<noteq> None) \<longrightarrow> fst (fst r)"
    and step: "(let r = sys_read os f 4096 w in
      case fst r of
        None \<Rightarrow> Some ((False, sent), snd r)
      | Some data \<Rightarrow>
          if data = [] then Some ((True, sent), snd r)
          else let s = sys_send os sock data (snd r) in
               if fst s \<le> 0 then Some ((True, sent), snd s)
               else loop os f sock (sent + fst s) (snd s)) = Some r"
  show "(\<forall>w. fst (sys_read os f 4096 w) \<noteq> None) \<longrightarrow> fst (fst r)"
    using step ih by (auto simp: Let_def split: option.splits if_splits) (metis option.distinct(1))
qed

section \<open>Properties\<close>



text \<open>
  C32: The transfer of an upload: once connected, with a file whose reads succeed, it is always
  reported as a success if it returns, even when \<open>send\<close> failed at once; and if every \<open>send\<close> takes
  all it is given, the transfer returns and the whole file was sent, in order.
\<close>

theorem upload_transfer_outcome:
  fixes rest out :: "'w \<Rightarrow> byte list"
  assumes "n_socket net w = (Some sock, w1)"
    and "n_connect net sock ((cl_server c)\<lparr>sin_port := tcp_port\<rparr>) w1 = (True, w2)"
    and "sys_open_read (n_os net) filename w2 = (Some f, w3)"
    and read: "\<And>w. \<exists>w'. sys_read (n_os net) f 4096 w = (Some (take 4096 (rest w)), w') \<and>
      rest w' = drop 4096 (rest w) \<and> out w' = out w"
    and cls: "\<And>fd w. out (sys_close (n_os net) fd w) = out w"
  shows "(\<forall>ok c' w'. upload_transfer net filename tcp_port c w = Some (ok, c', w') \<longrightarrow> ok) \<and>
    ((\<forall>d w. \<exists>w'. sys_send (n_os net) sock d w = (int (length d), w') \<and> rest w' = rest w \<and>
        out w' = out w @ d) \<longrightarrow>
     (\<exists>w'. upload_transfer net filename tcp_port c w = Some (True, c, w') \<and> out w' = out w3 @ rest w3))"
proof (intro conjI allI impI)
  fix ok c' w'
  assume "upload_transfer net filename tcp_port c w = Some (ok, c', w')"
  then obtain r where r: "upload_send_loop (n_os net) f sock 0 w3 = Some r" "ok = fst (fst r)"
    using assms(1-3) by (auto simp: upload_transfer_def Let_def)
  have "\<forall>w. fst (sys_read (n_os net) f 4096 w) \<noteq> None" using read by (metis fst_conv option.distinct(1))
  with upload_send_loop_flag [OF r(1)] r(2) show "ok" by simp
next
  assume "\<forall>d w. \<exists>w'. sys_send (n_os net) sock d w = (int (length d), w') \<and> rest w' = rest w \<and> out w' = out w @ d"
  then obtain w4 where "upload_send_loop (n_os net) f sock 0 w3 = Some ((True, 0 + int (length (rest w3))), w4)"
    "out w4 = out w3 @ rest w3"
    using upload_send_loop_whole [of "n_os net" f rest out sock, OF read] by blast
  with assms(1-3) cls
  show "\<exists>w'. upload_transfer net filename tcp_port c w = Some (True, c, w') \<and> out w' = out w3 @ rest w3"
    by (simp add: upload_transfer_def Let_def)
qed

definition pipe_net :: "(byte list \<times> byte list) net" where
  "pipe_net = \<lparr>n_os = pipe_os, n_sendto = (\<lambda>addr d w. (True, w)), n_recvfrom = (\<lambda>w. (None, w)),
     n_socket = (\<lambda>w. (Some 6, w)), n_connect = (\<lambda>fd addr w. (True, w))\<rparr>"

theorem upload_transfer_outcome_witness:
  "\<exists>w'. upload_transfer pipe_net ''a'' 5 \<lparr>cl_id = replicate 16 3, cl_next_message_id = 1,
       cl_server = \<lparr>sin_addr = 2, sin_port = 3\<rparr>\<rparr> ([1, 2, 3], []) =
     Some (True, \<lparr>cl_id = replicate 16 3, cl_next_message_id = 1,
       cl_server = \<lparr>sin_addr = 2, sin_port = 3\<rparr>\<rparr>, w') \<and> snd w' = [1, 2, 3]"
proof -
  let ?c = "\<lparr>cl_id = replicate 16 3, cl_next_message_id = 1, cl_server = \<lparr>sin_addr = 2, sin_port = 3\<rparr>\<rparr>"
    and ?w = "([1, 2, 3], []) :: byte list \<times> byte list"
  have "\<exists>w'. upload_transfer pipe_net ''a'' 5 ?c ?w = Some (True, ?c, w') \<and> snd w' = snd ?w @ fst ?w"
    by (rule upload_transfer_outcome [where sock = 6 and ?w1.0 = ?w and ?w2.0 = ?w and f = 3
          and rest = "fst :: byte list \<times> byte list \<Rightarrow> byte list" and out = snd, THEN conjunct2, THEN mp])
      (simp_all add: pipe_net_def pipe_os_def)
  then show ?thesis by simp
qed

end
