(* ===== verification/AdminClient.thy ===== *)
theory AdminClient
  imports Admin
begin

section \<open>The console client (src/c-admin-client/c-admin-client.c)\<close>















section \<open>Lemmas\<close>




section \<open>Properties\<close>



end
